(* ===== verification/Prelude.thy ===== *)
theory Prelude
  imports Main "HOL-Library.Word" "HOL-Library.Monad_Syntax"
begin

text \<open>
  Shared vocabulary of the development: the C integer types of the program's platform (Linux on
  x86-64: LP64, little endian) as words, the conversions the C code performs between them, the
  little-endian byte images of fixed-width values, and the generic lemmas on bytes, lists and
  options that the component theories use.  The collection \<open>cconv\<close> holds the conversion
  equations, \<open>codec\<close> the facts on byte images.
\<close>

unbundle bit_operations_syntax

declare One_nat_def [simp del]

named_theorems cconv
named_theorems codec

type_synonym u8 = "8 word"
type_synonym u16 = "16 word"
type_synonym u32 = "32 word"
type_synonym u64 = "64 word"

section \<open>Integer conversions of C\<close>

text \<open>
  A C \<open>int\<close> is kept as a HOL \<open>int\<close> in \<open>[-2^31, 2^31)\<close>; \<open>int_of_ulong\<close> is the
  implementation-defined conversion gcc makes when an \<open>unsigned long\<close> is stored in an
  \<open>int\<close> (keep the low 32 bits, read them as two's complement), \<open>int_of_long\<close> the same
  for a \<open>long\<close>, and \<open>off_of_ulong\<close> the conversion to the signed 64-bit \<open>off_t\<close>.
\<close>

definition int_of_ulong :: "u64 \<Rightarrow> int" where
  "int_of_ulong x = sint (ucast x :: u32)"

definition int_of_long :: "int \<Rightarrow> int" where
  "int_of_long x = sint (word_of_int x :: u32)"

definition off_of_ulong :: "u64 \<Rightarrow> int" where
  "off_of_ulong x = sint x"

definition INT_MAX :: int where
  "INT_MAX = 2147483647"

lemma uint_less_pow_iff: "uint (x :: 'a::len word) < 2 ^ n \<longleftrightarrow> unat x < 2 ^ n"
proof -
  have "int (unat x) < int (2 ^ n) \<longleftrightarrow> unat x < 2 ^ n"
    by (rule of_nat_less_iff)
  then show ?thesis by simp
qed

lemma take_bit_num_one [simp]:
  "take_bit_num 1 num.One = Some num.One" "take_bit_num 1 (num.Bit0 m) = None"
  "take_bit_num 1 (num.Bit1 m) = Some num.One"
  by (simp_all add: One_nat_def)

lemma uint_neq_minus_one [simp]: "uint (x :: 'a::len word) \<noteq> - 1"
  using uint_ge_0 [of x] by linarith

lemma unat_u64_less: "unat (x :: u64) < 2 ^ 64"
  using unsigned_less [of x, where ?'a = nat] by simp

lemma int_of_ulong_small [cconv]:
  assumes "unat x < 2 ^ 31"
  shows "int_of_ulong x = int (unat x)"
proof -
  have "uint x < 2 ^ 31"
    using assms by (simp only: uint_less_pow_iff)
  then have "signed_take_bit 31 (uint x) = uint x"
    by (intro signed_take_bit_int_eq_self order_trans [OF _ uint_ge_0]) simp_all
  then have "sint (ucast x :: u32) = uint x"
    by (simp add: signed_ucast_eq)
  then show ?thesis by (simp add: int_of_ulong_def)
qed

lemma mod_add_half:
  assumes "0 \<le> (c :: int)" and "c < 2 ^ 32"
  shows "(c + 2 ^ 31) mod 2 ^ 32 = (if c < 2 ^ 31 then c + 2 ^ 31 else c - 2 ^ 31)"
proof (cases "c < 2 ^ 31")
  case False
  have "(c + 2 ^ 31) mod 2 ^ 32 = (c - 2 ^ 31 + 2 ^ 32) mod 2 ^ 32" by (simp add: add.commute)
  also have "\<dots> = c - 2 ^ 31" using False assms by (simp only: mod_add_self2) simp
  finally show ?thesis using False by simp
qed (use assms in simp)

lemma int_of_ulong_signed:
  "int_of_ulong x = (if unat x mod 2 ^ 32 < 2 ^ 31 then int (unat x mod 2 ^ 32) else int (unat x mod 2 ^ 32) - 2 ^ 32)"
proof -
  let ?c = "uint x mod 2 ^ 32"
  have u: "uint (ucast x :: u32) = ?c"
    by (simp add: unsigned_ucast_eq take_bit_eq_mod)
  have "int_of_ulong x = (?c + 2 ^ 31) mod 2 ^ 32 - 2 ^ 31"
    unfolding int_of_ulong_def sint_uint by (simp add: u signed_take_bit_eq_take_bit_shift take_bit_eq_mod)
  moreover have "(?c + 2 ^ 31) mod 2 ^ 32 = (if ?c < 2 ^ 31 then ?c + 2 ^ 31 else ?c - 2 ^ 31)"
    by (rule mod_add_half) simp_all
  ultimately have "int_of_ulong x = (if ?c < 2 ^ 31 then ?c else ?c - 2 ^ 32)" by simp
  moreover have "?c = int (unat x mod 2 ^ 32)" by (simp add: zmod_int)
  ultimately show ?thesis by simp
qed

lemma int_of_long_id [cconv]:
  assumes "- (2 ^ 31) \<le> x" and "x < 2 ^ 31"
  shows "int_of_long x = x"
  using assms by (simp add: int_of_long_def signed_of_int signed_take_bit_int_eq_self)

lemma int_of_long_range: "- (2 ^ 31) \<le> int_of_long x \<and> int_of_long x < 2 ^ 31"
  unfolding int_of_long_def
  using sint_ge [of "word_of_int x :: u32"] sint_lt [of "word_of_int x :: u32"] by simp

lemma off_of_ulong_small [cconv]:
  assumes "unat x < 2 ^ 63"
  shows "off_of_ulong x = int (unat x)"
proof -
  have "uint x < 2 ^ 63"
    using assms by (simp only: uint_less_pow_iff)
  then have "signed_take_bit 63 (uint x) = uint x"
    by (intro signed_take_bit_int_eq_self order_trans [OF _ uint_ge_0]) simp_all
  then show ?thesis
    by (simp add: off_of_ulong_def sint_uint)
qed

section \<open>Little-endian byte images\<close>

text \<open>
  \<open>le_enc n w\<close> is the image of the first \<open>n\<close> bytes of a fixed-width object in memory on
  the little-endian platform, \<open>le_dec\<close> the value read back from such an image.  They are what
  the program relies on when it passes \<open>&data.u16\<close> and \<open>sizeof(data.u16)\<close> to
  \<open>read\<close> or \<open>write\<close>, or aliases a byte array with an integer in a union.
\<close>

definition le_enc :: "nat \<Rightarrow> 'a::len word \<Rightarrow> u8 list" where
  "le_enc n w = map (\<lambda>i. ucast (drop_bit (8 * i) w)) [0..<n]"

fun le_dec :: "u8 list \<Rightarrow> 'a::len word" where
  "le_dec [] = 0"
| "le_dec (b # bs) = ucast b OR push_bit 8 (le_dec bs)"

lemma length_le_enc [simp, codec]: "length (le_enc n w) = n"
  by (simp add: le_enc_def)

lemma nth_le_enc [codec]: "i < n \<Longrightarrow> le_enc n w ! i = ucast (drop_bit (8 * i) w)"
  by (simp add: le_enc_def)

lemma bit_le_dec:
  "bit (le_dec bs :: 'a::len word) k \<longleftrightarrow>
     k < LENGTH('a) \<and> k div 8 < length bs \<and> bit (bs ! (k div 8)) (k mod 8)"
proof (induction bs arbitrary: k)
  case Nil
  show ?case by simp
next
  case (Cons b bs)
  show ?case
  proof (cases "k < 8")
    case True
    then show ?thesis
      by (auto simp: bit_or_iff bit_push_bit_iff bit_ucast_iff)
  next
    case False
    then obtain j where k: "k = j + 8"
      by (metis add.commute le_add_diff_inverse not_le)
    have "\<not> bit (ucast b :: 'a word) k"
      using False by (auto simp: bit_ucast_iff dest: bit_imp_le_length)
    moreover have "(j + 8) div 8 = Suc (j div 8)" and "(j + 8) mod 8 = j mod 8"
      by simp_all
    ultimately show ?thesis
      by (auto simp: k bit_or_iff bit_push_bit_iff Cons.IH)
  qed
qed

lemma bit_nth_le_enc:
  "i < n \<Longrightarrow> bit (le_enc n w ! i) j \<longleftrightarrow> j < 8 \<and> bit w (8 * i + j)"
  by (auto simp: nth_le_enc bit_ucast_iff bit_drop_bit_eq dest: bit_imp_le_length)

lemma le_dec_enc [codec]:
  assumes "LENGTH('a) \<le> 8 * n"
  shows "le_dec (le_enc n w) = (w :: 'a::len word)"
proof (rule bit_word_eqI)
  fix k
  assume k: "k < LENGTH('a)"
  then have "k div 8 < n" using assms by auto
  then show "bit (le_dec (le_enc n w) :: 'a word) k \<longleftrightarrow> bit w k"
    using k by (simp add: bit_le_dec bit_nth_le_enc)
qed

lemma le_enc_dec [codec]:
  assumes "length bs = n" and "8 * n \<le> LENGTH('a)"
  shows "le_enc n (le_dec bs :: 'a::len word) = bs"
proof (rule nth_equalityI)
  fix i
  assume "i < length (le_enc n (le_dec bs :: 'a word))"
  then have i: "i < n" by simp
  then have "8 * i + 8 \<le> LENGTH('a)" using assms by auto
  then show "le_enc n (le_dec bs :: 'a word) ! i = bs ! i"
    using i assms by (intro bit_word_eqI) (simp add: bit_nth_le_enc bit_le_dec)
qed (simp add: assms)

lemma le_dec_enc_narrow: "le_dec (le_enc n w) = take_bit (8 * n) (w :: 'a::len word)"
  by (rule bit_word_eqI) (auto simp: bit_le_dec bit_nth_le_enc bit_take_bit_iff)

text \<open>
  The interface the register components use: an object of type \<open>'w\<close> that occupies
  \<open>width\<close> bytes, with the two directions of the union of \<^verbatim>\<open>data_store\<close> in
  \<^verbatim>\<open>commands.h\<close>.
\<close>

locale byte_image =
  fixes enc :: "'w \<Rightarrow> u8 list" and dec :: "u8 list \<Rightarrow> 'w" and width :: nat
  assumes length_enc: "length (enc x) = width"
    and dec_enc: "dec (enc x) = x"
    and enc_dec: "length bs = width \<Longrightarrow> enc (dec bs) = bs"
begin

lemma enc_inject: "enc x = enc y \<longleftrightarrow> x = y"
  by (metis dec_enc)

lemma dec_inject: "length bs = width \<Longrightarrow> length cs = width \<Longrightarrow> dec bs = dec cs \<longleftrightarrow> bs = cs"
  by (metis enc_dec)

lemma ex_image: "length bs = width \<Longrightarrow> \<exists>x. bs = enc x"
  by (metis enc_dec)

end

interpretation u8_image: byte_image "le_enc 1 :: u8 \<Rightarrow> u8 list" le_dec 1
  by unfold_locales (simp_all add: codec)

interpretation u16_image: byte_image "le_enc 2 :: u16 \<Rightarrow> u8 list" le_dec 2
  by unfold_locales (simp_all add: codec)

interpretation u32_image: byte_image "le_enc 4 :: u32 \<Rightarrow> u8 list" le_dec 4
  by unfold_locales (simp_all add: codec)

interpretation u64_image: byte_image "le_enc 8 :: u64 \<Rightarrow> u8 list" le_dec 8
  by unfold_locales (simp_all add: codec)

end
