(* ===== verification/Syscalls.thy ===== *)
theory Syscalls
  imports CLib
begin

text \<open>
  The boundary between the program and the machine.  Every system call and every privileged
  instruction the program issues is a value of \<open>extcall\<close>; what the machine answers is decided by
  the \<open>kernel\<close> of an environment record, a parameter of every operation of the model, so a lemma
  over an arbitrary environment holds for every behaviour of the machine.  The \<open>world\<close> record
  is the state of the process: the kernel state it shares with the machine, the answer to its last
  call, \<^verbatim>\<open>errno\<close>, its two output streams, its memory mappings and the trace of its calls (latest
  first).

  An operation of the program maps a world to \<open>Some (result, world')\<close>; \<open>None\<close> is undefined
  behaviour of C (a null or out-of-range \<open>argv\<close> element is used, a shift is too wide, memory
  outside a mapping is touched).  The descriptor discipline of the program is stated over the trace:
  \<open>open_fds\<close> are the descriptors open after a trace, \<open>disciplined\<close> says that each call used
  a descriptor that was open.
\<close>

named_theorems io_simps

section \<open>Calls and answers\<close>

text \<open>
  The argument blocks of the \<^verbatim>\<open>ioctl\<close> requests the program makes: a slave address, the
  \<^verbatim>\<open>i2c_smbus_ioctl_data\<close> block with the contents of its data union (absent when the pointer
  is NULL), and the message list of \<^verbatim>\<open>I2C_RDWR\<close> as (address, flags, length, bytes).
\<close>

datatype ioctl_arg =
    Slave_address u8
  | Smbus_args u8 u8 int "u8 list option"
  | Rdwr_msgs "(u16 \<times> u16 \<times> int \<times> u8 list) list"

datatype extcall =
    Open string u32
  | Lseek int int
  | Read int nat
  | Write int "u8 list"
  | Close int
  | Ioctl int u32 ioctl_arg
  | Mmap nat u32 int u64
  | Munmap u64 nat
  | Load u64 nat
  | Store u64 "u8 list"
  | Iopl int
  | Port_in nat u16
  | Port_out u16 "u8 list"
  | Readlink string nat
  | Symlink string string
  | Unlink string
  | Opendir string
  | Closedir int
  | Gettimeofday
  | Sysconf_nprocessors
  | Sched_setaffinity "nat list"
  | Execvp string "string list"
  | Rdtsc
  | Cpuid u32 u32
  | Glob string

text \<open>
  The answer: the returned value, the \<^verbatim>\<open>errno\<close> of a failure, the bytes stored through an
  output pointer, the text of a string result (for \<^verbatim>\<open>glob\<close> the first path found), and, for \<^verbatim>\<open>opendir\<close>, the entries that
  \<^verbatim>\<open>readdir\<close> delivers one after the other from the stream (name, and whether the type is
  \<^verbatim>\<open>DT_DIR\<close>).
\<close>

record sysret =
  ret :: int
  err :: int
  buf :: "nat \<Rightarrow> u8"
  str :: string
  ents :: "(string \<times> bool) list"

text \<open>
  A mapping of the process: its length in bytes, its protection and the file offset it starts at,
  which for \<^verbatim>\<open>/dev/mem\<close> is a physical address.
\<close>

record vm_area =
  vm_len :: nat
  vm_prot :: u32
  vm_off :: u64

record 'k env =
  kernel :: "extcall \<Rightarrow> 'k \<Rightarrow> sysret \<times> 'k"
  strerror :: "int \<Rightarrow> string"
  getpagesize :: nat

record 'k world =
  kstate :: 'k
  res :: sysret
  errno :: int
  stdout :: string
  stderr :: string
  maps :: "(u64 \<times> vm_area) list"
  trace :: "(extcall \<times> sysret) list"

type_synonym ('k, 'a) result = "('a \<times> 'k world) option"

text \<open>The mappings by their address: \<^verbatim>\<open>mmap\<close> adds one unless it fails, \<^verbatim>\<open>munmap\<close> removes it.\<close>

fun remap :: "extcall \<Rightarrow> sysret \<Rightarrow> (u64 \<times> vm_area) list \<Rightarrow> (u64 \<times> vm_area) list" where
  "remap (Mmap len prot fd a) r ms =
     (if ret r = - 1 then ms else (word_of_int (ret r), \<lparr>vm_len = len, vm_prot = prot, vm_off = a\<rparr>) # ms)"
| "remap (Munmap p len) r ms = (if ret r < 0 then ms else filter (\<lambda>m. fst m \<noteq> p) ms)"
| "remap _ r ms = ms"

definition sys :: "'k env \<Rightarrow> extcall \<Rightarrow> 'k world \<Rightarrow> 'k world" where
  "sys E c w = (case kernel E c (kstate w) of (r, k) \<Rightarrow>
     w\<lparr>kstate := k, res := r, errno := (if ret r < 0 then err r else errno w),
       maps := remap c r (maps w), trace := (c, r) # trace w\<rparr>)"

text \<open>The returned value, the stored bytes and the returned text of the last call.\<close>

definition rv :: "'k world \<Rightarrow> int" where
  "rv w = ret (res w)"

definition rdbuf :: "nat \<Rightarrow> 'k world \<Rightarrow> u8 list" where
  "rdbuf n w = map (buf (res w)) [0..<n]"

definition rdtxt :: "'k world \<Rightarrow> string" where
  "rdtxt w = str (res w)"

definition printf :: "string \<Rightarrow> 'k world \<Rightarrow> 'k world" where
  "printf s w = w\<lparr>stdout := stdout w @ s\<rparr>"

definition eprintf :: "string \<Rightarrow> 'k world \<Rightarrow> 'k world" where
  "eprintf s w = w\<lparr>stderr := stderr w @ s\<rparr>"

text \<open>\<^verbatim>\<open>strerror(errno)\<close>.\<close>

definition perr :: "'k env \<Rightarrow> 'k world \<Rightarrow> string" where
  "perr E w = strerror E (errno w)"

text \<open>\<^verbatim>\<open>argv[i]\<close>: the element \<open>argv[argc]\<close> is NULL, so using it is undefined.\<close>

definition argp :: "string list \<Rightarrow> nat \<Rightarrow> string option" where
  "argp argv i = (if i < length argv then Some (argv ! i) else None)"

text \<open>The state of the process when \<^verbatim>\<open>main\<close> is entered.\<close>

definition init_world :: "'k \<Rightarrow> 'k world" where
  "init_world k = \<lparr>kstate = k, res = \<lparr>ret = 0, err = 0, buf = (\<lambda>_. 0), str = '''', ents = []\<rparr>, errno = 0,
     stdout = '''', stderr = '''', maps = [], trace = []\<rparr>"

section \<open>Flags of the Linux interfaces\<close>

definition O_RDONLY :: u32 where "O_RDONLY = 0"
definition O_WRONLY :: u32 where "O_WRONLY = 1"
definition O_RDWR :: u32 where "O_RDWR = 2"
definition O_ACCMODE :: u32 where "O_ACCMODE = 3"
definition O_SYNC :: u32 where "O_SYNC = 0x101000"
definition PROT_READ :: u32 where "PROT_READ = 1"
definition PROT_WRITE :: u32 where "PROT_WRITE = 2"
definition FILENAME_MAX :: nat where "FILENAME_MAX = 4096"

text \<open>What \<^verbatim>\<open>open\<close>'s access mode allows: reading and writing.\<close>

definition readable :: "u32 \<Rightarrow> bool" where
  "readable mode \<longleftrightarrow> mode = O_RDONLY \<or> mode = O_RDWR"

definition writable :: "u32 \<Rightarrow> bool" where
  "writable mode \<longleftrightarrow> mode = O_WRONLY \<or> mode = O_RDWR"

lemmas flag_defs = O_RDONLY_def O_WRONLY_def O_RDWR_def O_ACCMODE_def O_SYNC_def
  PROT_READ_def PROT_WRITE_def

section \<open>Frame facts\<close>

lemma sys_frame [simp, io_simps]:
  "stdout (sys E c w) = stdout w"
  "stderr (sys E c w) = stderr w"
  "maps (sys E c w) = remap c (res (sys E c w)) (maps w)"
  "trace (sys E c w) = (c, res (sys E c w)) # trace w"
  by (simp_all add: sys_def split: prod.splits)

lemma sys_kernel:
  "kstate (sys E c w) = snd (kernel E c (kstate w))"
  "res (sys E c w) = fst (kernel E c (kstate w))"
  by (simp_all add: sys_def split: prod.splits)

lemma rv_sys: "rv (sys E c w) = ret (fst (kernel E c (kstate w)))"
  by (simp add: rv_def sys_kernel)

lemma rdbuf_sys: "rdbuf n (sys E c w) = map (buf (fst (kernel E c (kstate w)))) [0..<n]"
  by (simp add: rdbuf_def sys_kernel)

lemma length_rdbuf [simp]: "length (rdbuf n w) = n"
  by (simp add: rdbuf_def)

lemma print_frame [simp, io_simps]:
  "kstate (printf s w) = kstate w" "res (printf s w) = res w" "errno (printf s w) = errno w"
  "stdout (printf s w) = stdout w @ s" "stderr (printf s w) = stderr w"
  "trace (printf s w) = trace w" "maps (printf s w) = maps w"
  "kstate (eprintf s w) = kstate w" "res (eprintf s w) = res w" "errno (eprintf s w) = errno w"
  "stdout (eprintf s w) = stdout w" "stderr (eprintf s w) = stderr w @ s"
  "trace (eprintf s w) = trace w" "maps (eprintf s w) = maps w"
  by (simp_all add: printf_def eprintf_def)

lemma rv_print [simp]: "rv (printf s w) = rv w" "rv (eprintf s w) = rv w"
  "rdbuf n (printf s w) = rdbuf n w" "rdbuf n (eprintf s w) = rdbuf n w"
  by (simp_all add: rv_def rdbuf_def)

lemma argp_Some [simp]: "i < length argv \<Longrightarrow> argp argv i = Some (argv ! i)"
  by (simp add: argp_def)

lemma argp_None [simp]: "length argv \<le> i \<Longrightarrow> argp argv i = None"
  by (simp add: argp_def)

lemma argp_eq_Some: "argp argv i = Some a \<longleftrightarrow> i < length argv \<and> a = argv ! i"
  by (auto simp: argp_def)

lemma init_world_fields [simp]:
  "kstate (init_world k) = k" "stdout (init_world k) = ''''" "stderr (init_world k) = ''''"
  "trace (init_world k) = []" "errno (init_world k) = 0"
  by (simp_all add: init_world_def)

section \<open>Descriptors\<close>

fun open_fds :: "(extcall \<times> sysret) list \<Rightarrow> int list" where
  "open_fds [] = []"
| "open_fds ((c, r) # t) =
     (case c of
        Open p f \<Rightarrow> if 0 \<le> ret r then ret r # open_fds t else open_fds t
      | Close fd \<Rightarrow> remove1 fd (open_fds t)
      | Opendir p \<Rightarrow> if 0 \<le> ret r then ret r # open_fds t else open_fds t
      | Closedir d \<Rightarrow> remove1 d (open_fds t)
      | _ \<Rightarrow> open_fds t)"

fun fd_used :: "extcall \<Rightarrow> int option" where
  "fd_used (Lseek fd off) = Some fd"
| "fd_used (Read fd n) = Some fd"
| "fd_used (Write fd bs) = Some fd"
| "fd_used (Close fd) = Some fd"
| "fd_used (Closedir d) = Some d"
| "fd_used (Ioctl fd req a) = Some fd"
| "fd_used (Mmap len prot fd off) = Some fd"
| "fd_used _ = None"

fun disciplined :: "(extcall \<times> sysret) list \<Rightarrow> bool" where
  "disciplined [] = True"
| "disciplined ((c, r) # t) =
     (disciplined t \<and> (case fd_used c of None \<Rightarrow> True | Some fd \<Rightarrow> fd \<in> set (open_fds t)))"

text \<open>No descriptor was leaked or closed by mistake, and none was used that was not open.\<close>

definition fds_kept :: "'k world \<Rightarrow> 'k world \<Rightarrow> bool" where
  "fds_kept w w' \<longleftrightarrow> open_fds (trace w') = open_fds (trace w) \<and> (disciplined (trace w) \<longrightarrow> disciplined (trace w'))"

lemma fds_kept_refl [simp]: "fds_kept w w"
  by (simp add: fds_kept_def)

lemma fds_kept_trans: "fds_kept w w' \<Longrightarrow> fds_kept w' w'' \<Longrightarrow> fds_kept w w''"
  by (simp add: fds_kept_def)

lemma fds_kept_print [simp]:
  "fds_kept w (printf s w') = fds_kept w w'" "fds_kept w (eprintf s w') = fds_kept w w'"
  "fds_kept (printf s w) w' = fds_kept w w'" "fds_kept (eprintf s w) w' = fds_kept w w'"
  by (simp_all add: fds_kept_def)

text \<open>A call that neither takes a descriptor nor opens or closes one.\<close>

fun fd_neutral :: "extcall \<Rightarrow> bool" where
  "fd_neutral (Open p f) = False"
| "fd_neutral (Opendir p) = False"
| "fd_neutral c = (fd_used c = None)"

lemma fds_kept_sys [simp]: "fd_neutral c \<Longrightarrow> fds_kept w (sys E c w') = fds_kept w w'"
  by (cases c) (auto simp: fds_kept_def)

text \<open>
  The contract of an operation towards the descriptor table: every outcome leaves the set of open
  descriptors as it found it (no leak, no stray close), and it never uses a descriptor that is not
  open.  The locale is interpreted for the operations of the components that keep it; its lemmas
  say what follows for the operation run on its own.
\<close>

locale fd_clean =
  fixes h :: "'k env \<Rightarrow> 'a \<Rightarrow> 'k world \<Rightarrow> ('k, int) result"
  assumes keeps_fds: "h E x w = Some (rc, w') \<Longrightarrow> open_fds (trace w') = open_fds (trace w)"
    and keeps_discipline:
      "h E x w = Some (rc, w') \<Longrightarrow> disciplined (trace w) \<Longrightarrow> disciplined (trace w')"
begin

lemma kept: "h E x w = Some (rc, w') \<Longrightarrow> fds_kept w w'"
  using keeps_fds keeps_discipline by (auto simp: fds_kept_def)

lemma no_leak: "h E x w = Some (rc, w') \<Longrightarrow> trace w = [] \<Longrightarrow>
    open_fds (trace w') = [] \<and> disciplined (trace w')"
  using keeps_fds keeps_discipline by fastforce

lemma twice_no_leak:
  "h E x w = Some (rc, w') \<Longrightarrow> h E y w' = Some (rc', w'') \<Longrightarrow> trace w = [] \<Longrightarrow>
    open_fds (trace w'') = [] \<and> disciplined (trace w'')"
  by (metis keeps_discipline keeps_fds no_leak)

end

end
