(* ===== verification/Commands.thy ===== *)
theory Commands
  imports Syscalls
begin

text \<open>
  The command layer: \<^verbatim>\<open>src/commands.h\<close>, \<^verbatim>\<open>src/commands.c\<close> and
  \<^verbatim>\<open>src/iotools.c\<close>.  Commands are registered in groups on a list, looked up by name, checked
  against their argument bounds and privilege needs, and run through their entry point; symbolic
  links with the commands' names can be made and removed.  An entry point is a function pointer in C:
  here it is a value of \<open>entry_fn\<close>, and the function that calls through it is the parameter
  \<open>invoke\<close> of \<open>run_cmd_info\<close>, \<open>run_command\<close> and \<open>main_exit\<close>, supplied with the
  entry points of all components in the root theory.
\<close>

section \<open>Data\<close>

datatype entry_fn =
    E_logic_op | E_not | E_shift
  | E_cmos_rd | E_cmos_wr
  | E_io_read_x | E_io_write_x
  | E_mmio_read_x | E_mmio_write_x | E_mmio_dump
  | E_pci_read_x | E_pci_write_x | E_pci_list
  | E_rd_msr | E_wr_msr
  | E_rdtsc | E_cpuid | E_busy_loop | E_cpu_list | E_runon
  | E_smbus_read | E_smbus_write | E_smbus_process_call | E_smbus_writeread
  | E_rd_scom | E_wr_scom | E_cpu_to_chipid | E_cpu_to_ex

text \<open>The objects the untyped \<^verbatim>\<open>privdata\<close> pointer of a command points to.\<close>

datatype LOGIC_OP = OR_OP | AND_OP | XOR_OP | SHL_OP | SHR_OP | BTS_OP | BTR_OP

datatype SMBUS_SIZE =
    SMBUS_SIZE_8 | SMBUS_SIZE_16 | SMBUS_SIZE_32 | SMBUS_SIZE_64 | SMBUS_SIZE_BLOCK
  | SMBUS_SIZE_BYTE | SMBUS_QUICK | SMBUS_PROC_CALL | SMBUS_BLOCK_PROC_CALL | SMBUS_WRITE_READ

datatype perform_fn =
    P_smbus_read_op | P_smbus_write_op | P_smbus_process_call_op
  | P_smbus_block_process_call_op | P_smbus_writeread_op

record smbus_op =
  op_size :: SMBUS_SIZE
  perform_op :: perform_fn

datatype privdata = NULL | Logic_info LOGIC_OP | Mmap_file_flags u32 | Smbus_op smbus_op

datatype IO_SIZE = SIZE8 | SIZE16 | SIZE32 | SIZE64

fun size_bytes :: "IO_SIZE \<Rightarrow> nat" where
  "size_bytes SIZE8 = 1"
| "size_bytes SIZE16 = 2"
| "size_bytes SIZE32 = 4"
| "size_bytes SIZE64 = 8"

lemma size_bytes_le: "size_bytes sz \<le> 8"
  by (cases sz) simp_all

lemma le_dec_enc_size: "le_dec (le_enc (size_bytes sz) x) = take_bit (8 * size_bytes sz) (x :: u64)"
  by (rule le_dec_enc_narrow)

fun size_suffix :: "IO_SIZE \<Rightarrow> string" where
  "size_suffix SIZE8 = ''8''"
| "size_suffix SIZE16 = ''16''"
| "size_suffix SIZE32 = ''32''"
| "size_suffix SIZE64 = ''64''"

record prereq_params =
  min_args :: int
  max_args :: int
  usage :: string
  iopl_needed :: int

record cmd_info =
  name :: string
  entry :: entry_fn
  privdata :: privdata
  params :: "prereq_params option"
  sizedata :: "IO_SIZE option"

record cmd_group =
  group_name :: string
  description :: "string option"
  commands :: "cmd_info list"

type_synonym 'k invoke = "'k env \<Rightarrow> string list \<Rightarrow> cmd_info \<Rightarrow> 'k world \<Rightarrow> ('k, int) result"

definition FIXED_ARGS :: "int \<Rightarrow> string \<Rightarrow> int \<Rightarrow> prereq_params" where
  "FIXED_ARGS n u iopl = \<lparr>min_args = n, max_args = n, usage = u, iopl_needed = iopl\<rparr>"

definition VAR_ARGS :: "int \<Rightarrow> int \<Rightarrow> string \<Rightarrow> int \<Rightarrow> prereq_params" where
  "VAR_ARGS lo hi u iopl = \<lparr>min_args = lo, max_args = hi, usage = u, iopl_needed = iopl\<rparr>"

definition MAKE_CMD :: "string \<Rightarrow> entry_fn \<Rightarrow> privdata \<Rightarrow> cmd_info" where
  "MAKE_CMD n e p = \<lparr>name = n, entry = e, privdata = p, params = None, sizedata = None\<rparr>"

definition MAKE_CMD_WITH_PARAMS :: "string \<Rightarrow> entry_fn \<Rightarrow> privdata \<Rightarrow> prereq_params \<Rightarrow> cmd_info" where
  "MAKE_CMD_WITH_PARAMS n e p q =
     \<lparr>name = n, entry = e, privdata = p, params = Some q, sizedata = None\<rparr>"

definition MAKE_CMD_WITH_PARAMS_SIZE ::
    "string \<Rightarrow> entry_fn \<Rightarrow> privdata \<Rightarrow> prereq_params \<Rightarrow> IO_SIZE \<Rightarrow> cmd_info" where
  "MAKE_CMD_WITH_PARAMS_SIZE n e p q sz =
     \<lparr>name = n, entry = e, privdata = p, params = Some q, sizedata = Some sz\<rparr>"

lemmas make_cmd_defs = MAKE_CMD_def MAKE_CMD_WITH_PARAMS_def MAKE_CMD_WITH_PARAMS_SIZE_def
  FIXED_ARGS_def VAR_ARGS_def

text \<open>
  The size of a command: the enumerators of \<^verbatim>\<open>IO_SIZE\<close>, with \<open>None\<close> for the -1 that
  no \<^verbatim>\<open>case\<close> of the callers' switches matches.
\<close>

definition get_command_size :: "cmd_info \<Rightarrow> IO_SIZE option" where
  "get_command_size info = sizedata info"

section \<open>Registration and lookup\<close>

text \<open>\<^verbatim>\<open>group_head\<close> with the \<open>next\<close> pointers is a list; registration pushes on it.\<close>

definition register_command_group :: "cmd_group \<Rightarrow> cmd_group list \<Rightarrow> cmd_group list" where
  "register_command_group grp group_head = grp # group_head"

fun locate_in_group :: "string \<Rightarrow> cmd_info list \<Rightarrow> cmd_info option" where
  "locate_in_group cmd [] = None"
| "locate_in_group cmd (c # cs) = (if cmd = name c then Some c else locate_in_group cmd cs)"

fun locate_command :: "string \<Rightarrow> cmd_group list \<Rightarrow> cmd_info option" where
  "locate_command cmd [] = None"
| "locate_command cmd (grp # groups) =
     (case locate_in_group cmd (commands grp) of
        Some c \<Rightarrow> Some c
      | None \<Rightarrow> locate_command cmd groups)"

section \<open>Running a command\<close>

definition check_prereqs ::
    "'k env \<Rightarrow> string list \<Rightarrow> prereq_params option \<Rightarrow> 'k world \<Rightarrow> ('k, int) result" where
  "check_prereqs E argv prereqs w =
     (case prereqs of
        None \<Rightarrow> Some (0, w)
      | Some p \<Rightarrow>
          if int (length argv) < min_args p \<or> int (length argv) > max_args p then do {
            a0 \<leftarrow> argp argv 0;
            Some (- 1, eprintf (''usage: '' @ a0 @ '' '' @ usage p @ nl) w)
          }
          else if iopl_needed p \<noteq> 0 then
            (let w = sys E (Iopl (iopl_needed p)) w in
             if rv w < 0 then Some (- 1, eprintf (''can't set io privilege level'' @ nl) w)
             else Some (0, w))
          else Some (0, w))"

definition run_cmd_info ::
    "'k invoke \<Rightarrow> 'k env \<Rightarrow> string list \<Rightarrow> cmd_info \<Rightarrow> 'k world \<Rightarrow> ('k, int) result" where
  "run_cmd_info invoke E argv info w = do {
     (rc, w) \<leftarrow> check_prereqs E argv (params info) w;
     if rc < 0 then Some (- 1, w) else invoke E argv info w
   }"

section \<open>Symbolic links\<close>

definition locate_path_of_binary :: "'k env \<Rightarrow> 'k world \<Rightarrow> ('k, int \<times> string \<times> string) result" where
  "locate_path_of_binary E w =
     (let w = sys E (Readlink ''/proc/self/exe'' FILENAME_MAX) w in
      if rv w = - 1 then
        Some ((- 1, '''', ''''), eprintf (''Unable to locate currently running binary.'' @ nl) w)
      else if FILENAME_MAX \<le> nat (rv w) then None
      else
        (let bin_fullpath = take (nat (rv w)) (rdtxt w) in do {
           path_to_bin \<leftarrow> before_last (CHR ''/'') bin_fullpath;
           bin_name \<leftarrow> after_last (CHR ''/'') bin_fullpath;
           Some ((0, path_to_bin, bin_name), w)
         }))"

definition build_symlink_name :: "string \<Rightarrow> cmd_info \<Rightarrow> string" where
  "build_symlink_name path_to_bin cmd = snprintf FILENAME_MAX (path_to_bin @ ''/'' @ name cmd)"

fun make_links_group :: "'k env \<Rightarrow> string \<Rightarrow> string \<Rightarrow> cmd_info list \<Rightarrow> 'k world \<Rightarrow> 'k world" where
  "make_links_group E path bin [] w = w"
| "make_links_group E path bin (c # cs) w =
     (let link_name = build_symlink_name path c;
          w = printf (''Creating link: '' @ link_name @ '' -> '' @ bin @ nl) w;
          w = sys E (Symlink bin link_name) w;
          w = (if rv w \<noteq> 0
               then eprintf (''Unable to create link: '' @ link_name @ '' -> '' @ bin @ nl) w
               else w)
      in make_links_group E path bin cs w)"

fun make_links :: "'k env \<Rightarrow> string \<Rightarrow> string \<Rightarrow> cmd_group list \<Rightarrow> 'k world \<Rightarrow> 'k world" where
  "make_links E path bin [] w = w"
| "make_links E path bin (g # gs) w =
     make_links E path bin gs (make_links_group E path bin (commands g) w)"

definition make_command_links :: "'k env \<Rightarrow> cmd_group list \<Rightarrow> 'k world \<Rightarrow> ('k, int) result" where
  "make_command_links E groups w = do {
     ((rc, path_to_bin, bin_name), w) \<leftarrow> locate_path_of_binary E w;
     if rc < 0 then Some (- 1, w) else Some (0, make_links E path_to_bin bin_name groups w)
   }"

definition ENOENT :: int where
  "ENOENT = 2"

fun clean_links_group :: "'k env \<Rightarrow> string \<Rightarrow> cmd_info list \<Rightarrow> 'k world \<Rightarrow> 'k world" where
  "clean_links_group E path [] w = w"
| "clean_links_group E path (c # cs) w =
     (let link_name = build_symlink_name path c;
          w = sys E (Unlink link_name) w;
          w = (if rv w < 0 \<and> errno w \<noteq> ENOENT
               then eprintf (''Unable to remove link: '' @ link_name @ '': '' @ perr E w @ nl) w
               else w)
      in clean_links_group E path cs w)"

fun clean_links :: "'k env \<Rightarrow> string \<Rightarrow> cmd_group list \<Rightarrow> 'k world \<Rightarrow> 'k world" where
  "clean_links E path [] w = w"
| "clean_links E path (g # gs) w = clean_links E path gs (clean_links_group E path (commands g) w)"

definition clean_command_links :: "'k env \<Rightarrow> cmd_group list \<Rightarrow> 'k world \<Rightarrow> ('k, int) result" where
  "clean_command_links E groups w = do {
     ((rc, path_to_bin, bin_name), w) \<leftarrow> locate_path_of_binary E w;
     if rc < 0 then Some (- 1, w) else Some (0, clean_links E path_to_bin groups w)
   }"

fun list_group :: "cmd_info list \<Rightarrow> 'k world \<Rightarrow> 'k world" where
  "list_group [] w = w"
| "list_group (c # cs) w = list_group cs (printf (''  '' @ name c @ nl) w)"

fun list_groups :: "cmd_group list \<Rightarrow> 'k world \<Rightarrow> 'k world" where
  "list_groups [] w = w"
| "list_groups (g # gs) w =
     list_groups gs (list_group (commands g)
       (printf (group_name g @ (case description g of None \<Rightarrow> '''' | Some d \<Rightarrow> '': '' @ d) @ nl) w))"

definition list_commands :: "cmd_group list \<Rightarrow> 'k world \<Rightarrow> ('k, int) result" where
  "list_commands groups w = Some (0, list_groups groups w)"

section \<open>The program\<close>

definition usage_text :: "string \<Rightarrow> string" where
  "usage_text bin_name = ''usage: '' @ bin_name @ '' COMMAND'' @ nl @ ''  COMMANDS:'' @ nl @
     ''    --make-links'' @ nl @ ''    --clean-links'' @ nl @ ''    --list-cmds'' @ nl @
     ''    -v --version'' @ nl"

definition VER_MAJOR :: nat where "VER_MAJOR = 1"
definition VER_MINOR :: nat where "VER_MINOR = 6"

definition version_text :: "string \<Rightarrow> string" where
  "version_text progname = progname @ '' version '' @ dec_nat VER_MAJOR @ ''.'' @ dec_nat VER_MINOR @ nl"

definition iotools_fallback ::
    "'k env \<Rightarrow> cmd_group list \<Rightarrow> string list \<Rightarrow> 'k world \<Rightarrow> ('k, int) result" where
  "iotools_fallback E groups argv w = do {
     a0 \<leftarrow> argp argv 0;
     if length argv \<noteq> 2 then Some (- 1, eprintf (usage_text a0) w)
     else do {
       a1 \<leftarrow> argp argv 1;
       if a1 = ''--help'' then Some (0, printf (usage_text a0) w)
       else if a1 = ''--make-links'' then make_command_links E groups w
       else if a1 = ''--clean-links'' then clean_command_links E groups w
       else if a1 = ''--list-cmds'' then list_commands groups w
       else if a1 = ''-v'' \<or> a1 = ''--version'' then
         Some (0, printf (version_text a0) w)
       else Some (- 1, eprintf (usage_text a0)
              (eprintf ([CHR 0x27] @ a1 @ [CHR 0x27] @ '' sub-command not supported by iotools'' @ nl) w))
     }
   }"

definition run_command ::
    "'k invoke \<Rightarrow> 'k env \<Rightarrow> cmd_group list \<Rightarrow> string list \<Rightarrow> 'k world \<Rightarrow> ('k, int) result" where
  "run_command invoke E groups argv w =
     (case (if 1 < length argv then locate_command (argv ! 1) groups else None) of
        Some info \<Rightarrow> run_cmd_info invoke E (tl argv) info w
      | None \<Rightarrow> do {
          a0 \<leftarrow> argp argv 0;
          let cmd_name = (case after_last (CHR ''/'') a0 of None \<Rightarrow> a0 | Some s \<Rightarrow> s);
          (case locate_command cmd_name groups of
             Some info \<Rightarrow> run_cmd_info invoke E argv info w
           | None \<Rightarrow> iotools_fallback E groups argv w)
        })"

text \<open>The exit status of the process.\<close>

definition main_exit ::
    "'k invoke \<Rightarrow> 'k env \<Rightarrow> cmd_group list \<Rightarrow> string list \<Rightarrow> 'k world \<Rightarrow> ('k, int) result" where
  "main_exit invoke E groups argv w = do {
     (rc, w) \<leftarrow> run_command invoke E groups argv w;
     Some (if rc < 0 then 1 else 0, w)
   }"

section \<open>Lookup\<close>

definition all_cmds :: "cmd_group list \<Rightarrow> cmd_info list" where
  "all_cmds groups = concat (map commands groups)"

lemma all_cmds_simps [simp]:
  "all_cmds [] = []" "all_cmds (g # gs) = commands g @ all_cmds gs"
  by (simp_all add: all_cmds_def)

lemma locate_in_group_map_of: "locate_in_group cmd cs = map_of (map (\<lambda>c. (name c, c)) cs) cmd"
  by (induction cs) auto

text \<open>The nested search is a search in one table: the first command with the name, in list order.\<close>

lemma locate_command_map_of: "locate_command cmd groups = map_of (map (\<lambda>c. (name c, c)) (all_cmds groups)) cmd"
  by (induction groups) (auto simp: locate_in_group_map_of map_add_def split: option.splits)

lemma locate_command_Some:
  assumes "locate_command cmd groups = Some info"
  shows "info \<in> set (all_cmds groups) \<and> name info = cmd"
  using assms by (auto simp: locate_command_map_of dest!: map_of_SomeD)

lemma locate_command_distinct:
  assumes "distinct (map name (all_cmds groups))" and "info \<in> set (all_cmds groups)"
  shows "locate_command (name info) groups = Some info"
proof -
  have "distinct (map fst (map (\<lambda>c. (name c, c)) (all_cmds groups)))"
    using assms(1) by (simp add: comp_def)
  moreover have "(name info, info) \<in> set (map (\<lambda>c. (name c, c)) (all_cmds groups))"
    using assms(2) by auto
  ultimately show ?thesis unfolding locate_command_map_of by (rule map_of_is_SomeI)
qed

lemma locate_command_None: "locate_command cmd groups = None \<longleftrightarrow> cmd \<notin> name ` set (all_cmds groups)"
  by (auto simp: locate_command_map_of map_of_eq_None_iff image_image)

section \<open>Links\<close>

definition link_names :: "string \<Rightarrow> cmd_group list \<Rightarrow> string list" where
  "link_names path groups = map (build_symlink_name path) (all_cmds groups)"

lemma make_links_group_trace:
  "map fst (trace (make_links_group E path bin cs w)) =
     rev (map (\<lambda>c. Symlink bin (build_symlink_name path c)) cs) @ map fst (trace w)"
  by (induction cs arbitrary: w) (simp_all add: Let_def)

lemma make_links_trace:
  "map fst (trace (make_links E path bin groups w)) =
     rev (map (Symlink bin) (link_names path groups)) @ map fst (trace w)"
  by (induction groups arbitrary: w) (simp_all add: make_links_group_trace link_names_def comp_def)

lemma clean_links_group_trace:
  "map fst (trace (clean_links_group E path cs w)) =
     rev (map (\<lambda>c. Unlink (build_symlink_name path c)) cs) @ map fst (trace w)"
  by (induction cs arbitrary: w) (simp_all add: Let_def)

lemma clean_links_trace:
  "map fst (trace (clean_links E path groups w)) =
     rev (map Unlink (link_names path groups)) @ map fst (trace w)"
  by (induction groups arbitrary: w) (simp_all add: clean_links_group_trace link_names_def comp_def)

text \<open>The last component of a link's path is the name of its command.\<close>

lemma after_last_append:
  assumes "c \<notin> set s"
  shows "after_last c (p @ c # s) = Some s"
  using assms by (simp add: after_last_def takeWhile_append)

lemma after_last_link:
  assumes "length path + length (name info) + 2 \<le> FILENAME_MAX" and "CHR ''/'' \<notin> set (name info)"
  shows "after_last (CHR ''/'') (build_symlink_name path info) = Some (name info)"
  using assms after_last_append [of "CHR ''/''" "name info" path]
  by (simp add: build_symlink_name_def snprintf_def)

section \<open>Running\<close>

text \<open>The argument count is within the bounds of the command's prerequisites.\<close>

definition args_in_bounds :: "cmd_info \<Rightarrow> string list \<Rightarrow> bool" where
  "args_in_bounds info argv = (argv \<noteq> [] \<and> (case params info of None \<Rightarrow> True
     | Some p \<Rightarrow> min_args p \<le> int (length argv) \<and> int (length argv) \<le> max_args p))"

lemma check_prereqs_defined: "argv \<noteq> [] \<Longrightarrow> check_prereqs E argv p w \<noteq> None"
  by (auto simp: check_prereqs_def Let_def split: option.splits)

lemma check_prereqs_ok:
  assumes "check_prereqs E argv (params info) w = Some (rc, w')" and "\<not> rc < 0" and "argv \<noteq> []"
  shows "args_in_bounds info argv"
  using assms by (auto simp: check_prereqs_def args_in_bounds_def Let_def split: option.splits if_splits bind_splits)

text \<open>
  The command a command line selects, with the arguments it gets: the first argument is tried before
  the name the program was called by.
\<close>

definition selected :: "cmd_group list \<Rightarrow> string list \<Rightarrow> (cmd_info \<times> string list) option" where
  "selected groups argv =
     (case (if 1 < length argv then locate_command (argv ! 1) groups else None) of
        Some info \<Rightarrow> Some (info, tl argv)
      | None \<Rightarrow> map_option (\<lambda>info. (info, argv))
          (locate_command (case after_last (CHR ''/'') (hd argv) of None \<Rightarrow> hd argv | Some s \<Rightarrow> s) groups))"

lemma run_command_selected:
  assumes "argv \<noteq> []"
  shows "run_command invoke E groups argv w =
    (case selected groups argv of
       Some (info, args) \<Rightarrow> run_cmd_info invoke E args info w
     | None \<Rightarrow> iotools_fallback E groups argv w)"
  using assms by (auto simp: run_command_def selected_def hd_conv_nth split: option.splits)

lemma selected_table:
  assumes "selected groups argv = Some (info, args)"
  shows "info \<in> set (all_cmds groups)" and "argv \<noteq> [] \<Longrightarrow> args \<noteq> []"
  using assms
  by (cases argv; auto simp: selected_def dest!: locate_command_Some split: option.splits if_splits)+

text \<open>
  The interface between the command layer and the components: an entry point whose arguments are
  within the bounds of its table entry returns, on the runs that \<open>benign\<close> describes.  What
  follows for the program is proved once, for whatever entry points keep it.
\<close>

locale entry_points =
  fixes invoke :: "'k invoke"
    and groups :: "cmd_group list"
    and benign :: "'k env \<Rightarrow> string list \<Rightarrow> cmd_info \<Rightarrow> bool"
  assumes entry_returns: "info \<in> set (all_cmds groups) \<Longrightarrow> args_in_bounds info argv \<Longrightarrow>
      benign E argv info \<Longrightarrow> invoke E argv info w \<noteq> None"
begin

lemma run_cmd_info_returns:
  assumes "info \<in> set (all_cmds groups)" and "argv \<noteq> []" and "benign E argv info"
  shows "run_cmd_info invoke E argv info w \<noteq> None"
proof -
  obtain rc w' where c: "check_prereqs E argv (params info) w = Some (rc, w')"
    using check_prereqs_defined [OF assms(2)] by (metis not_None_eq surj_pair)
  show ?thesis
  proof (cases "rc < 0")
    case True
    with c show ?thesis by (simp add: run_cmd_info_def)
  next
    case False
    with c check_prereqs_ok [OF c False assms(2)] entry_returns [OF assms(1)] assms(3) show ?thesis
      by (simp add: run_cmd_info_def)
  qed
qed

lemma run_command_returns:
  assumes "argv \<noteq> []"
    and "\<And>info args. selected groups argv = Some (info, args) \<Longrightarrow> benign E args info"
    and "selected groups argv = None \<Longrightarrow> iotools_fallback E groups argv w \<noteq> None"
  shows "run_command invoke E groups argv w \<noteq> None"
proof (cases "selected groups argv")
  case None
  with assms show ?thesis by (simp add: run_command_selected)
next
  case (Some p)
  then obtain info args where p: "selected groups argv = Some (info, args)" by (cases p) auto
  with run_cmd_info_returns [OF selected_table [OF p], of E w] selected_table [OF p] assms
  show ?thesis by (simp add: run_command_selected)
qed

end

section \<open>The fallback\<close>

text \<open>What the kernel documents of \<^verbatim>\<open>/proc/self/exe\<close>: an absolute path, or an error.\<close>

definition exe_path_ok :: "'k env \<Rightarrow> bool" where
  "exe_path_ok E \<longleftrightarrow> (\<forall>k r k'. kernel E (Readlink ''/proc/self/exe'' FILENAME_MAX) k = (r, k') \<longrightarrow>
     ret r = - 1 \<or> 0 < ret r \<and> ret r < int FILENAME_MAX \<and> CHR ''/'' \<in> set (take (nat (ret r)) (str r)))"

lemma locate_path_of_binary_defined:
  assumes "exe_path_ok E"
  shows "locate_path_of_binary E w \<noteq> None"
proof -
  obtain r k' where k: "kernel E (Readlink ''/proc/self/exe'' FILENAME_MAX) (kstate w) = (r, k')"
    by (cases "kernel E (Readlink ''/proc/self/exe'' FILENAME_MAX) (kstate w)")
  have "ret r = - 1 \<or> 0 < ret r \<and> ret r < int FILENAME_MAX \<and> CHR ''/'' \<in> set (take (nat (ret r)) (str r))"
    using assms k unfolding exe_path_ok_def by blast
  then show ?thesis
    by (auto simp: locate_path_of_binary_def Let_def rv_sys rdtxt_def sys_kernel k before_last_def after_last_def)
qed

lemma iotools_fallback_defined:
  assumes "argv \<noteq> []" and "exe_path_ok E"
  shows "iotools_fallback E groups argv w \<noteq> None"
proof -
  obtain a0 rest where argv: "argv = a0 # rest" using assms(1) by (cases argv) auto
  have "make_command_links E groups w \<noteq> None" "clean_command_links E groups w \<noteq> None"
    using locate_path_of_binary_defined [OF assms(2), of w]
    by (auto simp: make_command_links_def clean_command_links_def)
  then show ?thesis
    by (auto simp: argv iotools_fallback_def list_commands_def)
qed

section \<open>Descriptors\<close>

lemma make_links_group_fds: "fds_kept w w0 \<Longrightarrow> fds_kept w (make_links_group E path bin cs w0)"
  by (induction cs arbitrary: w0) (simp_all add: Let_def)

lemma make_links_fds: "fds_kept w w0 \<Longrightarrow> fds_kept w (make_links E path bin gs w0)"
  by (induction gs arbitrary: w0) (simp_all add: make_links_group_fds)

lemma clean_links_group_fds: "fds_kept w w0 \<Longrightarrow> fds_kept w (clean_links_group E path cs w0)"
  by (induction cs arbitrary: w0) (simp_all add: Let_def)

lemma clean_links_fds: "fds_kept w w0 \<Longrightarrow> fds_kept w (clean_links E path gs w0)"
  by (induction gs arbitrary: w0) (simp_all add: clean_links_group_fds)

lemma list_group_fds: "fds_kept w w0 \<Longrightarrow> fds_kept w (list_group cs w0)"
  by (induction cs arbitrary: w0) simp_all

lemma list_groups_fds: "fds_kept w w0 \<Longrightarrow> fds_kept w (list_groups gs w0)"
  by (induction gs arbitrary: w0) (simp_all add: list_group_fds)

lemma locate_path_of_binary_fds: "locate_path_of_binary E w = Some (r, w') \<Longrightarrow> fds_kept w w'"
  by (auto simp: locate_path_of_binary_def Let_def split: if_splits bind_splits)

lemma iotools_fallback_fds: "iotools_fallback E groups argv w = Some (rc, w') \<Longrightarrow> fds_kept w w'"
  by (auto simp: iotools_fallback_def make_command_links_def clean_command_links_def list_commands_def
      list_groups_fds dest!: locate_path_of_binary_fds intro: make_links_fds clean_links_fds
      split: if_splits bind_splits)

lemma check_prereqs_fds: "check_prereqs E argv p w = Some (rc, w') \<Longrightarrow> fds_kept w w'"
  by (auto simp: check_prereqs_def Let_def split: if_splits bind_splits option.splits)

text \<open>
  The contract of the entry points towards the descriptor table: those that \<open>clean\<close> selects keep
  it.  The program then leaves no descriptor open.
\<close>

locale clean_entries =
  fixes invoke :: "'k invoke" and groups :: "cmd_group list" and clean :: "cmd_info \<Rightarrow> bool"
  assumes entry_keeps: "info \<in> set (all_cmds groups) \<Longrightarrow> clean info \<Longrightarrow>
      invoke E argv info w = Some (rc, w') \<Longrightarrow> fds_kept w w'"
begin

lemma run_cmd_info_fds:
  assumes "info \<in> set (all_cmds groups)" and "clean info" and "run_cmd_info invoke E argv info w = Some (rc, w')"
  shows "fds_kept w w'"
  using assms(3)
  by (auto simp: run_cmd_info_def split: if_splits bind_splits
      dest!: check_prereqs_fds entry_keeps [OF assms(1,2)] intro: fds_kept_trans)

lemma main_exit_fds:
  assumes "argv \<noteq> []" and "\<And>info args. selected groups argv = Some (info, args) \<Longrightarrow> clean info"
    and "main_exit invoke E groups argv w = Some (status, w')"
  shows "fds_kept w w'"
proof (cases "selected groups argv")
  case None
  with assms(1,3) show ?thesis
    by (auto simp: main_exit_def run_command_selected split: bind_splits dest: iotools_fallback_fds)
next
  case (Some p)
  then obtain info args where p: "selected groups argv = Some (info, args)" by (cases p) auto
  with assms show ?thesis
    by (auto simp: main_exit_def run_command_selected split: bind_splits
        dest: run_cmd_info_fds [OF selected_table(1) [OF p]])
qed

end

end
