(* ===== verification/Logic.thy ===== *)
theory Logic
  imports Commands
begin

text \<open>
  The boolean-algebra commands, \<^verbatim>\<open>src/logic.c\<close>: \<open>or\<close>, \<open>and\<close>, \<open>xor\<close>,
  \<open>shl\<close>, \<open>shr\<close>, \<open>not\<close>, \<open>btr\<close> and \<open>bts\<close> on \<^verbatim>\<open>unsigned long long\<close>
  values read from the command line and printed in hexadecimal.
\<close>

section \<open>Operations\<close>

text \<open>
  \<^verbatim>\<open>1 << val\<close> shifts a 32-bit \<^verbatim>\<open>int\<close>: undefined from 32 on; gcc gives the sign bit
  for 31, which the conversion to \<^verbatim>\<open>unsigned long long\<close> extends.
\<close>

definition int_bit :: "u64 \<Rightarrow> u64 option" where
  "int_bit val = (if val < 32 then Some (scast (push_bit (unat val) 1 :: u32)) else None)"

fun logic_loop :: "LOGIC_OP \<Rightarrow> string list \<Rightarrow> u64 \<Rightarrow> int \<Rightarrow> 'k world \<Rightarrow> ('k, int) result" where
  "logic_loop op [] result rc w = Some (rc, printf (''0x'' @ hex 0 (unat result) @ nl) w)"
| "logic_loop op (a # argv) result rc w =
     (let val = strtoull a 0 in
      case op of
        OR_OP \<Rightarrow>
          (let result = result OR val in logic_loop op argv result (of_bool (result = 0)) w)
      | AND_OP \<Rightarrow>
          (let result = result AND val in logic_loop op argv result (of_bool (result = 0)) w)
      | XOR_OP \<Rightarrow>
          (let result = result XOR val in logic_loop op argv result (of_bool (result = 0)) w)
      | BTS_OP \<Rightarrow> do {
          val \<leftarrow> int_bit val;
          let rc = of_bool (result AND val \<noteq> 0);
          logic_loop op argv (result OR val) rc w
        }
      | BTR_OP \<Rightarrow> do {
          val \<leftarrow> int_bit val;
          let rc = of_bool (result AND val \<noteq> 0);
          logic_loop op argv (result AND NOT val) rc w
        }
      | _ \<Rightarrow> Some (- 1, eprintf (''Invalid logic op'' @ nl) w))"

definition logic_op :: "string list \<Rightarrow> cmd_info \<Rightarrow> 'k world \<Rightarrow> ('k, int) result" where
  "logic_op argv info w = do {
     op \<leftarrow> (case privdata info of Logic_info op \<Rightarrow> Some op | _ \<Rightarrow> None);
     a1 \<leftarrow> argp argv 1;
     logic_loop op (drop 2 argv) (strtoull a1 0) 0 w
   }"

definition not_cmd :: "string list \<Rightarrow> 'k world \<Rightarrow> ('k, int) result" where
  "not_cmd argv w = do {
     a1 \<leftarrow> argp argv 1;
     let result = strtoull a1 0;
     let result = NOT result;
     Some (of_bool (result = 0), printf (''0x'' @ hex 0 (unat result) @ nl) w)
   }"

definition shift :: "string list \<Rightarrow> cmd_info \<Rightarrow> 'k world \<Rightarrow> ('k, int) result" where
  "shift argv info w = do {
     op \<leftarrow> (case privdata info of Logic_info op \<Rightarrow> Some op | _ \<Rightarrow> None);
     a1 \<leftarrow> argp argv 1;
     a2 \<leftarrow> argp argv 2;
     let val = strtoull a1 0;
     let n = strtoul a2 0;
     (case op of
        SHL_OP \<Rightarrow>
          if n < 64 then Some (0, printf (''0x'' @ hex 0 (unat (push_bit (unat n) val)) @ nl) w)
          else None
      | SHR_OP \<Rightarrow>
          if n < 64 then Some (0, printf (''0x'' @ hex 0 (unat (drop_bit (unat n) val)) @ nl) w)
          else None
      | _ \<Rightarrow> Some (- 1, eprintf (''Invalid shift operation'' @ nl) w))
   }"

section \<open>Command table\<close>

definition logic_op_params :: prereq_params where
  "logic_op_params = VAR_ARGS 2 INT_MAX ''<value> <value> ...'' 0"
definition not_params :: prereq_params where
  "not_params = FIXED_ARGS 2 ''<value>'' 0"
definition shift_params :: prereq_params where
  "shift_params = FIXED_ARGS 3 ''<value> <shift>'' 0"
definition bit_params :: prereq_params where
  "bit_params = FIXED_ARGS 3 ''<value> <bit>'' 0"

definition logic_cmds :: "cmd_info list" where
  "logic_cmds =
    [MAKE_CMD_WITH_PARAMS ''or'' E_logic_op (Logic_info OR_OP) logic_op_params,
     MAKE_CMD_WITH_PARAMS ''and'' E_logic_op (Logic_info AND_OP) logic_op_params,
     MAKE_CMD_WITH_PARAMS ''xor'' E_logic_op (Logic_info XOR_OP) logic_op_params,
     MAKE_CMD_WITH_PARAMS ''shl'' E_shift (Logic_info SHL_OP) shift_params,
     MAKE_CMD_WITH_PARAMS ''shr'' E_shift (Logic_info SHR_OP) shift_params,
     MAKE_CMD_WITH_PARAMS ''not'' E_not NULL not_params,
     MAKE_CMD_WITH_PARAMS ''btr'' E_logic_op (Logic_info BTR_OP) bit_params,
     MAKE_CMD_WITH_PARAMS ''bts'' E_logic_op (Logic_info BTS_OP) bit_params]"

definition LOGIC_group :: cmd_group where
  "LOGIC_group = \<lparr>group_name = ''LOGIC'',
     description = Some ''commands to perform boolean algebra operations'',
     commands = logic_cmds\<rparr>"

lemmas logic_params_defs = logic_op_params_def not_params_def shift_params_def bit_params_def

section \<open>Bitwise operations\<close>

text \<open>The word operation each bitwise command folds over its arguments.\<close>

fun word_op :: "LOGIC_OP \<Rightarrow> u64 \<Rightarrow> u64 \<Rightarrow> u64" where
  "word_op OR_OP x y = x OR y"
| "word_op AND_OP x y = x AND y"
| "word_op XOR_OP x y = x XOR y"
| "word_op _ x y = x"

abbreviation arg_vals :: "string list \<Rightarrow> u64 list" where
  "arg_vals as \<equiv> map (\<lambda>a. strtoull a 0) as"

lemma logic_loop_bitwise:
  assumes "op \<in> {OR_OP, AND_OP, XOR_OP}"
  shows "logic_loop op as x rc w =
    (let y = foldl (word_op op) x (arg_vals as) in
     Some (if as = [] then rc else of_bool (y = 0), printf (''0x'' @ hex 0 (unat y) @ nl) w))"
  using assms
proof (induction as arbitrary: x rc)
  case (Cons a as)
  then show ?case by (auto simp: Let_def)
qed simp

section \<open>Bit test and set\<close>

lemma int_bit_small:
  assumes "val < 31"
  shows "int_bit val = Some (push_bit (unat val) 1)"
proof -
  have n: "unat val < 31" using assms by (simp add: word_less_nat_alt)
  have "scast (push_bit (unat val) 1 :: u32) = (push_bit (unat val) 1 :: u64)"
  proof (rule bit_word_eqI)
    fix k
    assume "k < LENGTH(64)"
    then show "bit (scast (push_bit (unat val) 1 :: u32) :: u64) k \<longleftrightarrow>
        bit (push_bit (unat val) 1 :: u64) k"
      using n by (auto simp: bit_signed_iff bit_exp_iff min_def)
  qed
  moreover have "val < 32" using assms by (simp add: word_less_nat_alt)
  ultimately show ?thesis by (simp add: int_bit_def)
qed

lemma and_single_bit: "(x AND push_bit n 1 \<noteq> 0) = bit (x :: u64) n"
proof (cases "n < 64")
  case True
  have "x AND push_bit n 1 = (if bit x n then push_bit n 1 else 0)"
    by (rule bit_word_eqI) (auto simp: bit_and_iff bit_exp_iff)
  moreover have "(push_bit n 1 :: u64) \<noteq> 0"
    using True by simp
  ultimately show ?thesis by simp
next
  case False
  then have "(push_bit n 1 :: u64) = 0" by (simp add: push_bit_eq_mult)
  then have "x AND push_bit n 1 = 0" by (simp only: and_zero_eq)
  then show ?thesis using False by (auto dest: bit_imp_le_length)
qed

lemma or_single_bit: "x OR push_bit n 1 = set_bit n (x :: u64)"
  by (simp add: set_bit_eq_or)

lemma and_not_single_bit: "x AND NOT (push_bit n 1) = unset_bit n (x :: u64)"
  by (simp add: unset_bit_eq_and_not)

lemma int_bit_31: "int_bit 31 = Some 0xFFFFFFFF80000000"
  by (simp add: int_bit_def One_nat_def)

lemma int_bit_undefined: "32 \<le> val \<Longrightarrow> int_bit val = None"
  by (simp add: int_bit_def not_less)

text \<open>No command of the group makes a system call.\<close>

lemma logic_loop_trace: "logic_loop op as x rc w = Some (rc', w') \<Longrightarrow> trace w' = trace w"
proof (induction as arbitrary: x rc)
  case (Cons a as)
  then show ?case
    by (cases op) (auto simp: Let_def split: bind_splits)
qed auto

lemma logic_trace:
  "logic_op argv info w = Some (rc, w') \<Longrightarrow> trace w' = trace w"
  "not_cmd argv w = Some (rc, w') \<Longrightarrow> trace w' = trace w"
  "shift argv info w = Some (rc, w') \<Longrightarrow> trace w' = trace w"
  by (auto simp: logic_op_def not_cmd_def shift_def Let_def
      split: bind_splits if_splits LOGIC_OP.splits dest: logic_loop_trace)

lemma not_cmd_eq:
  "not_cmd [cmd, a] w = Some (of_bool (strtoull a 0 = - 1),
     printf (''0x'' @ hex 0 (unat (NOT (strtoull a 0))) @ nl) w)"
proof -
  have "(NOT x = 0) = (x = - 1)" for x :: u64
    by (metis bit.compl_zero bit.double_compl)
  then show ?thesis by (simp add: not_cmd_def)
qed

lemma logic_loop_fds: "logic_loop op as x rc w = Some (r, w') \<Longrightarrow> fds_kept w w'"
  by (induction as arbitrary: x rc w) (cases op; auto simp: Let_def split: if_splits bind_splits)+

lemma logic_fds:
  "logic_op argv info w = Some (rc, w') \<Longrightarrow> fds_kept w w'"
  "not_cmd argv w = Some (rc, w') \<Longrightarrow> fds_kept w w'"
  "shift argv info w = Some (rc, w') \<Longrightarrow> fds_kept w w'"
proof -
  show "logic_op argv info w = Some (rc, w') \<Longrightarrow> fds_kept w w'"
    by (auto simp: logic_op_def Let_def split: bind_splits if_splits privdata.splits dest!: logic_loop_fds)
  show "not_cmd argv w = Some (rc, w') \<Longrightarrow> fds_kept w w'"
    by (auto simp: not_cmd_def Let_def split: bind_splits if_splits)
  show "shift argv info w = Some (rc, w') \<Longrightarrow> fds_kept w w'"
    by (auto simp: Logic.shift_def Let_def split: bind_splits if_splits privdata.splits LOGIC_OP.splits)
qed

section \<open>Properties\<close>

text \<open>
  C24: \<open>or\<close>, \<open>and\<close> and \<open>xor\<close> fold the corresponding operation over all their arguments;
  the printed line, scanned as an argument, is the 64-bit result, and the return code tells whether
  it is zero (a single value is printed back with return code 0).
\<close>
theorem logic_op_folds:
  assumes "op \<in> {OR_OP, AND_OP, XOR_OP}" and "privdata info = Logic_info op"
  shows "\<exists>line. strtoull line 0 = foldl (word_op op) (strtoull a 0) (arg_vals as) \<and>
    logic_op (cmd # a # as) info w =
      Some (if as = [] then 0 else of_bool (strtoull line 0 = 0), printf line w)"
proof -
  let ?y = "foldl (word_op op) (strtoull a 0) (arg_vals as)"
  let ?line = "''0x'' @ hex 0 (unat ?y) @ nl"
  have "strtoull ?line 0 = ?y" by (rule strtoull_printed)
  moreover have "logic_op (cmd # a # as) info w =
      Some (if as = [] then 0 else of_bool (?y = 0), printf ?line w)"
    using assms by (simp add: logic_op_def logic_loop_bitwise Let_def)
  ultimately show ?thesis by metis
qed

theorem logic_op_folds_witness:
  "\<exists>line. strtoull line 0 = 0xFF \<and>
     logic_op [''or'', ''0xF0'', ''15'', ''017''] (logic_cmds ! 0) (init_world ()) =
       Some (0, printf line (init_world ()))"
proof -
  have "strtoull ''0xF0'' 0 = 0xF0" and "strtoull ''15'' 0 = 15" and "strtoull ''017'' 0 = 15"
    by (simp_all add: strto_eval)
  then show ?thesis
    using logic_op_folds [of OR_OP "logic_cmds ! 0" "''0xF0''" "[''15'', ''017'']" "''or''"
      "init_world ()"]
    by (auto simp: logic_cmds_def make_cmd_defs)
qed

text \<open>
  C25: for a bit number below 31, \<open>bts\<close> prints the value with exactly that bit set,
  \<open>btr\<close> with exactly that bit cleared, and both return the old value of the bit.
\<close>
theorem bit_commands:
  assumes "strtoull b 0 < 31"
    and "privdata info = Logic_info BTS_OP" and "privdata info' = Logic_info BTR_OP"
  shows "\<exists>line line'.
    logic_op [cmd, a, b] info w =
      Some (of_bool (bit (strtoull a 0) (unat (strtoull b 0))), printf line w) \<and>
    strtoull line 0 = set_bit (unat (strtoull b 0)) (strtoull a 0) \<and>
    logic_op [cmd, a, b] info' w =
      Some (of_bool (bit (strtoull a 0) (unat (strtoull b 0))), printf line' w) \<and>
    strtoull line' 0 = unset_bit (unat (strtoull b 0)) (strtoull a 0)"
proof -
  let ?x = "strtoull a 0" and ?n = "unat (strtoull b 0)"
  have v: "int_bit (strtoull b 0) = Some (push_bit ?n 1)"
    using assms(1) by (rule int_bit_small)
  have "logic_op [cmd, a, b] info w = Some (of_bool (?x AND push_bit ?n 1 \<noteq> 0),
      printf (''0x'' @ hex 0 (unat (?x OR push_bit ?n 1)) @ nl) w)"
    using assms(2) v by (simp add: logic_op_def)
  moreover have "logic_op [cmd, a, b] info' w = Some (of_bool (?x AND push_bit ?n 1 \<noteq> 0),
      printf (''0x'' @ hex 0 (unat (?x AND NOT (push_bit ?n 1))) @ nl) w)"
    using assms(3) v by (simp add: logic_op_def)
  ultimately show ?thesis
    unfolding and_single_bit or_single_bit and_not_single_bit using strtoull_printed by blast
qed

theorem bit_commands_witness:
  "\<exists>line. logic_op [''bts'', ''0x10'', ''4''] (logic_cmds ! 7) (init_world ()) =
     Some (1, printf line (init_world ())) \<and> strtoull line 0 = 0x10"
proof -
  have "strtoull ''0x10'' 0 = 0x10" and "strtoull ''4'' 0 = 4"
    by (simp_all add: strto_eval)
  then show ?thesis
    using bit_commands [of "''4''" "logic_cmds ! 7" "logic_cmds ! 6" "''bts''" "''0x10''"
      "init_world ()"]
    by (auto simp: logic_cmds_def make_cmd_defs bit_numeral_rec set_bit_eq_or One_nat_def)
qed

text \<open>
  C40: bit 31 is not a single bit for \<open>bts\<close>: the mask is computed in a 32-bit
  \<^verbatim>\<open>int\<close> and sign-extended, so all bits from 31 to 63 are set; from bit 32 on the command
  has undefined behaviour, although the values it works on have 64 bits.
\<close>
theorem bts_high_bits:
  assumes "privdata info = Logic_info BTS_OP"
  shows "(strtoull b 0 = 31 \<longrightarrow> (\<exists>line rc. logic_op [cmd, a, b] info w = Some (rc, printf line w) \<and>
            strtoull line 0 = strtoull a 0 OR 0xFFFFFFFF80000000)) \<and>
         (32 \<le> strtoull b 0 \<longrightarrow> logic_op [cmd, a, b] info w = None)"
proof (intro conjI impI)
  assume "strtoull b 0 = 31"
  then have "logic_op [cmd, a, b] info w = Some (of_bool (strtoull a 0 AND 0xFFFFFFFF80000000 \<noteq> 0),
      printf (''0x'' @ hex 0 (unat (strtoull a 0 OR 0xFFFFFFFF80000000)) @ nl) w)"
    using assms by (simp add: logic_op_def int_bit_31)
  then show "\<exists>line rc. logic_op [cmd, a, b] info w = Some (rc, printf line w) \<and>
      strtoull line 0 = strtoull a 0 OR 0xFFFFFFFF80000000"
    using strtoull_printed by blast
next
  assume "32 \<le> strtoull b 0"
  then show "logic_op [cmd, a, b] info w = None"
    using assms by (simp add: logic_op_def int_bit_undefined)
qed

theorem bts_high_bits_witness:
  "\<exists>line rc. logic_op [''bts'', ''0'', ''31''] (logic_cmds ! 7) (init_world ()) =
     Some (rc, printf line (init_world ())) \<and> strtoull line 0 = 0xFFFFFFFF80000000"
proof -
  have "strtoull ''0'' 0 = 0" and "strtoull ''31'' 0 = 31"
    by (simp_all add: strto_eval)
  then show ?thesis
    using bts_high_bits [of "logic_cmds ! 7" "''31''" "''bts''" "''0''" "init_world ()"]
    by (simp add: logic_cmds_def make_cmd_defs)
qed

text \<open>
  C26: \<open>shl\<close> prints the value times two to the shift modulo two to the 64, \<open>shr\<close> the
  quotient, for shifts below 64; a shift of 64 or more is undefined behaviour.
\<close>
theorem shift_value:
  assumes "privdata info = Logic_info op" and "op = SHL_OP \<or> op = SHR_OP"
  shows "if strtoul b 0 < 64
    then \<exists>line. shift [cmd, a, b] info w = Some (0, printf line w) \<and>
      unat (strtoull line 0) =
        (if op = SHL_OP then (unat (strtoull a 0) * 2 ^ unat (strtoul b 0)) mod 2 ^ 64
         else unat (strtoull a 0) div 2 ^ unat (strtoul b 0))
    else shift [cmd, a, b] info w = None"
proof -
  let ?x = "strtoull a 0" and ?n = "unat (strtoul b 0)"
  have l: "unat (push_bit ?n ?x) = (unat ?x * 2 ^ ?n) mod 2 ^ 64"
    by (subst unsigned_push_bit_eq) (simp add: push_bit_eq_mult take_bit_eq_mod)
  have r: "unat (drop_bit ?n ?x) = unat ?x div 2 ^ ?n"
    by (subst unsigned_drop_bit_eq) (simp add: drop_bit_eq_div take_bit_nat_eq_self [OF unat_u64_less])
  show ?thesis
  proof (cases "strtoul b 0 < 64")
    case True
    let ?y = "if op = SHL_OP then push_bit ?n ?x else drop_bit ?n ?x"
    let ?line = "''0x'' @ hex 0 (unat ?y) @ nl"
    have run: "shift [cmd, a, b] info w = Some (0, printf ?line w)"
      using assms True by (auto simp: shift_def)
    have "unat ?y = (if op = SHL_OP then (unat ?x * 2 ^ ?n) mod 2 ^ 64 else unat ?x div 2 ^ ?n)"
      using l r by simp
    then have "unat (strtoull ?line 0) =
        (if op = SHL_OP then (unat ?x * 2 ^ ?n) mod 2 ^ 64 else unat ?x div 2 ^ ?n)"
      by (subst strtoull_printed)
    with run show ?thesis
      unfolding if_P [OF True] by (intro exI [of _ ?line] conjI)
  next
    case False
    then show ?thesis using assms by (auto simp: shift_def)
  qed
qed

theorem shift_value_witness:
  "\<exists>line. shift [''shl'', ''3'', ''63''] (logic_cmds ! 3) (init_world ()) =
     Some (0, printf line (init_world ())) \<and> unat (strtoull line 0) = 2 ^ 63"
proof -
  have "strtoull ''3'' 0 = 3" and "strtoull ''63'' 0 = 63"
    by (simp_all add: strto_eval)
  then show ?thesis
    using shift_value [of "logic_cmds ! 3" SHL_OP "''63''" "''shl''" "''3''" "init_world ()"]
    by (simp add: logic_cmds_def make_cmd_defs)
qed

text \<open>
  \<open>not\<close> prints the complement of its argument and returns 1 exactly when that is zero, and
  \<open>not\<close> applied to the line it printed prints the original value again.
\<close>
theorem not_involution:
  "\<exists>line line' rc'. not_cmd [cmd, a] w = Some (of_bool (strtoull a 0 = - 1), printf line w) \<and>
     strtoull line 0 = NOT (strtoull a 0) \<and>
     not_cmd [cmd, line] v = Some (rc', printf line' v) \<and> strtoull line' 0 = strtoull a 0"
proof -
  let ?y = "NOT (strtoull a 0)"
  let ?line = "''0x'' @ hex 0 (unat ?y) @ nl"
  have y: "strtoull ?line 0 = ?y" by (rule strtoull_printed)
  have "not_cmd [cmd, ?line] v = Some (of_bool (?y = - 1),
      printf (''0x'' @ hex 0 (unat (NOT ?y)) @ nl) v)"
    by (simp only: not_cmd_eq y)
  moreover have "strtoull (''0x'' @ hex 0 (unat (NOT ?y)) @ nl) 0 = NOT ?y"
    by (rule strtoull_printed)
  ultimately show ?thesis
    using not_cmd_eq [of cmd a w] y by (metis bit.double_compl)
qed

end
