(* ===== verification/Device.thy ===== *)
theory Device
  imports Syscalls
begin

text \<open>
  What the register commands rely on of the kernel, and what they promise to a user.

  \<open>register_file\<close> states the documented behaviour of a device node whose registers are read and
  written at file offsets (\<^verbatim>\<open>/dev/nvram\<close>, \<^verbatim>\<open>/dev/cpu/N/msr\<close>, the PCI
  configuration files): opening gives a descriptor at offset 0 with the access mode of the flags,
  \<^verbatim>\<open>lseek\<close> moves it, a read of a descriptor opened for reading returns the register at the offset, a
  write to one opened for writing stores it, closing changes no register.  Nothing is promised of a
  read or write that the access mode forbids.  It is a
  hypothesis of the theorems about what a command reads back, never of the others.
  \<open>one_file_env\<close> is an environment that satisfies it.

  \<open>register_commands\<close> is the interface of a pair of write and read commands of a register; its
  lemmas are the read-back guarantees, proved once for all components.
\<close>

section \<open>Register files\<close>

record 'k regview =
  fd_pos :: "'k \<Rightarrow> int \<Rightarrow> (string \<times> int) option"
  fd_mode :: "'k \<Rightarrow> int \<Rightarrow> u32"
  register :: "'k \<Rightarrow> string \<Rightarrow> int \<Rightarrow> u8 list"

definition register_file :: "'k env \<Rightarrow> 'k regview \<Rightarrow> string \<Rightarrow> nat \<Rightarrow> bool" where
  "register_file E V path n \<longleftrightarrow>
    (\<forall>k fl r k'. kernel E (Open path fl) k = (r, k') \<longrightarrow>
       0 \<le> ret r \<and> fd_pos V k' (ret r) = Some (path, 0) \<and> fd_mode V k' (ret r) = fl AND O_ACCMODE \<and>
       register V k' = register V k) \<and>
    (\<forall>k fd p off r k'. kernel E (Lseek fd off) k = (r, k') \<longrightarrow> fd_pos V k fd = Some (path, p) \<longrightarrow>
       0 \<le> off \<longrightarrow>
       ret r = off \<and> fd_pos V k' fd = Some (path, off) \<and> fd_mode V k' fd = fd_mode V k fd \<and>
       register V k' = register V k) \<and>
    (\<forall>k fd p r k'. kernel E (Read fd n) k = (r, k') \<longrightarrow> fd_pos V k fd = Some (path, p) \<longrightarrow>
       readable (fd_mode V k fd) \<longrightarrow> ret r = int n \<and> map (buf r) [0..<n] = register V k path p \<and>
       register V k' = register V k) \<and>
    (\<forall>k fd p bs r k'. kernel E (Write fd bs) k = (r, k') \<longrightarrow> fd_pos V k fd = Some (path, p) \<longrightarrow>
       writable (fd_mode V k fd) \<longrightarrow> length bs = n \<longrightarrow> ret r = int n \<and> register V k' path p = bs) \<and>
    (\<forall>k fd r k'. kernel E (Close fd) k = (r, k') \<longrightarrow> register V k' = register V k)"

lemma register_fileD:
  assumes "register_file E V path n"
  shows "kernel E (Open path fl) k = (r, k') \<Longrightarrow> 0 \<le> ret r \<and> fd_pos V k' (ret r) = Some (path, 0) \<and>
      fd_mode V k' (ret r) = fl AND O_ACCMODE \<and> register V k' = register V k"
    and "kernel E (Lseek fd off) k = (r, k') \<Longrightarrow> fd_pos V k fd = Some (path, p) \<Longrightarrow> 0 \<le> off \<Longrightarrow>
      ret r = off \<and> fd_pos V k' fd = Some (path, off) \<and> fd_mode V k' fd = fd_mode V k fd \<and>
      register V k' = register V k"
    and "kernel E (Read fd n) k = (r, k') \<Longrightarrow> fd_pos V k fd = Some (path, p) \<Longrightarrow> readable (fd_mode V k fd) \<Longrightarrow>
      ret r = int n \<and> map (buf r) [0..<n] = register V k path p \<and> register V k' = register V k"
    and "kernel E (Write fd bs) k = (r, k') \<Longrightarrow> fd_pos V k fd = Some (path, p) \<Longrightarrow> writable (fd_mode V k fd) \<Longrightarrow>
      length bs = n \<Longrightarrow> ret r = int n \<and> register V k' path p = bs"
    and "kernel E (Close fd) k = (r, k') \<Longrightarrow> register V k' = register V k"
  using assms unfolding register_file_def by fastforce+

lemma register_file_Open:
  assumes "register_file E V path n"
  shows "\<not> rv (sys E (Open path fl) w) < 0"
    and "fd_pos V (kstate (sys E (Open path fl) w)) (rv (sys E (Open path fl) w)) = Some (path, 0)"
    and "fd_mode V (kstate (sys E (Open path fl) w)) (rv (sys E (Open path fl) w)) = fl AND O_ACCMODE"
    and "register V (kstate (sys E (Open path fl) w)) = register V (kstate w)"
  using register_fileD(1) [OF assms prod.collapse [symmetric], of fl "kstate w"]
  by (simp_all add: rv_def sys_kernel)

lemma register_file_Lseek:
  assumes "register_file E V path n" and "fd_pos V (kstate w) fd = Some (path, p)" and "0 \<le> off"
  shows "rv (sys E (Lseek fd off) w) = off"
    and "fd_pos V (kstate (sys E (Lseek fd off) w)) fd = Some (path, off)"
    and "fd_mode V (kstate (sys E (Lseek fd off) w)) fd = fd_mode V (kstate w) fd"
    and "register V (kstate (sys E (Lseek fd off) w)) = register V (kstate w)"
  using register_fileD(2) [OF assms(1) prod.collapse [symmetric] assms(2,3)]
  by (simp_all add: rv_def sys_kernel)

lemma register_file_Read:
  assumes "register_file E V path n" and "fd_pos V (kstate w) fd = Some (path, p)"
    and "readable (fd_mode V (kstate w) fd)"
  shows "rv (sys E (Read fd n) w) = int n"
    and "rdbuf n (sys E (Read fd n) w) = register V (kstate w) path p"
    and "register V (kstate (sys E (Read fd n) w)) = register V (kstate w)"
  using register_fileD(3) [OF assms(1) prod.collapse [symmetric] assms(2,3)]
  by (simp_all add: rv_def rdbuf_def sys_kernel)

lemma register_file_Write:
  assumes "register_file E V path n" and "fd_pos V (kstate w) fd = Some (path, p)"
    and "writable (fd_mode V (kstate w) fd)" and "length bs = n"
  shows "rv (sys E (Write fd bs) w) = int n"
    and "register V (kstate (sys E (Write fd bs) w)) path p = bs"
  using register_fileD(4) [OF assms(1) prod.collapse [symmetric] assms(2-4)]
  by (simp_all add: rv_def sys_kernel)

lemma register_file_Close:
  assumes "register_file E V path n"
  shows "register V (kstate (sys E (Close fd) w)) = register V (kstate w)"
  using register_fileD(5) [OF assms prod.collapse [symmetric]] by (simp add: sys_kernel)

lemma mode_access [simp]:
  "readable (O_RDONLY AND O_ACCMODE)" "writable (O_WRONLY AND O_ACCMODE)"
  "readable (O_RDWR AND O_ACCMODE)" "writable (O_RDWR AND O_ACCMODE)"
  by (simp_all add: readable_def writable_def flag_defs)

lemmas register_file_ops = register_file_Open register_file_Lseek register_file_Read
  register_file_Write register_file_Close

section \<open>An environment with one file\<close>

text \<open>
  The state is the bytes of the file by offset and the position of its descriptor; the number of the
  descriptor, 3 to 6, tells its access mode, which reads and writes check.
\<close>

type_synonym one_file = "(int \<Rightarrow> u8) \<times> int"

definition one_file_mode :: "int \<Rightarrow> u32" where
  "one_file_mode fd = word_of_int (fd - 3)"

fun one_file_kernel :: "extcall \<Rightarrow> one_file \<Rightarrow> sysret \<times> one_file" where
  "one_file_kernel (Open p f) (m, o') = (\<lparr>ret = 3 + uint (f AND O_ACCMODE), err = 0, buf = (\<lambda>_. 0), str = '''', ents = []\<rparr>, m, 0)"
| "one_file_kernel (Lseek fd off) (m, o') =
     (\<lparr>ret = off, err = 0, buf = (\<lambda>_. 0), str = '''', ents = []\<rparr>, m, off)"
| "one_file_kernel (Read fd n) (m, o') =
     (if readable (one_file_mode fd)
      then (\<lparr>ret = int n, err = 0, buf = (\<lambda>i. m (o' + int i)), str = '''', ents = []\<rparr>, m, o' + int n)
      else (\<lparr>ret = - 1, err = 9, buf = (\<lambda>_. 0), str = '''', ents = []\<rparr>, m, o'))"
| "one_file_kernel (Write fd bs) (m, o') =
     (if writable (one_file_mode fd)
      then (\<lparr>ret = int (length bs), err = 0, buf = (\<lambda>_. 0), str = '''', ents = []\<rparr>,
        (\<lambda>a. if o' \<le> a \<and> a < o' + int (length bs) then bs ! nat (a - o') else m a),
        o' + int (length bs))
      else (\<lparr>ret = - 1, err = 9, buf = (\<lambda>_. 0), str = '''', ents = []\<rparr>, m, o'))"
| "one_file_kernel _ s = (\<lparr>ret = 0, err = 0, buf = (\<lambda>_. 0), str = '''', ents = []\<rparr>, s)"

definition one_file_env :: "one_file env" where
  "one_file_env = \<lparr>kernel = one_file_kernel, strerror = (\<lambda>_. ''error''), getpagesize = 4096\<rparr>"

definition one_file_view :: "string \<Rightarrow> nat \<Rightarrow> one_file regview" where
  "one_file_view path n = \<lparr>fd_pos = (\<lambda>(m, p) fd. if 3 \<le> fd \<and> fd \<le> 6 then Some (path, p) else None),
     fd_mode = (\<lambda>_. one_file_mode),
     register = (\<lambda>(m, p) path' off. map (\<lambda>i. m (off + int i)) [0..<n])\<rparr>"

lemma access_mode_range: "uint (f AND O_ACCMODE) \<le> 3"
  using AND_upper2 [of 3 "uint f"] by (simp add: O_ACCMODE_def unsigned_and_eq)

lemma one_file_register_file: "register_file one_file_env (one_file_view path n) path n"
  unfolding register_file_def one_file_env_def one_file_view_def
  by (auto split: if_splits intro!: nth_equalityI simp: one_file_mode_def access_mode_range)

section \<open>Pairs of register commands\<close>

text \<open>
  A configuration \<open>c\<close> collects the environment and the arguments of the two commands;
  \<open>ok c\<close> says that the machine behaves as documented and the arguments denote a register.
  \<open>cell c k\<close> is the register in a machine state, \<open>stored c\<close> what the write command puts there,
  \<open>line\<close> what the read command prints for a register's contents.
\<close>

locale register_commands =
  fixes ok :: "'c \<Rightarrow> bool"
    and wr rd :: "'c \<Rightarrow> 'k world \<Rightarrow> ('k, int) result"
    and cell :: "'c \<Rightarrow> 'k \<Rightarrow> 'v"
    and stored :: "'c \<Rightarrow> 'v"
    and line :: "'v \<Rightarrow> string"
  assumes wr_stores: "ok c \<Longrightarrow> \<exists>w'. wr c w = Some (0, w') \<and> cell c (kstate w') = stored c \<and>
      stdout w' = stdout w \<and> stderr w' = stderr w"
    and rd_prints: "ok c \<Longrightarrow> \<exists>w'. rd c w = Some (0, w') \<and> cell c (kstate w') = cell c (kstate w) \<and>
      stdout w' = stdout w @ line (cell c (kstate w)) \<and> stderr w' = stderr w"
begin

text \<open>The read command, run in a new process after the write command, prints the stored value.\<close>

lemma read_back:
  assumes "ok c"
  shows "\<exists>w1 w2. wr c w = Some (0, w1) \<and> rd c (init_world (kstate w1)) = Some (0, w2) \<and>
    stdout w2 = line (stored c) \<and> stderr w2 = ''''"
proof -
  obtain w1 where w1: "wr c w = Some (0, w1)" "cell c (kstate w1) = stored c"
    using wr_stores [OF assms] by blast
  obtain w2 where "rd c (init_world (kstate w1)) = Some (0, w2)"
    "stdout w2 = line (cell c (kstate w1))" "stderr w2 = ''''"
    using rd_prints [OF assms, of "init_world (kstate w1)"] by auto
  with w1 show ?thesis by auto
qed

text \<open>Reading twice prints the same line twice.\<close>

lemma read_stable:
  assumes "ok c"
  shows "\<exists>w1 w2. rd c w = Some (0, w1) \<and> rd c (init_world (kstate w1)) = Some (0, w2) \<and>
    stdout w1 = stdout w @ stdout w2"
proof -
  obtain w1 where w1: "rd c w = Some (0, w1)" "cell c (kstate w1) = cell c (kstate w)"
    "stdout w1 = stdout w @ line (cell c (kstate w))"
    using rd_prints [OF assms] by blast
  obtain w2 where "rd c (init_world (kstate w1)) = Some (0, w2)"
    "stdout w2 = line (cell c (kstate w1))"
    using rd_prints [OF assms, of "init_world (kstate w1)"] by auto
  with w1 show ?thesis by auto
qed

end

section \<open>Scripts\<close>

text \<open>
  Shell scripts use the commands one after the other, each in a process of its own; what they share is
  the machine.  \<open>script wr rd k evs k'\<close>: from the machine state \<open>k\<close>, runs of the write command
  with data \<open>d\<close> and of the read command lead to \<open>k'\<close>, and \<open>evs\<close> lists the actions with the
  return code and the standard output of each.
\<close>

datatype 'd action = Wr 'd | Rd

type_synonym 'd events = "('d action \<times> int \<times> string) list"

inductive script ::
    "('d \<Rightarrow> 'k world \<Rightarrow> ('k, int) result) \<Rightarrow> ('k world \<Rightarrow> ('k, int) result) \<Rightarrow> 'k \<Rightarrow> 'd events \<Rightarrow> 'k \<Rightarrow> bool"
  for wr rd where
  script_stop: "script wr rd k [] k"
| script_write: "wr d (init_world k) = Some (rc, w) \<Longrightarrow> script wr rd (kstate w) evs k' \<Longrightarrow>
    script wr rd k ((Wr d, rc, stdout w) # evs) k'"
| script_read: "rd (init_world k) = Some (rc, w) \<Longrightarrow> script wr rd (kstate w) evs k' \<Longrightarrow>
    script wr rd k ((Rd, rc, stdout w) # evs) k'"

inductive_cases script_NilE [elim!]: "script wr rd k [] k'"
inductive_cases script_WrE [elim!]: "script wr rd k ((Wr d, r) # evs) k'"
inductive_cases script_RdE [elim!]: "script wr rd k ((Rd, r) # evs) k'"

text \<open>The abstract register: a variable that holds the value of the last write.\<close>

fun register_script :: "('d \<Rightarrow> 'v) \<Rightarrow> ('v \<Rightarrow> string) \<Rightarrow> 'v \<Rightarrow> 'd action list \<Rightarrow> 'd events" where
  "register_script val line v [] = []"
| "register_script val line v (Wr d # as) = (Wr d, 0, '''') # register_script val line (val d) as"
| "register_script val line v (Rd # as) = (Rd, 0, line v) # register_script val line v as"

lemma register_script_sim:
  assumes "R v u" and "\<And>d. R (val d) (val' d)" and "\<And>v u. R v u \<Longrightarrow> line v = line' u"
  shows "register_script val line v as = register_script val' line' u as"
  using assms(1)
proof (induction as arbitrary: v u)
  case (Cons a as)
  then show ?case using assms(2,3) by (cases a) simp_all
qed simp

locale addressed_register = register_commands ok wr rd cell stored line
  for ok :: "'c \<Rightarrow> bool"
    and wr rd :: "'c \<Rightarrow> 'k world \<Rightarrow> ('k, int) result"
    and cell :: "'c \<Rightarrow> 'k \<Rightarrow> 'v"
    and stored :: "'c \<Rightarrow> 'v"
    and line :: "'v \<Rightarrow> string" +
  fixes put :: "'d \<Rightarrow> 'c \<Rightarrow> 'c"
  assumes put_ok: "ok (put d c) = ok c"
    and put_cell: "cell (put d c) = cell c"
begin

lemma step_write:
  assumes "ok c"
  shows "\<exists>w. wr (put d c) (init_world k) = Some (0, w) \<and> cell c (kstate w) = stored (put d c) \<and> stdout w = ''''"
  using wr_stores [of "put d c" "init_world k"] assms by (auto simp: put_ok put_cell)

lemma step_read:
  assumes "ok c"
  shows "\<exists>w. rd c (init_world k) = Some (0, w) \<and> cell c (kstate w) = cell c k \<and> stdout w = line (cell c k)"
  using rd_prints [OF assms, of "init_world k"] by auto

lemma script_complete:
  assumes "ok c"
  shows "\<exists>k'. script (\<lambda>d. wr (put d c)) (rd c) k (register_script (\<lambda>d. stored (put d c)) line (cell c k) as) k'"
proof (induction as arbitrary: k)
  case Nil
  show ?case by (auto intro: script_stop)
next
  case (Cons a as)
  show ?case
  proof (cases a)
    case (Wr d)
    obtain w where w: "wr (put d c) (init_world k) = Some (0, w)" "cell c (kstate w) = stored (put d c)" "stdout w = ''''"
      using step_write [OF assms] by blast
    with Cons.IH [of "kstate w"] script_write [of "\<lambda>d. wr (put d c)" d k 0 w "rd c"] show ?thesis
      by (auto simp: Wr)
  next
    case Rd
    obtain w where w: "rd c (init_world k) = Some (0, w)" "cell c (kstate w) = cell c k" "stdout w = line (cell c k)"
      using step_read [OF assms] by blast
    with Cons.IH [of "kstate w"] script_read [of "rd c" k 0 w "\<lambda>d. wr (put d c)"] show ?thesis
      by (auto simp: Rd)
  qed
qed

lemma script_sound:
  assumes "script (\<lambda>d. wr (put d c)) (rd c) k evs k'" and "ok c"
  shows "evs = register_script (\<lambda>d. stored (put d c)) line (cell c k) (map fst evs)"
  using assms(1)
proof (induction rule: script.induct)
  case (script_stop k)
  show ?case by simp
next
  case (script_write d k rc w evs k')
  with step_write [OF assms(2), of d k] show ?case by auto
next
  case (script_read k rc w evs k')
  with step_read [OF assms(2), of k] show ?case by auto
qed

text \<open>The scripts over the commands are exactly the scripts over the abstract register.\<close>

lemma script_iff:
  assumes "ok c"
  shows "(\<exists>k'. script (\<lambda>d. wr (put d c)) (rd c) k evs k') \<longleftrightarrow>
    evs = register_script (\<lambda>d. stored (put d c)) line (cell c k) (map fst evs)"
  using script_complete [OF assms, of k "map fst evs"] script_sound [OF _ assms] by metis

end

end
