(* ===== verification/Cmos_rw.thy ===== *)
theory Cmos_rw
  imports Commands Device
begin

text \<open>
  The CMOS commands, \<^verbatim>\<open>src/cmos_rw.c\<close>: one byte of the battery-backed memory through
  \<^verbatim>\<open>/dev/nvram\<close>, whose first 14 bytes (the clock) the kernel driver leaves out.
\<close>

section \<open>Operations\<close>

definition DEVICE :: string where
  "DEVICE = ''/dev/nvram''"

definition NVRAM_OFFSET :: u64 where
  "NVRAM_OFFSET = 14"

definition cmos_rd :: "'k env \<Rightarrow> string list \<Rightarrow> 'k world \<Rightarrow> ('k, int) result" where
  "cmos_rd E argv w = do {
     a1 \<leftarrow> argp argv 1;
     let index = strtoul a1 0;
     if index < NVRAM_OFFSET then
       Some (- 1, eprintf (''can't read bytes below '' @ dec_nat (unat NVRAM_OFFSET) @ nl) w)
     else do {
       let index = index - NVRAM_OFFSET;
       let w = sys E (Open DEVICE O_RDONLY) w;
       let fd = rv w;
       if fd < 0 then
         Some (- 1, eprintf (''open(\"'' @ DEVICE @ ''\"): '' @ perr E w @ nl) w)
       else do {
         let w = sys E (Lseek fd (off_of_ulong index)) w;
         if rv w < 0 then
           Some (- 1, sys E (Close fd)
             (eprintf (''lseek('' @ dec_nat (unat index) @ ''): '' @ perr E w @ nl) w))
         else do {
           let w = sys E (Read fd 1) w;
           if rv w \<noteq> 1 then
             Some (- 1, sys E (Close fd) (eprintf (''read(): '' @ perr E w @ nl) w))
           else do {
             let data = (le_dec (rdbuf 1 w) :: u8);
             let w = sys E (Close fd) w;
             Some (0, printf (''0x'' @ hex 2 (unat data) @ nl) w)
           }
         }
       }
     }
   }"

definition cmos_wr :: "'k env \<Rightarrow> string list \<Rightarrow> 'k world \<Rightarrow> ('k, int) result" where
  "cmos_wr E argv w = do {
     a1 \<leftarrow> argp argv 1;
     let index = strtoul a1 0;
     if index < NVRAM_OFFSET then
       Some (- 1, eprintf (''can't read bytes below '' @ dec_nat (unat NVRAM_OFFSET) @ nl) w)
     else do {
       let index = index - NVRAM_OFFSET;
       a2 \<leftarrow> argp argv 2;
       let ldata = strtoul a2 0;
       let data = (ucast ldata :: u8);
       let w = sys E (Open DEVICE O_WRONLY) w;
       let fd = rv w;
       if fd < 0 then
         Some (- 1, eprintf (''open(\"'' @ DEVICE @ ''\"): '' @ perr E w @ nl) w)
       else do {
         let w = sys E (Lseek fd (off_of_ulong index)) w;
         if rv w < 0 then
           Some (- 1, sys E (Close fd)
             (eprintf (''lseek('' @ dec_nat (unat index) @ ''): '' @ perr E w @ nl) w))
         else do {
           let w = sys E (Write fd (le_enc 1 data)) w;
           if rv w \<noteq> 1 then
             Some (- 1, sys E (Close fd) (eprintf (''write(): '' @ perr E w @ nl) w))
           else Some (0, sys E (Close fd) w)
         }
       }
     }
   }"

section \<open>Command table\<close>

definition cmos_rd_params :: prereq_params where
  "cmos_rd_params = FIXED_ARGS 2 ''<index>'' 0"
definition cmos_wr_params :: prereq_params where
  "cmos_wr_params = FIXED_ARGS 3 ''<index> <data>'' 0"

definition cmos_cmds :: "cmd_info list" where
  "cmos_cmds =
    [MAKE_CMD_WITH_PARAMS ''cmos_read'' E_cmos_rd NULL cmos_rd_params,
     MAKE_CMD_WITH_PARAMS ''cmos_write'' E_cmos_wr NULL cmos_wr_params]"

definition CMOS_group :: cmd_group where
  "CMOS_group = \<lparr>group_name = ''CMOS'',
     description = Some ''commands to access the CMOS registers'', commands = cmos_cmds\<rparr>"

lemmas cmos_params_defs = cmos_rd_params_def cmos_wr_params_def

section \<open>Descriptors\<close>

interpretation cmos_rd_fds: fd_clean cmos_rd
  by unfold_locales
    (auto simp: cmos_rd_def Let_def rv_def split: bind_splits if_splits)

interpretation cmos_wr_fds: fd_clean cmos_wr
  by unfold_locales
    (auto simp: cmos_wr_def Let_def rv_def split: bind_splits if_splits)

section \<open>Register access\<close>

text \<open>A configuration: the environment, a view of its registers, the index and data arguments.\<close>

type_synonym 'k cmos_conf = "'k env \<times> 'k regview \<times> string \<times> string"

definition cmos_offset :: "string \<Rightarrow> int" where
  "cmos_offset index = int (unat (strtoul index 0)) - 14"

definition cmos_ok :: "'k cmos_conf \<Rightarrow> bool" where
  "cmos_ok c = (case c of (E, V, index, data) \<Rightarrow>
     register_file E V DEVICE 1 \<and> 14 \<le> unat (strtoul index 0) \<and> unat (strtoul index 0) < 2 ^ 63)"

lemma cmos_index:
  assumes "14 \<le> unat (x :: u64)" and "unat x < 2 ^ 63"
  shows "\<not> x < NVRAM_OFFSET" and "off_of_ulong (x - NVRAM_OFFSET) = int (unat x) - 14"
    and "0 \<le> off_of_ulong (x - NVRAM_OFFSET)"
proof -
  show nless: "\<not> x < NVRAM_OFFSET"
    using assms(1) by (simp add: NVRAM_OFFSET_def word_less_nat_alt)
  then have u: "unat (x - NVRAM_OFFSET) = unat x - 14"
    by (simp add: NVRAM_OFFSET_def unat_sub not_less)
  then show *: "off_of_ulong (x - NVRAM_OFFSET) = int (unat x) - 14"
    using assms by (simp add: off_of_ulong_small)
  show "0 \<le> off_of_ulong (x - NVRAM_OFFSET)"
    using assms(1) unfolding * by linarith
qed

lemma cmos_wr_run:
  assumes "register_file E V DEVICE 1" and "14 \<le> unat (strtoul i 0)" and "unat (strtoul i 0) < 2 ^ 63"
  shows "\<exists>w'. cmos_wr E [cmd, i, d] w = Some (0, w') \<and>
    register V (kstate w') DEVICE (cmos_offset i) = le_enc 1 (ucast (strtoul d 0) :: u8) \<and>
    stdout w' = stdout w \<and> stderr w' = stderr w"
  using assms(1) cmos_index [OF assms(2,3)]
  by (simp add: cmos_wr_def Let_def register_file_ops [OF assms(1)] cmos_offset_def)

lemma cmos_rd_run:
  assumes "register_file E V DEVICE 1" and "14 \<le> unat (strtoul i 0)" and "unat (strtoul i 0) < 2 ^ 63"
  shows "\<exists>w'. cmos_rd E [cmd, i] w = Some (0, w') \<and>
    register V (kstate w') DEVICE (cmos_offset i) = register V (kstate w) DEVICE (cmos_offset i) \<and>
    stdout w' = stdout w @ ''0x'' @
      hex 2 (unat (le_dec (register V (kstate w) DEVICE (cmos_offset i)) :: u8)) @ nl \<and>
    stderr w' = stderr w"
  using assms(1) cmos_index [OF assms(2,3)]
  by (simp add: cmos_rd_def Let_def register_file_ops [OF assms(1)] cmos_offset_def)

interpretation cmos: register_commands
  cmos_ok
  "\<lambda>(E, V, index, data). cmos_wr E [''cmos_write'', index, data]"
  "\<lambda>(E, V, index, data). cmos_rd E [''cmos_read'', index]"
  "\<lambda>(E, V, index, data) k. register V k DEVICE (cmos_offset index)"
  "\<lambda>(E, V, index, data). le_enc 1 (ucast (strtoul data 0) :: u8)"
  "\<lambda>v. ''0x'' @ hex 2 (unat (le_dec v :: u8)) @ nl"
  by unfold_locales (auto simp: cmos_ok_def intro!: cmos_wr_run cmos_rd_run [simplified])

section \<open>Properties\<close>

text \<open>
  C31: an index below 14 (the clock) is refused by both commands with return code -1 before any
  system call is made; nothing is printed on standard output.
\<close>
theorem cmos_guard:
  assumes "strtoul i 0 < 14"
  shows "cmos_rd E [cmd, i] w = Some (- 1, eprintf (''can't read bytes below 14'' @ nl) w) \<and>
    cmos_wr E [cmd, i, d] w = Some (- 1, eprintf (''can't read bytes below 14'' @ nl) w)"
  using assms by (simp add: cmos_rd_def cmos_wr_def NVRAM_OFFSET_def print_eval)

theorem cmos_guard_witness:
  "cmos_rd one_file_env [''cmos_read'', ''0xd''] (init_world (\<lambda>_. 0, 0)) =
     Some (- 1, eprintf (''can't read bytes below 14'' @ nl) (init_world (\<lambda>_. 0, 0)))"
proof -
  have "strtoul ''0xd'' 0 < 14" by (simp add: strto_eval)
  then show ?thesis by (rule cmos_guard [THEN conjunct1])
qed

text \<open>
  C32: on a kernel whose \<^verbatim>\<open>/dev/nvram\<close> behaves as a register file, the byte written by
  \<open>cmos_write\<close> (the data argument reduced to 8 bits) at any index from 14 on is the byte a later
  \<open>cmos_read\<close> of the same index prints.
\<close>
theorem cmos_read_back:
  assumes "register_file E V DEVICE 1"
    and "14 \<le> unat (strtoul i 0)" and "unat (strtoul i 0) < 2 ^ 63"
  shows "\<exists>w1 w2. cmos_wr E [''cmos_write'', i, d] w = Some (0, w1) \<and>
    cmos_rd E [''cmos_read'', i] (init_world (kstate w1)) = Some (0, w2) \<and>
    stdout w2 = ''0x'' @ hex 2 (unat (ucast (strtoul d 0) :: u8)) @ nl \<and> stderr w2 = ''''"
proof -
  have "cmos_ok (E, V, i, d)" using assms by (simp add: cmos_ok_def)
  from cmos.read_back [OF this, of w] show ?thesis
    by (simp add: u8_image.dec_enc)
qed

theorem cmos_read_back_witness:
  "\<exists>w1 w2. cmos_wr one_file_env [''cmos_write'', ''0x20'', ''0x1a5''] (init_world (\<lambda>_. 0, 0)) = Some (0, w1) \<and>
     cmos_rd one_file_env [''cmos_read'', ''0x20''] (init_world (kstate w1)) = Some (0, w2) \<and>
     stdout w2 = ''0xa5'' @ nl"
proof -
  have i: "unat (strtoul ''0x20'' 0) = 32" and d: "ucast (strtoul ''0x1a5'' 0) = (0xa5 :: u8)"
    by (simp_all add: strto_eval)
  have "hex 2 165 = ''a5''" by (simp add: print_eval)
  with d show ?thesis
    using cmos_read_back [OF one_file_register_file, of "''0x20''" "''0x1a5''" "init_world (\<lambda>_. 0, 0)"] i
    by auto
qed

end
