(* ===== verification/Msr.thy ===== *)
theory Msr
  imports Commands Device
begin

text \<open>
  The model-specific register commands, \<^verbatim>\<open>src/msr.c\<close> (x86 builds): eight bytes at the
  offset of the register in \<^verbatim>\<open>/dev/cpu/N/msr\<close>.
\<close>

section \<open>Operations\<close>

text \<open>\<open>msr_open_and_seek\<close> returns the status and the descriptor it stored through \<open>fd\<close>.\<close>

definition msr_dev :: "int \<Rightarrow> string" where
  "msr_dev cpu = snprintf 512 (''/dev/cpu/'' @ dec_int cpu @ ''/msr'')"

definition msr_open_and_seek ::
    "'k env \<Rightarrow> int \<Rightarrow> u64 \<Rightarrow> u32 \<Rightarrow> 'k world \<Rightarrow> (int \<times> int) \<times> 'k world" where
  "msr_open_and_seek E cpu msr mode w =
     (let dev = msr_dev cpu;
          w = sys E (Open dev mode) w;
          fd = rv w
      in if fd < 0 then
           ((- 1, fd), eprintf (''open(\"'' @ dev @ ''\"): '' @ perr E w @ nl) w)
         else
           (let w = sys E (Lseek fd (off_of_ulong msr)) w in
            if rv w = - 1 then
              ((- 1, fd), sys E (Close fd)
                 (eprintf (''lseek('' @ dec_nat (unat msr) @ ''): '' @ perr E w @ nl) w))
            else ((0, fd), w)))"

definition rd_msr :: "'k env \<Rightarrow> string list \<Rightarrow> 'k world \<Rightarrow> ('k, int) result" where
  "rd_msr E argv w = do {
     a1 \<leftarrow> argp argv 1;
     a2 \<leftarrow> argp argv 2;
     let cpu = int_of_long (strtol a1 0);
     let msr = strtoul a2 0;
     let ((rc, fd), w) = msr_open_and_seek E cpu msr O_RDONLY w;
     if rc < 0 then Some (- 1, w)
     else do {
       let w = sys E (Read fd 8) w;
       if rv w \<noteq> 8 then
         Some (- 1, sys E (Close fd) (eprintf (''read(): '' @ perr E w @ nl) w))
       else do {
         let data = (le_dec (rdbuf 8 w) :: u64);
         let w = sys E (Close fd) w;
         Some (0, printf (''0x'' @ hex 16 (unat data) @ nl) w)
       }
     }
   }"

definition wr_msr :: "'k env \<Rightarrow> string list \<Rightarrow> 'k world \<Rightarrow> ('k, int) result" where
  "wr_msr E argv w = do {
     a1 \<leftarrow> argp argv 1;
     a2 \<leftarrow> argp argv 2;
     a3 \<leftarrow> argp argv 3;
     let cpu = int_of_long (strtol a1 0);
     let msr = strtoul a2 0;
     let data = strtoull a3 0;
     let ((rc, fd), w) = msr_open_and_seek E cpu msr O_WRONLY w;
     if rc < 0 then Some (- 1, w)
     else do {
       let w = sys E (Write fd (le_enc 8 data)) w;
       let (ret, w) = (if rv w \<noteq> 8 then (- 1, eprintf (''write(): '' @ perr E w @ nl) w) else (0, w));
       Some (ret, sys E (Close fd) w)
     }
   }"

section \<open>Command table\<close>

definition msr_rd_params :: prereq_params where
  "msr_rd_params = FIXED_ARGS 3 ''<cpu> <msr>'' 0"
definition msr_wr_params :: prereq_params where
  "msr_wr_params = FIXED_ARGS 4 ''<cpu> <msr> <data>'' 0"

definition msr_cmds :: "cmd_info list" where
  "msr_cmds =
    [MAKE_CMD_WITH_PARAMS ''rdmsr'' E_rd_msr NULL msr_rd_params,
     MAKE_CMD_WITH_PARAMS ''wrmsr'' E_wr_msr NULL msr_wr_params]"

definition MSR_group :: cmd_group where
  "MSR_group = \<lparr>group_name = ''MSR'',
     description = Some ''commands to access CPU model specific registers'', commands = msr_cmds\<rparr>"

lemmas msr_params_defs = msr_rd_params_def msr_wr_params_def

section \<open>Descriptors\<close>

interpretation rd_msr_fds: fd_clean rd_msr
  by unfold_locales
    (auto simp: rd_msr_def msr_open_and_seek_def Let_def rv_def split: bind_splits if_splits)

interpretation wr_msr_fds: fd_clean wr_msr
  by unfold_locales
    (auto simp: wr_msr_def msr_open_and_seek_def Let_def rv_def split: bind_splits if_splits)

section \<open>Register access\<close>

abbreviation msr_path :: "string \<Rightarrow> string" where
  "msr_path cpu \<equiv> msr_dev (int_of_long (strtol cpu 0))"

type_synonym 'k msr_conf = "'k env \<times> 'k regview \<times> string \<times> string \<times> string"

definition msr_ok :: "'k msr_conf \<Rightarrow> bool" where
  "msr_ok c = (case c of (E, V, cpu, msr, data) \<Rightarrow>
     register_file E V (msr_path cpu) 8 \<and> unat (strtoul msr 0) < 2 ^ 63)"

lemma msr_open_and_seek_run:
  assumes "register_file E V (msr_dev cpu) 8" and "unat msr < 2 ^ 63"
  shows "\<exists>fd w'. msr_open_and_seek E cpu msr mode w = ((0, fd), w') \<and>
    fd_pos V (kstate w') fd = Some (msr_dev cpu, int (unat msr)) \<and> fd_mode V (kstate w') fd = mode AND O_ACCMODE \<and>
    register V (kstate w') = register V (kstate w) \<and> stdout w' = stdout w \<and> stderr w' = stderr w"
  using off_of_ulong_small [OF assms(2)]
  by (simp add: msr_open_and_seek_def Let_def register_file_ops [OF assms(1)])

lemma rd_msr_run:
  assumes "register_file E V (msr_path cpu) 8" and "unat (strtoul msr 0) < 2 ^ 63"
  shows "\<exists>w'. rd_msr E [cmd, cpu, msr] w = Some (0, w') \<and>
    register V (kstate w') = register V (kstate w) \<and>
    stdout w' = stdout w @ ''0x'' @
      hex 16 (unat (le_dec (register V (kstate w) (msr_path cpu) (int (unat (strtoul msr 0)))) :: u64)) @ nl \<and>
    stderr w' = stderr w"
proof -
  obtain fd w1 where "msr_open_and_seek E (int_of_long (strtol cpu 0)) (strtoul msr 0) O_RDONLY w =
      ((0, fd), w1)" "fd_pos V (kstate w1) fd = Some (msr_path cpu, int (unat (strtoul msr 0)))"
    "fd_mode V (kstate w1) fd = O_RDONLY AND O_ACCMODE"
    "register V (kstate w1) = register V (kstate w)" "stdout w1 = stdout w" "stderr w1 = stderr w"
    using msr_open_and_seek_run [OF assms] by blast
  then show ?thesis
    by (simp add: rd_msr_def Let_def register_file_ops [OF assms(1)])
qed

lemma wr_msr_run:
  assumes "register_file E V (msr_path cpu) 8" and "unat (strtoul msr 0) < 2 ^ 63"
  shows "\<exists>w'. wr_msr E [cmd, cpu, msr, data] w = Some (0, w') \<and>
    register V (kstate w') (msr_path cpu) (int (unat (strtoul msr 0))) = le_enc 8 (strtoull data 0) \<and>
    stdout w' = stdout w \<and> stderr w' = stderr w"
proof -
  obtain fd w1 where "msr_open_and_seek E (int_of_long (strtol cpu 0)) (strtoul msr 0) O_WRONLY w =
      ((0, fd), w1)" "fd_pos V (kstate w1) fd = Some (msr_path cpu, int (unat (strtoul msr 0)))"
    "fd_mode V (kstate w1) fd = O_WRONLY AND O_ACCMODE"
    "register V (kstate w1) = register V (kstate w)" "stdout w1 = stdout w" "stderr w1 = stderr w"
    using msr_open_and_seek_run [OF assms] by blast
  then show ?thesis
    by (simp add: wr_msr_def Let_def register_file_ops [OF assms(1)])
qed

interpretation msr: register_commands
  msr_ok
  "\<lambda>(E, V, cpu, msr, data). wr_msr E [''wrmsr'', cpu, msr, data]"
  "\<lambda>(E, V, cpu, msr, data). rd_msr E [''rdmsr'', cpu, msr]"
  "\<lambda>(E, V, cpu, msr, data) k. register V k (msr_path cpu) (int (unat (strtoul msr 0)))"
  "\<lambda>(E, V, cpu, msr, data). le_enc 8 (strtoull data 0)"
  "\<lambda>v. ''0x'' @ hex 16 (unat (le_dec v :: u64)) @ nl"
proof (unfold_locales, goal_cases)
  case (1 c w)
  then show ?case using wr_msr_run by (auto simp: msr_ok_def)
next
  case (2 c w)
  obtain E V cpu m d where c: "c = (E, V, cpu, m, d)" by (cases c)
  show ?case
    using 2 rd_msr_run [of E V cpu m "''rdmsr''" w] by (auto simp: msr_ok_def c)
qed

interpretation msr: addressed_register
  msr_ok
  "\<lambda>(E, V, cpu, msr, data). wr_msr E [''wrmsr'', cpu, msr, data]"
  "\<lambda>(E, V, cpu, msr, data). rd_msr E [''rdmsr'', cpu, msr]"
  "\<lambda>(E, V, cpu, msr, data) k. register V k (msr_path cpu) (int (unat (strtoul msr 0)))"
  "\<lambda>(E, V, cpu, msr, data). le_enc 8 (strtoull data 0)"
  "\<lambda>v. ''0x'' @ hex 16 (unat (le_dec v :: u64)) @ nl"
  "\<lambda>d (E, V, cpu, msr, data). (E, V, cpu, msr, d)"
  by unfold_locales (auto simp: msr_ok_def)

section \<open>Properties\<close>

text \<open>
  C16: scripts of \<open>wrmsr\<close> and \<open>rdmsr\<close> calls on one register refine the abstract register: on a
  kernel whose register device of the processor behaves as a register file, the sequences of actions,
  return codes and outputs that can happen are exactly those of a variable that holds the 64-bit value
  of the last write and is printed in 16 hexadecimal digits.
\<close>
theorem msr_scripts:
  assumes "register_file E V (msr_path cpu) 8" and "unat (strtoul msr 0) < 2 ^ 63"
  shows "(\<exists>k'. script (\<lambda>d. wr_msr E [''wrmsr'', cpu, msr, d]) (rd_msr E [''rdmsr'', cpu, msr]) k evs k') \<longleftrightarrow>
    evs = register_script (\<lambda>d. strtoull d 0) (\<lambda>v. ''0x'' @ hex 16 (unat v) @ nl)
      (le_dec (register V k (msr_path cpu) (int (unat (strtoul msr 0))))) (map fst evs)"
proof -
  have "msr_ok (E, V, cpu, msr, '''')" using assms by (simp add: msr_ok_def)
  note iff = msr.script_iff [OF this, of k evs, simplified prod.case]
  show ?thesis
    unfolding iff
    by (subst register_script_sim [where R = "\<lambda>bs u. u = le_dec bs"]) (auto simp: u64_image.dec_enc)
qed

theorem msr_scripts_witness:
  "\<exists>k'. script (\<lambda>d. wr_msr one_file_env [''wrmsr'', ''0'', ''0x10'', d]) (rd_msr one_file_env [''rdmsr'', ''0'', ''0x10''])
     (\<lambda>_. 0, 0) [(Wr ''1'', 0, ''''), (Wr ''0x2a'', 0, ''''), (Rd, 0, ''0x000000000000002a'' @ nl),
       (Rd, 0, ''0x000000000000002a'' @ nl)] k'"
proof -
  have "unat (strtoul ''0x10'' 0) < 2 ^ 63" "strtoull ''0x2a'' 0 = 0x2a" by (simp_all add: strto_eval)
  moreover have "hex 16 0x2a = ''000000000000002a''" by (simp add: print_eval)
  ultimately show ?thesis
    by (subst msr_scripts [OF one_file_register_file]) simp_all
qed

end
