(* ===== verification/Mmio_rw.thy ===== *)
theory Mmio_rw
  imports Commands Device
begin

text \<open>
  The memory-mapped register commands, \<^verbatim>\<open>src/mmio_rw.c\<close>: a window of \<^verbatim>\<open>/dev/mem\<close>
  is mapped, read or written through a pointer, and unmapped.  A dereference goes through the mappings
  of the process: it is a \<open>Load\<close> or \<open>Store\<close> of the physical address behind the pointer, and a
  fault (\<open>None\<close>) when nothing is mapped there (any more), when it reaches past the mapped pages or
  when their protection forbids it.  Misaligned dereferences, which the C standard leaves undefined,
  are taken as the processors of the modelled platform (x86-64) execute them.
\<close>

section \<open>Mappings\<close>

record mmap_info =
  mi_fd :: int
  mem :: int
  off :: int
  pgsize :: u64
  mi_length :: u64
  addr :: u64

definition mode_prot :: "u32 \<Rightarrow> u32" where
  "mode_prot flags =
     (if flags AND O_ACCMODE = O_RDWR then PROT_READ OR PROT_WRITE
      else if flags AND O_ACCMODE = O_RDONLY then PROT_READ
      else if flags AND O_ACCMODE = O_WRONLY then PROT_WRITE
      else 0)"

text \<open>
  \<open>bytes + off\<close> is computed in \<^verbatim>\<open>unsigned int\<close>, so the length wraps at 32 bits before it
  is stored in a \<^verbatim>\<open>size_t\<close>.  The pointer is kept as the number \<^verbatim>\<open>mmap\<close> returned:
  0 is NULL, -1 is \<^verbatim>\<open>MAP_FAILED\<close>.
\<close>

definition open_mapping ::
    "'k env \<Rightarrow> u64 \<Rightarrow> u32 \<Rightarrow> u32 \<Rightarrow> 'k world \<Rightarrow> (int \<times> mmap_info) \<times> 'k world" where
  "open_mapping E a flags bytes w =
     (let pg = of_nat (getpagesize E) :: u64;
          o' = int_of_ulong (a AND (pg - 1));
          a' = a AND NOT (pg - 1);
          w = sys E (Open ''/dev/mem'' flags) w;
          fd = rv w;
          mi = \<lparr>mi_fd = fd, mem = 0, off = o', pgsize = pg, mi_length = 0, addr = a'\<rparr>
      in if fd < 0 then
           ((- 1, mi), eprintf (''open(/dev/mem): '' @ perr E w @ nl) w)
         else
           (let prot = mode_prot flags;
                len = ucast (bytes + word_of_int o') :: u64;
                w = sys E (Mmap (unat len) prot fd a') w;
                mi = mi\<lparr>mem := rv w, mi_length := len\<rparr>
            in if rv w = 0 \<or> rv w = - 1 then
                 ((- 1, mi), sys E (Close fd) (eprintf (''mmap(/dev/mem): '' @ perr E w @ nl) w))
               else ((0, mi), w)))"

definition close_mapping :: "'k env \<Rightarrow> mmap_info \<Rightarrow> 'k world \<Rightarrow> 'k world" where
  "close_mapping E mi w =
     sys E (Close (mi_fd mi)) (sys E (Munmap (word_of_int (mem mi)) (unat (mi_length mi))) w)"

text \<open>The bytes of the mapping: whole pages, as many as the length needs.\<close>

definition mapped_bytes :: "mmap_info \<Rightarrow> nat" where
  "mapped_bytes mi =
     (unat (mi_length mi) + unat (pgsize mi) - 1) div unat (pgsize mi) * unat (pgsize mi)"

text \<open>
  Dereferences at \<open>mem + o'\<close>.  The kernel maps whole pages; the address the pointer stands for is the
  offset of the mapping plus \<open>o'\<close>.
\<close>

definition whole_pages :: "'k env \<Rightarrow> nat \<Rightarrow> nat" where
  "whole_pages E n = (n + getpagesize E - 1) div getpagesize E * getpagesize E"

definition load :: "'k env \<Rightarrow> mmap_info \<Rightarrow> nat \<Rightarrow> nat \<Rightarrow> 'k world \<Rightarrow> 'k world option" where
  "load E mi o' n w = do {
     v \<leftarrow> map_of (maps w) (word_of_int (mem mi));
     if o' + n \<le> whole_pages E (vm_len v) \<and> vm_prot v AND PROT_READ \<noteq> 0
     then Some (sys E (Load (vm_off v + of_nat o') n) w) else None
   }"

definition store :: "'k env \<Rightarrow> mmap_info \<Rightarrow> nat \<Rightarrow> u8 list \<Rightarrow> 'k world \<Rightarrow> 'k world option" where
  "store E mi o' bs w = do {
     v \<leftarrow> map_of (maps w) (word_of_int (mem mi));
     if o' + length bs \<le> whole_pages E (vm_len v) \<and> vm_prot v AND PROT_WRITE \<noteq> 0
     then Some (sys E (Store (vm_off v + of_nat o') bs) w) else None
   }"

section \<open>Reading and writing one register\<close>

text \<open>
  The macro \<^verbatim>\<open>DO_READ\<close> at a size: the object is loaded into the member of the union and
  printed with two digits for each of its bytes.
\<close>

definition mmio_DO_READ :: "'k env \<Rightarrow> mmap_info \<Rightarrow> IO_SIZE \<Rightarrow> 'k world \<Rightarrow> 'k world option" where
  "mmio_DO_READ E mi size' w = do {
     w \<leftarrow> load E mi (nat (off mi)) (size_bytes size') w;
     let data = (le_dec (rdbuf (size_bytes size') w) :: u64);
     Some (printf (''0x'' @ hex (size_bytes size' * 2) (unat data) @ nl) w)
   }"

definition flags_of :: "cmd_info \<Rightarrow> u32 option" where
  "flags_of info = (case privdata info of Mmap_file_flags fl \<Rightarrow> Some fl | _ \<Rightarrow> None)"

definition mmio_read_x :: "'k env \<Rightarrow> string list \<Rightarrow> cmd_info \<Rightarrow> 'k world \<Rightarrow> ('k, int) result" where
  "mmio_read_x E argv info w = do {
     mmf \<leftarrow> flags_of info;
     a1 \<leftarrow> argp argv 1;
     let ((rc, mi), w) = open_mapping E (strtoull a1 0) (O_RDONLY OR mmf) 8 w;
     if rc < 0 then Some (- 1, w)
     else (case get_command_size info of
         Some sz \<Rightarrow> do {
           w \<leftarrow> mmio_DO_READ E mi sz w;
           Some (0, close_mapping E mi w)
         }
       | None \<Rightarrow>
           Some (- 1, close_mapping E mi (eprintf (''invalid mmio_read parameter'' @ nl) w)))
   }"

text \<open>
  \<^verbatim>\<open>DO_WRITE\<close>: the cast to the union member keeps the low bytes of \<open>ldata\<close>, whose image is
  stored.
\<close>

definition mmio_DO_WRITE :: "'k env \<Rightarrow> mmap_info \<Rightarrow> IO_SIZE \<Rightarrow> u64 \<Rightarrow> 'k world \<Rightarrow> 'k world option" where
  "mmio_DO_WRITE E mi size' ldata w =
     store E mi (nat (off mi)) (le_enc (size_bytes size') ldata) w"

definition mmio_write_x :: "'k env \<Rightarrow> string list \<Rightarrow> cmd_info \<Rightarrow> 'k world \<Rightarrow> ('k, int) result" where
  "mmio_write_x E argv info w = do {
     a1 \<leftarrow> argp argv 1;
     a2 \<leftarrow> argp argv 2;
     let ldata = strtoul a2 0;
     let ((rc, mi), w) = open_mapping E (strtoull a1 0) O_RDWR 8 w;
     if rc < 0 then Some (- 1, w)
     else (case get_command_size info of
         Some sz \<Rightarrow> do {
           w \<leftarrow> mmio_DO_WRITE E mi sz ldata w;
           Some (0, close_mapping E mi w)
         }
       | None \<Rightarrow>
           Some (- 1, close_mapping E mi (eprintf (''invalid mmio_write parameter'' @ nl) w)))
   }"

section \<open>Dumping\<close>

text \<open>
  The loop of \<open>mmio_dump\<close>: \<open>pos\<close> is the working pointer relative to \<open>mem\<close>,
  \<open>left\<close> the bytes left, \<open>da\<close> the address printed at the start of a line, \<open>fields_on_line\<close> the
  fields already on the line.
\<close>

function dump_loop ::
    "'k env \<Rightarrow> mmap_info \<Rightarrow> nat \<Rightarrow> nat \<Rightarrow> u64 \<Rightarrow> nat \<Rightarrow> 'k world \<Rightarrow> 'k world option" where
  "dump_loop E mi pos left da fields_on_line w =
     (if left = 0 then Some (if fields_on_line \<noteq> 0 then printf nl w else w)
      else do {
        let w = (if fields_on_line = 0 then printf (''0x'' @ hex 16 (unat da) @ '':'') w else w);
        let printed = (if left < 4 then 1 else 4);
        w \<leftarrow> load E mi pos printed w;
        let w = printf ('' 0x'' @ hex (2 * printed) (unat (le_dec (rdbuf printed w) :: u32))) w;
        let fields_on_line = (fields_on_line + 1) mod 4;
        let w = (if fields_on_line = 0 then printf nl w else w);
        dump_loop E mi (pos + printed) (left - printed) (da + of_nat printed) fields_on_line w
      })"
  by pat_completeness auto
termination
  by (relation "measure (\<lambda>(E, mi, pos, left, da, fields_on_line, w). left)") auto

declare dump_loop.simps [simp del]

definition mmio_dump :: "'k env \<Rightarrow> string list \<Rightarrow> cmd_info \<Rightarrow> 'k world \<Rightarrow> ('k, int) result" where
  "mmio_dump E argv info w = do {
     mmf \<leftarrow> flags_of info;
     a1 \<leftarrow> argp argv 1;
     a2 \<leftarrow> argp argv 2;
     let desired_addr = strtoull a1 0;
     let bytes_to_dump = strtoul a2 0;
     if length argv = 4 \<and> argv ! 3 \<noteq> ''-b'' then Some (- 1, w)
     else do {
       let write_binary = (length argv = 4);
       let ((rc, mi), w) = open_mapping E desired_addr (O_RDONLY OR mmf) (ucast bytes_to_dump) w;
       if rc < 0 then Some (- 1, w)
       else if write_binary then
         if bytes_to_dump = 0 then Some (- 1, close_mapping E mi w)
         else do {
           w \<leftarrow> load E mi (nat (off mi)) (unat bytes_to_dump) w;
           let w = printf (map (\<lambda>b. char_of (unat b)) (rdbuf (unat bytes_to_dump) w)) w;
           Some (0, close_mapping E mi w)
         }
       else do {
         w \<leftarrow> dump_loop E mi (nat (off mi)) (unat bytes_to_dump) desired_addr 0 w;
         Some (0, close_mapping E mi w)
       }
     }
   }"

section \<open>Command tables\<close>

definition cacheable_access :: u32 where "cacheable_access = 0"
definition uncacheable_access :: u32 where "uncacheable_access = O_SYNC"

definition mmio_rd_params :: prereq_params where
  "mmio_rd_params = FIXED_ARGS 2 ''<addr>'' 0"
definition mmio_wr_params :: prereq_params where
  "mmio_wr_params = FIXED_ARGS 3 ''<addr> <value>'' 0"
definition dump_params :: prereq_params where
  "dump_params = VAR_ARGS 3 4 ''<addr> <num_bytes> [-b]'' 0"

definition MAKE_MMIO_RW_CMD_PAIR :: "string \<Rightarrow> IO_SIZE \<Rightarrow> u32 \<Rightarrow> cmd_info list" where
  "MAKE_MMIO_RW_CMD_PAIR prefix sz access' =
    [MAKE_CMD_WITH_PARAMS_SIZE (prefix @ ''_read'' @ size_suffix sz) E_mmio_read_x
       (Mmap_file_flags access') mmio_rd_params sz,
     MAKE_CMD_WITH_PARAMS_SIZE (prefix @ ''_write'' @ size_suffix sz) E_mmio_write_x
       (Mmap_file_flags access') mmio_wr_params sz]"

definition mmio_cmds :: "cmd_info list" where
  "mmio_cmds =
     MAKE_MMIO_RW_CMD_PAIR ''mmio'' SIZE8 uncacheable_access @
     MAKE_MMIO_RW_CMD_PAIR ''mmio'' SIZE16 uncacheable_access @
     MAKE_MMIO_RW_CMD_PAIR ''mmio'' SIZE32 uncacheable_access @
     MAKE_MMIO_RW_CMD_PAIR ''mmio'' SIZE64 uncacheable_access @
     [MAKE_CMD_WITH_PARAMS ''mmio_dump'' E_mmio_dump (Mmap_file_flags uncacheable_access) dump_params]"

definition cacheable_mmio_cmds :: "cmd_info list" where
  "cacheable_mmio_cmds =
     MAKE_MMIO_RW_CMD_PAIR ''mem'' SIZE8 cacheable_access @
     MAKE_MMIO_RW_CMD_PAIR ''mem'' SIZE16 cacheable_access @
     MAKE_MMIO_RW_CMD_PAIR ''mem'' SIZE32 cacheable_access @
     MAKE_MMIO_RW_CMD_PAIR ''mem'' SIZE64 cacheable_access @
     [MAKE_CMD_WITH_PARAMS ''mem_dump'' E_mmio_dump (Mmap_file_flags cacheable_access) dump_params]"

definition MMIO_group :: cmd_group where
  "MMIO_group = \<lparr>group_name = ''MMIO'',
     description = Some ''commands to access uncacheable memory mapped address spaces'',
     commands = mmio_cmds\<rparr>"

definition MEM_group :: cmd_group where
  "MEM_group = \<lparr>group_name = ''MEM'',
     description = Some ''commands to access cacheable memory mapped address spaces'',
     commands = cacheable_mmio_cmds\<rparr>"

lemmas mmio_params_defs = mmio_rd_params_def mmio_wr_params_def dump_params_def
lemmas mmio_cmds_defs = mmio_cmds_def cacheable_mmio_cmds_def MAKE_MMIO_RW_CMD_PAIR_def

section \<open>The window of a mapping\<close>

definition page_ok :: "'k env \<Rightarrow> bool" where
  "page_ok E \<longleftrightarrow> (\<exists>k \<le> 30. getpagesize E = 2 ^ k)"

lemma page_mask: "(of_nat (2 ^ k) :: u64) - 1 = mask k"
  by (simp add: mask_eq_exp_minus_1)

lemma unat_take_bit: "unat (take_bit k (a :: u64)) = unat a mod 2 ^ k"
  by (subst unsigned_take_bit_eq) (rule take_bit_eq_mod)

lemma page_offset:
  assumes "k \<le> 30"
  shows "int_of_ulong (a AND mask k) = int (unat a mod 2 ^ k)"
proof -
  have u: "unat (a AND mask k :: u64) = unat a mod 2 ^ k"
    by (simp only: unat_take_bit flip: take_bit_eq_mask)
  have "unat a mod 2 ^ k < 2 ^ k" by simp
  also have "(2 :: nat) ^ k \<le> 2 ^ 30" using assms by (intro power_increasing) simp_all
  finally have "unat (a AND mask k :: u64) < 2 ^ 31" by (simp add: u)
  then show ?thesis
    by (simp only: int_of_ulong_small u)
qed

lemma page_base:
  "unat (a AND NOT (mask k) :: u64) mod 2 ^ k = 0"
  "(a AND NOT (mask k) :: u64) + of_nat (unat a mod 2 ^ k) = a"
proof -
  have "take_bit k (a AND NOT (mask k)) = 0"
    by (rule bit_word_eqI) (auto simp: bit_take_bit_iff bit_and_iff bit_not_iff bit_mask_iff)
  then show "unat (a AND NOT (mask k) :: u64) mod 2 ^ k = 0"
    by (simp only: unat_0 flip: unat_take_bit)
  have "of_nat (unat (take_bit k a)) = take_bit k a" by simp
  then have t: "of_nat (unat a mod 2 ^ k) = take_bit k a" by (simp only: unat_take_bit)
  have "a AND NOT (mask k) = push_bit k (drop_bit k a)"
    by (rule bit_word_eqI)
      (auto simp: bit_push_bit_iff bit_drop_bit_eq bit_and_iff bit_not_iff bit_mask_iff)
  with t show "(a AND NOT (mask k) :: u64) + of_nat (unat a mod 2 ^ k) = a"
    by (simp only: bits_ident)
qed

lemma unat_ucast_u32: "unat (ucast (x :: u32) :: u64) = unat x"
proof -
  have "unat x < 2 ^ 32" using unsigned_less [of x, where ?'a = nat] by simp
  then have "unat x < 2 ^ 64" by simp
  then show ?thesis by (simp add: unsigned_ucast_eq take_bit_nat_eq_self)
qed

lemma open_mapping_window:
  assumes "page_ok E" and "open_mapping E a flags bytes w = ((rc, mi), w')"
  shows "unat (addr mi) mod getpagesize E = 0" and "addr mi + of_nat (nat (off mi)) = a"
    and "off mi = int (unat a mod getpagesize E)" and "unat (pgsize mi) = getpagesize E"
proof -
  obtain k where k: "k \<le> 30" "getpagesize E = 2 ^ k"
    using assms(1) by (auto simp: page_ok_def)
  have fields: "addr mi = a AND NOT (mask k)" "off mi = int_of_ulong (a AND mask k)"
    "pgsize mi = of_nat (2 ^ k)"
    using assms(2) by (auto simp: open_mapping_def Let_def k(2) simp flip: page_mask split: if_splits)
  show "unat (addr mi) mod getpagesize E = 0"
    by (simp only: fields k(2) page_base)
  show o: "off mi = int (unat a mod getpagesize E)"
    by (simp only: fields k(2) page_offset [OF k(1)])
  show "addr mi + of_nat (nat (off mi)) = a"
    by (simp only: o nat_int) (simp only: fields k(2) page_base)
  have "(2 :: nat) ^ k < 2 ^ 64" using k(1) by (intro power_strict_increasing) simp_all
  then show "unat (pgsize mi) = getpagesize E"
    by (simp only: fields k(2) unat_of_nat) simp
qed

lemma open_mapping_length:
  assumes "page_ok E" and "open_mapping E a flags bytes w = ((0, mi), w')"
  shows "unat (mi_length mi) = (unat bytes + nat (off mi)) mod 2 ^ 32"
proof -
  have o: "off mi = int (unat a mod getpagesize E)"
    using assms by (rule open_mapping_window)
  have "mi_length mi = ucast (bytes + word_of_int (off mi))"
    using assms(2) by (auto simp: open_mapping_def Let_def split: if_splits)
  also have "word_of_int (off mi) = (of_nat (nat (off mi)) :: u32)"
    by (simp add: o)
  finally have "unat (mi_length mi) = unat (bytes + of_nat (nat (off mi)))"
    by (simp only: unat_ucast_u32)
  then show ?thesis
    by (simp add: unat_word_ariths unat_of_nat mod_add_right_eq)
qed

lemma mapped_bytes_ge:
  assumes "0 < unat (pgsize mi)"
  shows "unat (mi_length mi) \<le> mapped_bytes mi"
    and "mapped_bytes mi < unat (mi_length mi) + unat (pgsize mi)"
proof -
  let ?l = "unat (mi_length mi)" and ?p = "unat (pgsize mi)"
  have eq: "(?l + ?p - 1) div ?p * ?p + (?l + ?p - 1) mod ?p = ?l + ?p - 1"
    by (rule div_mult_mod_eq)
  have lt: "(?l + ?p - 1) mod ?p < ?p" using assms by simp
  show "?l \<le> mapped_bytes mi" and "mapped_bytes mi < ?l + ?p"
    unfolding mapped_bytes_def using eq lt assms by linarith+
qed

lemma page_ok_pos: "page_ok E \<Longrightarrow> 0 < getpagesize E \<and> getpagesize E \<le> 2 ^ 30"
  using power_increasing [of _ 30 "2 :: nat"] by (auto simp: page_ok_def)

text \<open>A request that does not wrap is covered by the mapping.\<close>

lemma open_mapping_covers:
  assumes "page_ok E" and "open_mapping E a flags bytes w = ((0, mi), w')"
    and "unat bytes + nat (off mi) < 2 ^ 32"
  shows "nat (off mi) + unat bytes \<le> mapped_bytes mi"
proof -
  have "0 < unat (pgsize mi)"
    using open_mapping_window(4) [OF assms(1,2)] page_ok_pos [OF assms(1)] by simp
  then have "unat (mi_length mi) \<le> mapped_bytes mi" by (rule mapped_bytes_ge)
  then show ?thesis
    using open_mapping_length [OF assms(1,2)] assms(3) by simp
qed

section \<open>Dereferences\<close>

text \<open>The window of \<open>mi\<close> is mapped with protection \<open>prot\<close>.\<close>

definition mapped :: "'k env \<Rightarrow> mmap_info \<Rightarrow> u32 \<Rightarrow> 'k world \<Rightarrow> bool" where
  "mapped E mi prot w \<longleftrightarrow> unat (pgsize mi) = getpagesize E \<and>
     map_of (maps w) (word_of_int (mem mi)) = Some \<lparr>vm_len = unat (mi_length mi), vm_prot = prot, vm_off = addr mi\<rparr>"

lemma open_mapping_mapped:
  assumes "page_ok E" and "open_mapping E a flags bytes w = ((0, mi), w')"
  shows "mapped E mi (mode_prot flags) w'"
  using assms(2) open_mapping_window(4) [OF assms]
  by (auto simp: mapped_def open_mapping_def Let_def rv_def split: if_splits)

lemma whole_pages_mapped: "mapped E mi prot w \<Longrightarrow> whole_pages E (unat (mi_length mi)) = mapped_bytes mi"
  by (simp add: mapped_def whole_pages_def mapped_bytes_def)

lemma load_mapped:
  assumes "mapped E mi prot w" and "prot AND PROT_READ \<noteq> 0"
  shows "load E mi o' n w =
    (if o' + n \<le> mapped_bytes mi then Some (sys E (Load (addr mi + of_nat o') n) w) else None)"
  using assms whole_pages_mapped [OF assms(1)] by (simp add: load_def mapped_def)

lemma store_mapped:
  assumes "mapped E mi prot w" and "prot AND PROT_WRITE \<noteq> 0"
  shows "store E mi o' bs w =
    (if o' + length bs \<le> mapped_bytes mi then Some (sys E (Store (addr mi + of_nat o') bs) w) else None)"
  using assms whole_pages_mapped [OF assms(1)] by (simp add: store_def mapped_def)

lemma mapped_frame [simp]:
  "mapped E mi prot (printf s w) = mapped E mi prot w"
  "mapped E mi prot (sys E (Load a n) w) = mapped E mi prot w"
  by (simp_all add: mapped_def)

text \<open>The protections of the two kinds of access: the flags of a command leave the access mode alone.\<close>

lemma mode_prot_rd: "fl AND O_ACCMODE = O_RDONLY \<Longrightarrow> mode_prot (O_RDONLY OR fl) = PROT_READ"
  by (simp add: mode_prot_def flag_defs)

lemma mode_prot_wr: "mode_prot O_RDWR = PROT_READ OR PROT_WRITE"
  by (simp add: mode_prot_def flag_defs)

lemma prot_bits: "PROT_READ AND PROT_READ \<noteq> 0" "(PROT_READ OR PROT_WRITE) AND PROT_WRITE \<noteq> 0"
  by (simp_all add: flag_defs)

lemma load_opened:
  assumes "page_ok E" and "open_mapping E a (O_RDONLY OR fl) bytes w = ((0, mi), w')" and "fl AND O_ACCMODE = O_RDONLY"
  shows "load E mi o' n w' =
    (if o' + n \<le> mapped_bytes mi then Some (sys E (Load (addr mi + of_nat o') n) w') else None)"
  using open_mapping_mapped [OF assms(1,2)] unfolding mode_prot_rd [OF assms(3)]
  by (rule load_mapped) (rule prot_bits)

lemma store_opened:
  assumes "page_ok E" and "open_mapping E a O_RDWR bytes w = ((0, mi), w')"
  shows "store E mi o' bs w' =
    (if o' + length bs \<le> mapped_bytes mi then Some (sys E (Store (addr mi + of_nat o') bs) w') else None)"
  using open_mapping_mapped [OF assms] unfolding mode_prot_wr
  by (rule store_mapped) (rule prot_bits)

section \<open>Descriptors\<close>

lemma load_frame:
  "load E mi p n w = Some w' \<Longrightarrow> open_fds (trace w') = open_fds (trace w) \<and>
     disciplined (trace w') = disciplined (trace w) \<and> stderr w' = stderr w"
  by (auto simp: load_def split: bind_splits if_splits)

lemma store_frame:
  "store E mi p bs w = Some w' \<Longrightarrow> open_fds (trace w') = open_fds (trace w) \<and>
     disciplined (trace w') = disciplined (trace w) \<and> stderr w' = stderr w"
  by (auto simp: store_def split: bind_splits if_splits)

lemma mmio_DO_READ_frame:
  "mmio_DO_READ E mi sz w = Some w' \<Longrightarrow> open_fds (trace w') = open_fds (trace w) \<and>
     disciplined (trace w') = disciplined (trace w)"
  by (auto simp: mmio_DO_READ_def split: bind_splits dest: load_frame)

lemma dump_loop_frame:
  "dump_loop E mi pos left da j w = Some w' \<Longrightarrow> open_fds (trace w') = open_fds (trace w) \<and>
     disciplined (trace w') = disciplined (trace w)"
proof (induction E mi pos left da j w arbitrary: w' rule: dump_loop.induct)
  case (1 E mi pos left da j w)
  show ?case
  proof (cases "left = 0")
    case True
    with "1.prems" show ?thesis
      by (subst (asm) dump_loop.simps) (auto split: if_splits)
  next
    case False
    with "1.prems" "1.IH" [OF False refl refl _ refl refl refl] show ?thesis
      by (subst (asm) dump_loop.simps)
        (fastforce simp: Let_def split: bind_splits if_splits dest: load_frame)
  qed
qed

lemma open_mapping_frame:
  "open_mapping E a flags bytes w = ((rc, mi), w') \<Longrightarrow>
     open_fds (trace w') =
       (if rc < 0 then open_fds (trace w) else mi_fd mi # open_fds (trace w)) \<and>
     (disciplined (trace w) \<longrightarrow> disciplined (trace w'))"
  by (auto simp: open_mapping_def Let_def rv_def split: if_splits)

lemma close_mapping_frame:
  "open_fds (trace (close_mapping E mi w)) = remove1 (mi_fd mi) (open_fds (trace w))"
  "disciplined (trace (close_mapping E mi w)) \<longleftrightarrow>
     disciplined (trace w) \<and> mi_fd mi \<in> set (open_fds (trace w))"
  by (auto simp: close_mapping_def)

lemmas mmio_frames = open_mapping_frame mmio_DO_READ_frame load_frame store_frame dump_loop_frame

interpretation mmio_read_fds: fd_clean "\<lambda>E (argv, info). mmio_read_x E argv info"
  by unfold_locales
    (auto simp: mmio_read_x_def close_mapping_frame
      split: bind_splits prod.splits option.splits if_splits dest!: mmio_frames)

interpretation mmio_write_fds: fd_clean "\<lambda>E (argv, info). mmio_write_x E argv info"
  by unfold_locales
    (auto simp: mmio_write_x_def mmio_DO_WRITE_def close_mapping_frame
      split: bind_splits prod.splits option.splits if_splits dest!: mmio_frames)

interpretation mmio_dump_fds: fd_clean "\<lambda>E (argv, info). mmio_dump E argv info"
  by unfold_locales
    (auto simp: mmio_dump_def Let_def close_mapping_frame
      split: bind_splits prod.splits option.splits if_splits dest!: mmio_frames)

section \<open>Faults\<close>

text \<open>One iteration of the loop that does not fault.\<close>

definition dump_field :: "'k env \<Rightarrow> mmap_info \<Rightarrow> nat \<Rightarrow> nat \<Rightarrow> u64 \<Rightarrow> nat \<Rightarrow> 'k world \<Rightarrow> 'k world" where
  "dump_field E mi pos n da j w =
     (let w = (if j = 0 then printf (''0x'' @ hex 16 (unat da) @ '':'') w else w);
          w = sys E (Load (addr mi + of_nat pos) n) w;
          w = printf ('' 0x'' @ hex (2 * n) (unat (le_dec (rdbuf n w) :: u32))) w
      in if (j + 1) mod 4 = 0 then printf nl w else w)"

abbreviation field_width :: "nat \<Rightarrow> nat" where
  "field_width left \<equiv> (if left < 4 then 1 else 4)"

lemma dump_loop_end: "dump_loop E mi pos 0 da j w = Some (if j \<noteq> 0 then printf nl w else w)"
  by (subst dump_loop.simps) simp

lemma dump_field_mapped [simp]: "mapped E mi prot (dump_field E mi pos n da j w) = mapped E mi prot w"
  by (simp add: dump_field_def Let_def)

lemma dump_loop_step:
  assumes "left \<noteq> 0" and "pos + field_width left \<le> mapped_bytes mi"
    and "mapped E mi PROT_READ w"
  shows "dump_loop E mi pos left da j w =
    dump_loop E mi (pos + field_width left) (left - field_width left) (da + of_nat (field_width left))
      ((j + 1) mod 4) (dump_field E mi pos (field_width left) da j w)"
  using assms by (subst dump_loop.simps) (auto simp: load_mapped [OF _ prot_bits(1)] dump_field_def Let_def)

lemma dump_loop_fault:
  assumes "left \<noteq> 0" and "\<not> pos + field_width left \<le> mapped_bytes mi"
    and "mapped E mi PROT_READ w"
  shows "dump_loop E mi pos left da j w = None"
  using assms by (subst dump_loop.simps) (auto simp: load_mapped [OF _ prot_bits(1)] Let_def)

text \<open>The loop runs to its end exactly when all its bytes are mapped.\<close>

lemma dump_loop_Some_iff:
  "mapped E mi PROT_READ w \<Longrightarrow> (\<exists>w'. dump_loop E mi pos left da j w = Some w') \<longleftrightarrow> left = 0 \<or> pos + left \<le> mapped_bytes mi"
proof (induction left arbitrary: pos da j w rule: less_induct)
  case (less left)
  let ?p = "field_width left"
  consider "left = 0" | "left \<noteq> 0" "pos + ?p \<le> mapped_bytes mi"
    | "left \<noteq> 0" "\<not> pos + ?p \<le> mapped_bytes mi" by blast
  then show ?case
  proof cases
    case 1
    then show ?thesis by (simp add: dump_loop_end)
  next
    case 2
    then have p: "?p \<le> left" "left - ?p < left" by auto
    show ?thesis
      unfolding dump_loop_step [OF 2 less.prems]
      using less.IH [OF p(2), of "dump_field E mi pos ?p da j w"] less.prems 2 p(1) by auto
  next
    case 3
    then have "?p \<le> left" by auto
    then show ?thesis
      unfolding dump_loop_fault [OF 3 less.prems] using 3 by auto
  qed
qed

lemma open_mapping_register:
  assumes "page_ok E" and "open_mapping E a flags 8 w = ((0, mi), w')"
  shows "nat (off mi) + size_bytes sz \<le> mapped_bytes mi"
proof -
  have "off mi = int (unat a mod getpagesize E)"
    using assms by (rule open_mapping_window)
  then have "off mi < int (getpagesize E)"
    using page_ok_pos [OF assms(1)] by simp
  then have "nat (off mi) < 2 ^ 31"
    using page_ok_pos [OF assms(1)] by auto
  then have "unat (8 :: u32) + nat (off mi) < 2 ^ 32" by simp
  then have "nat (off mi) + unat (8 :: u32) \<le> mapped_bytes mi"
    by (rule open_mapping_covers [OF assms])
  then show ?thesis using size_bytes_le [of sz] by simp
qed

section \<open>Physical memory\<close>

text \<open>
  The documented behaviour of \<^verbatim>\<open>/dev/mem\<close> for ordinary memory: opening gives a descriptor with the
  access mode of the flags (\<open>mode\<close>), mapping a non-empty window at a page-aligned offset succeeds
  when the descriptor is open for reading and, for a writable mapping, for writing too; loads return
  the bytes at the physical address, stores replace them, nothing else changes memory.  \<open>M k\<close> is
  the memory in machine state \<open>k\<close>.
\<close>

definition grants_mappings :: "'k env \<Rightarrow> ('k \<Rightarrow> u64 \<Rightarrow> u8) \<Rightarrow> ('k \<Rightarrow> int \<Rightarrow> u32) \<Rightarrow> bool" where
  "grants_mappings E M mode \<longleftrightarrow>
    (\<forall>k fl r k'. kernel E (Open ''/dev/mem'' fl) k = (r, k') \<longrightarrow>
       0 \<le> ret r \<and> mode k' (ret r) = fl AND O_ACCMODE \<and> M k' = M k) \<and>
    (\<forall>k len prot fd a r k'. kernel E (Mmap len prot fd a) k = (r, k') \<longrightarrow> 0 < len \<longrightarrow>
       unat a mod getpagesize E = 0 \<longrightarrow> readable (mode k fd) \<longrightarrow>
       (prot AND PROT_WRITE \<noteq> 0 \<longrightarrow> writable (mode k fd)) \<longrightarrow>
       ret r \<noteq> 0 \<and> ret r \<noteq> - 1 \<and> M k' = M k)"

definition memory_device :: "'k env \<Rightarrow> ('k \<Rightarrow> u64 \<Rightarrow> u8) \<Rightarrow> bool" where
  "memory_device E M \<longleftrightarrow> (\<exists>mode. grants_mappings E M mode) \<and>
    (\<forall>k a n r k'. kernel E (Load a n) k = (r, k') \<longrightarrow>
       (\<forall>i < n. buf r i = M k (a + of_nat i)) \<and> M k' = M k) \<and>
    (\<forall>k a bs r k'. kernel E (Store a bs) k = (r, k') \<longrightarrow>
       (\<forall>x. M k' x = (if unat (x - a) < length bs then bs ! unat (x - a) else M k x))) \<and>
    (\<forall>k p len r k'. kernel E (Munmap p len) k = (r, k') \<longrightarrow> M k' = M k) \<and>
    (\<forall>k fd r k'. kernel E (Close fd) k = (r, k') \<longrightarrow> M k' = M k)"

lemma grants_mappingsD:
  assumes "grants_mappings E M mode"
  shows "kernel E (Open ''/dev/mem'' fl) k = (r, k') \<Longrightarrow>
      0 \<le> ret r \<and> mode k' (ret r) = fl AND O_ACCMODE \<and> M k' = M k"
    and "kernel E (Mmap len prot fd a) k = (r, k') \<Longrightarrow> 0 < len \<Longrightarrow>
      unat a mod getpagesize E = 0 \<Longrightarrow> readable (mode k fd) \<Longrightarrow>
      (prot AND PROT_WRITE \<noteq> 0 \<longrightarrow> writable (mode k fd)) \<Longrightarrow> ret r \<noteq> 0 \<and> ret r \<noteq> - 1 \<and> M k' = M k"
  using assms unfolding grants_mappings_def by fastforce+

lemma memory_deviceD:
  assumes "memory_device E M"
  shows "kernel E (Load a n) k = (r, k') \<Longrightarrow> (\<forall>i < n. buf r i = M k (a + of_nat i)) \<and> M k' = M k"
    and "kernel E (Store a bs) k = (r, k') \<Longrightarrow>
      M k' x = (if unat (x - a) < length bs then bs ! unat (x - a) else M k x)"
    and "kernel E (Munmap p len) k = (r, k') \<Longrightarrow> M k' = M k"
    and "kernel E (Close fd) k = (r, k') \<Longrightarrow> M k' = M k"
  using assms unfolding memory_device_def by fastforce+

lemma memory_device_ops:
  assumes "memory_device E M"
  shows "M (kstate (sys E (Load a n) w)) = M (kstate w)"
    and "M (kstate (sys E (Store a bs) w)) x =
           (if unat (x - a) < length bs then bs ! unat (x - a) else M (kstate w) x)"
    and "M (kstate (sys E (Munmap p len) w)) = M (kstate w)"
    and "M (kstate (sys E (Close fd) w)) = M (kstate w)"
  using memory_deviceD [OF assms prod.collapse [symmetric]] by (simp_all add: sys_kernel)

text \<open>Opening and mapping in the access mode of the flags.\<close>

lemma memory_device_map:
  assumes "memory_device E M"
    and "0 < len" and "unat a mod getpagesize E = 0" and "readable (fl AND O_ACCMODE)"
    and "prot AND PROT_WRITE \<noteq> 0 \<Longrightarrow> writable (fl AND O_ACCMODE)"
  shows "\<not> rv (sys E (Open ''/dev/mem'' fl) w) < 0"
    and "rv (sys E (Mmap len prot (rv (sys E (Open ''/dev/mem'' fl) w)) a) (sys E (Open ''/dev/mem'' fl) w)) \<noteq> 0"
    and "rv (sys E (Mmap len prot (rv (sys E (Open ''/dev/mem'' fl) w)) a) (sys E (Open ''/dev/mem'' fl) w)) \<noteq> - 1"
    and "M (kstate (sys E (Mmap len prot (rv (sys E (Open ''/dev/mem'' fl) w)) a) (sys E (Open ''/dev/mem'' fl) w))) =
      M (kstate w)"
proof -
  let ?w1 = "sys E (Open ''/dev/mem'' fl) w"
  let ?w2 = "sys E (Mmap len prot (rv ?w1) a) ?w1"
  obtain mode where g: "grants_mappings E M mode"
    using assms(1) unfolding memory_device_def by (elim conjE exE)
  note op = grants_mappingsD(1) [OF g] and mp = grants_mappingsD(2) [OF g]
  have w1: "0 \<le> rv ?w1" "mode (kstate ?w1) (rv ?w1) = fl AND O_ACCMODE" "M (kstate ?w1) = M (kstate w)"
    using op [OF prod.collapse [symmetric], of fl "kstate w"] by (simp_all add: rv_def sys_kernel)
  have "rv ?w2 \<noteq> 0 \<and> rv ?w2 \<noteq> - 1 \<and> M (kstate ?w2) = M (kstate ?w1)"
    using mp [OF prod.collapse [symmetric] assms(2,3), of "kstate ?w1" "rv ?w1" prot] assms(4,5) w1(2)
    by (simp add: rv_def sys_kernel)
  with w1 show "\<not> rv ?w1 < 0" "rv ?w2 \<noteq> 0" "rv ?w2 \<noteq> - 1" "M (kstate ?w2) = M (kstate w)" by simp_all
qed

lemma memory_device_Load:
  assumes "memory_device E M"
  shows "rdbuf n (sys E (Load a n) w) = map (\<lambda>i. M (kstate w) (a + of_nat i)) [0..<n]"
  using memory_deviceD(1) [OF assms prod.collapse [symmetric], of n a "kstate w"] by (simp add: rdbuf_sys)

section \<open>The text of a dump\<close>

text \<open>
  What a dump of \<open>n\<close> bytes should print: the fields are the complete 32-bit words followed by the
  remaining bytes one by one, four fields on a line, every line headed by the address of its first
  field and ended by a newline.
\<close>

definition fields_from :: "nat \<Rightarrow> nat \<Rightarrow> (nat \<times> nat) list" where
  "fields_from b n = map (\<lambda>i. (b + 4 * i, 4)) [0..<n div 4] @
     map (\<lambda>i. (b + 4 * (n div 4) + i, 1)) [0..<n mod 4]"

definition field_text :: "(u64 \<Rightarrow> u8) \<Rightarrow> u64 \<Rightarrow> nat \<times> nat \<Rightarrow> string" where
  "field_text m a f = (case f of (b, n) \<Rightarrow>
     '' 0x'' @ hex (2 * n) (unat (le_dec (map (\<lambda>i. m (a + of_nat b + of_nat i)) [0..<n]) :: u32)))"

fun lines_text :: "(u64 \<Rightarrow> u8) \<Rightarrow> u64 \<Rightarrow> (nat \<times> nat) list \<Rightarrow> string" where
  "lines_text m a [] = ''''"
| "lines_text m a (f # fs) =
     ''0x'' @ hex 16 (unat (a + of_nat (fst f))) @ '':'' @ field_text m a f @
     concat (map (field_text m a) (take 3 fs)) @ nl @ lines_text m a (drop 3 fs)"

definition dump_text :: "(u64 \<Rightarrow> u8) \<Rightarrow> u64 \<Rightarrow> nat \<Rightarrow> string" where
  "dump_text m a n = lines_text m a (fields_from 0 n)"

text \<open>The rest of the text when \<open>j\<close> fields are already on the line.\<close>

definition rest_text :: "(u64 \<Rightarrow> u8) \<Rightarrow> u64 \<Rightarrow> nat \<Rightarrow> (nat \<times> nat) list \<Rightarrow> string" where
  "rest_text m a j fs =
     (if j = 0 then lines_text m a fs
      else concat (map (field_text m a) (take (4 - j) fs)) @ nl @ lines_text m a (drop (4 - j) fs))"

lemma fields_from_0 [simp]: "fields_from b 0 = []"
  by (simp add: fields_from_def)

lemma fields_from_step:
  assumes "n \<noteq> 0"
  shows "fields_from b n =
    (b, field_width n) # fields_from (b + field_width n) (n - field_width n)"
proof (cases "n < 4")
  case True
  then have "n - 1 < 4" "n div 4 = 0" "n mod 4 = n" "(n - 1) div 4 = 0" "(n - 1) mod 4 = n - 1" by auto
  moreover have "[0..<n] = 0 # map Suc [0..<n - 1]"
    using assms by (metis map_Suc_upt upt_conv_Cons gr0I Suc_pred' One_nat_def)
  moreover have "field_width n = 1" using True by simp
  ultimately show ?thesis
    by (simp only: fields_from_def) (simp add: comp_def)
next
  case False
  then have "n div 4 = Suc ((n - 4) div 4)" "(n - 4) mod 4 = n mod 4"
    by (auto simp: le_div_geq le_mod_geq)
  moreover have "[0..<Suc k] = 0 # map Suc [0..<k]" for k
    by (simp add: upt_conv_Cons map_Suc_upt del: upt_Suc)
  moreover have "field_width n = 4" using False by simp
  ultimately show ?thesis
    by (simp only: fields_from_def) (simp add: comp_def add.assoc del: upt_Suc)
qed

lemma rest_text_step:
  assumes "j < 4"
  shows "rest_text m a j (f # fs) =
    (if j = 0 then ''0x'' @ hex 16 (unat (a + of_nat (fst f))) @ '':'' else '''') @ field_text m a f @
    (if (j + 1) mod 4 = 0 then nl else '''') @ rest_text m a ((j + 1) mod 4) fs"
proof -
  from assms have "j = 0 \<or> j = 1 \<or> j = 2 \<or> j = 3" by auto
  then show ?thesis
    by (elim disjE) (simp_all add: rest_text_def take_Cons' drop_Cons')
qed

lemma dump_field_text:
  assumes "memory_device E M" and "addr mi + of_nat o0 = a"
  shows "stdout (dump_field E mi (o0 + b) n (a + of_nat b) j w) = stdout w @
      (if j = 0 then ''0x'' @ hex 16 (unat (a + of_nat b)) @ '':'' else '''') @
      field_text (M (kstate w)) a (b, n) @ (if (j + 1) mod 4 = 0 then nl else '''')"
    and "M (kstate (dump_field E mi (o0 + b) n (a + of_nat b) j w)) = M (kstate w)"
    and "stderr (dump_field E mi (o0 + b) n (a + of_nat b) j w) = stderr w"
proof -
  have "addr mi + of_nat (o0 + b) = a + of_nat b"
    using assms(2) by (simp add: ac_simps)
  note facts = this memory_device_Load [OF assms(1)] memory_device_ops [OF assms(1)]
  show "stdout (dump_field E mi (o0 + b) n (a + of_nat b) j w) = stdout w @
      (if j = 0 then ''0x'' @ hex 16 (unat (a + of_nat b)) @ '':'' else '''') @
      field_text (M (kstate w)) a (b, n) @ (if (j + 1) mod 4 = 0 then nl else '''')"
    by (simp add: dump_field_def Let_def facts field_text_def del: of_nat_add)
  show "M (kstate (dump_field E mi (o0 + b) n (a + of_nat b) j w)) = M (kstate w)"
    by (simp add: dump_field_def Let_def facts del: of_nat_add)
  show "stderr (dump_field E mi (o0 + b) n (a + of_nat b) j w) = stderr w"
    by (simp add: dump_field_def Let_def)
qed

lemma dump_loop_text:
  assumes "memory_device E M" and "addr mi + of_nat o0 = a"
  shows "o0 + b + left \<le> mapped_bytes mi \<Longrightarrow> j < 4 \<Longrightarrow> mapped E mi PROT_READ w \<Longrightarrow>
    \<exists>w'. dump_loop E mi (o0 + b) left (a + of_nat b) j w = Some w' \<and>
      stdout w' = stdout w @ rest_text (M (kstate w)) a j (fields_from b left) \<and>
      M (kstate w') = M (kstate w) \<and> stderr w' = stderr w"
proof (induction left arbitrary: b j w rule: less_induct)
  case (less left)
  let ?p = "field_width left"
  show ?case
  proof (cases "left = 0")
    case True
    then show ?thesis by (simp add: dump_loop_end rest_text_def)
  next
    case False
    then have p: "?p \<le> left" "left - ?p < left" by auto
    let ?w = "dump_field E mi (o0 + b) ?p (a + of_nat b) j w"
    have "o0 + b + ?p \<le> mapped_bytes mi" using less.prems p(1) by linarith
    then have step: "dump_loop E mi (o0 + b) left (a + of_nat b) j w =
        dump_loop E mi (o0 + (b + ?p)) (left - ?p) (a + of_nat (b + ?p)) ((j + 1) mod 4) ?w"
      using dump_loop_step [OF False, of "o0 + b" mi E w "a + of_nat b" j] less.prems(3)
      by (simp only: of_nat_add add.assoc)
    have "o0 + (b + ?p) + (left - ?p) \<le> mapped_bytes mi" "(j + 1) mod 4 < 4" "mapped E mi PROT_READ ?w"
      using less.prems p(1) by auto
    from less.IH [OF p(2) this] show ?thesis
      unfolding step fields_from_step [OF False] rest_text_step [OF less.prems(2)]
        dump_field_text [OF assms] by auto
  qed
qed

section \<open>Runs\<close>

text \<open>The access modes the commands open with: reading, or reading and writing.\<close>

definition mapping_mode :: "u32 \<Rightarrow> bool" where
  "mapping_mode flags \<longleftrightarrow> flags AND O_ACCMODE = O_RDONLY \<or> flags AND O_ACCMODE = O_RDWR"

lemma mapping_modes [simp]:
  "mapping_mode O_RDWR" "fl AND O_ACCMODE = O_RDONLY \<Longrightarrow> mapping_mode (O_RDONLY OR fl)"
  by (simp_all add: mapping_mode_def flag_defs)

lemma mapping_mode_prot:
  "mapping_mode flags \<Longrightarrow> readable (flags AND O_ACCMODE)"
  "mapping_mode flags \<Longrightarrow> mode_prot flags AND PROT_WRITE \<noteq> 0 \<Longrightarrow> writable (flags AND O_ACCMODE)"
  by (auto simp: mapping_mode_def readable_def writable_def mode_prot_def flag_defs)

lemma open_mapping_run:
  assumes "page_ok E" and "memory_device E M"
    and "0 < (unat bytes + unat a mod getpagesize E) mod 2 ^ 32" and "mapping_mode flags"
  shows "\<exists>mi w'. open_mapping E a flags bytes w = ((0, mi), w') \<and>
    M (kstate w') = M (kstate w) \<and> stdout w' = stdout w \<and> stderr w' = stderr w"
proof -
  let ?len = "ucast (bytes + word_of_int (int_of_ulong (a AND (of_nat (getpagesize E) - 1)))) :: u64"
  obtain k where k: "k \<le> 30" "getpagesize E = 2 ^ k"
    using assms(1) by (auto simp: page_ok_def)
  have "unat ?len = (unat bytes + unat a mod getpagesize E) mod 2 ^ 32"
    by (simp only: unat_ucast_u32 k(2) page_mask page_offset [OF k(1)])
      (simp add: unat_word_ariths unat_of_nat mod_add_right_eq)
  then have "0 < unat ?len" using assms(3) by simp
  moreover have "unat (a AND NOT (of_nat (getpagesize E) - 1)) mod getpagesize E = 0"
    by (simp only: k(2) page_mask page_base)
  ultimately show ?thesis
    using memory_device_map [OF assms(2) _ _ mapping_mode_prot [OF assms(4)]]
    by (simp add: open_mapping_def Let_def)
qed

lemma close_mapping_run:
  assumes "memory_device E M"
  shows "M (kstate (close_mapping E mi w)) = M (kstate w)"
    and "stdout (close_mapping E mi w) = stdout w" and "stderr (close_mapping E mi w) = stderr w"
  by (simp_all add: close_mapping_def memory_device_ops [OF assms])

definition mem_bytes :: "(u64 \<Rightarrow> u8) \<Rightarrow> u64 \<Rightarrow> nat \<Rightarrow> u8 list" where
  "mem_bytes m a n = map (\<lambda>i. m (a + of_nat i)) [0..<n]"

lemma open_mapping_8:
  assumes "page_ok E" and "memory_device E M" and "mapping_mode flags"
  shows "\<exists>mi w'. open_mapping E a flags 8 w = ((0, mi), w') \<and>
    M (kstate w') = M (kstate w) \<and> stdout w' = stdout w \<and> stderr w' = stderr w \<and>
    addr mi + of_nat (nat (off mi)) = a \<and> nat (off mi) + size_bytes sz \<le> mapped_bytes mi"
proof -
  have "unat a mod getpagesize E < getpagesize E"
    using page_ok_pos [OF assms(1)] by simp
  also have "getpagesize E \<le> 2 ^ 30"
    using page_ok_pos [OF assms(1)] by simp
  finally have "0 < (unat (8 :: u32) + unat a mod getpagesize E) mod 2 ^ 32"
    by simp
  from open_mapping_run [OF assms(1,2) this assms(3), of w] show ?thesis
    using open_mapping_window(2) [OF assms(1)] open_mapping_register [OF assms(1)] by fastforce
qed

lemma mmio_read_run:
  assumes "page_ok E" and "memory_device E M"
    and "flags_of info = Some fl" and "get_command_size info = Some sz" and "fl AND O_ACCMODE = O_RDONLY"
  shows "\<exists>w'. mmio_read_x E [cmd, a] info w = Some (0, w') \<and> M (kstate w') = M (kstate w) \<and>
    stdout w' = stdout w @ ''0x'' @ hex (size_bytes sz * 2)
      (unat (le_dec (mem_bytes (M (kstate w)) (strtoull a 0) (size_bytes sz)) :: u64)) @ nl \<and>
    stderr w' = stderr w"
  using open_mapping_8 [OF assms(1,2) mapping_modes(2) [OF assms(5)], of "strtoull a 0" w sz]
  by (auto simp: mmio_read_x_def assms(3,4) mmio_DO_READ_def load_opened [OF assms(1) _ assms(5)] mem_bytes_def
      close_mapping_run [OF assms(2)] memory_device_ops [OF assms(2)] memory_device_Load [OF assms(2)])

lemma mmio_write_run:
  assumes "page_ok E" and "memory_device E M" and "get_command_size info = Some sz"
  shows "\<exists>w'. mmio_write_x E [cmd, a, d] info w = Some (0, w') \<and>
    (\<forall>x. M (kstate w') x = (if unat (x - strtoull a 0) < size_bytes sz
       then le_enc (size_bytes sz) (strtoul d 0) ! unat (x - strtoull a 0) else M (kstate w) x)) \<and>
    stdout w' = stdout w \<and> stderr w' = stderr w"
  using open_mapping_8 [OF assms(1,2) mapping_modes(1), of "strtoull a 0" w sz]
  by (auto simp: mmio_write_x_def assms(3) mmio_DO_WRITE_def store_opened [OF assms(1)]
      close_mapping_run [OF assms(2)] memory_device_ops [OF assms(2)])

lemma mmio_dump_run:
  assumes "page_ok E" and "memory_device E M" and "flags_of info = Some fl"
    and "0 < unat (strtoul n 0)"
    and "unat (strtoul n 0) + unat (strtoull a 0) mod getpagesize E < 2 ^ 32"
    and "fl AND O_ACCMODE = O_RDONLY"
  shows "\<exists>w'. mmio_dump E [cmd, a, n] info w = Some (0, w') \<and> M (kstate w') = M (kstate w) \<and>
    stdout w' = stdout w @ dump_text (M (kstate w)) (strtoull a 0) (unat (strtoul n 0)) \<and>
    stderr w' = stderr w"
proof -
  let ?a = "strtoull a 0" and ?n = "strtoul n 0"
  have u: "unat (ucast ?n :: u32) = unat ?n"
    using assms(5) by (simp add: unsigned_ucast_eq take_bit_nat_eq_self)
  then have "0 < (unat (ucast ?n :: u32) + unat ?a mod getpagesize E) mod 2 ^ 32"
    using assms(4,5) by simp
  from open_mapping_run [OF assms(1,2) this mapping_modes(2) [OF assms(6)], of w] obtain mi w1 where
    op: "open_mapping E ?a (O_RDONLY OR fl) (ucast ?n) w = ((0, mi), w1)"
    and w1: "M (kstate w1) = M (kstate w)" "stdout w1 = stdout w" "stderr w1 = stderr w"
    by blast
  have o: "off mi = int (unat ?a mod getpagesize E)" and base: "addr mi + of_nat (nat (off mi)) = ?a"
    using open_mapping_window [OF assms(1) op] by blast+
  have "nat (off mi) + unat ?n \<le> mapped_bytes mi"
    using open_mapping_covers [OF assms(1) op] assms(5) by (simp add: u o)
  then have "nat (off mi) + 0 + unat ?n \<le> mapped_bytes mi" by simp
  moreover have "mapped E mi PROT_READ w1"
    using open_mapping_mapped [OF assms(1) op] by (simp add: mode_prot_rd [OF assms(6)])
  ultimately show ?thesis
    using dump_loop_text [OF assms(2) base, of 0 "unat ?n" 0 w1] w1
    by (auto simp: mmio_dump_def Let_def assms(3) op rest_text_def dump_text_def
        close_mapping_run [OF assms(2)])
qed

lemma mem_bytes_stored:
  assumes "n \<le> 8" and "length bs = n"
    and "\<forall>x. m' x = (if unat (x - a) < n then bs ! unat (x - a) else m x)"
  shows "mem_bytes m' a n = bs"
proof (rule nth_equalityI)
  fix i
  assume "i < length (mem_bytes m' a n)"
  then have i: "i < n" by (simp add: mem_bytes_def)
  then have "unat (of_nat i :: u64) = i" using assms(1) by (simp add: unat_of_nat)
  then show "mem_bytes m' a n ! i = bs ! i"
    using i assms(3) by (simp add: mem_bytes_def)
qed (simp add: mem_bytes_def assms(2))

type_synonym 'k mmio_conf = "'k env \<times> ('k \<Rightarrow> u64 \<Rightarrow> u8) \<times> cmd_info \<times> cmd_info \<times> string \<times> string"

definition mmio_ok :: "'k mmio_conf \<Rightarrow> bool" where
  "mmio_ok c = (case c of (E, M, winfo, rinfo, a, d) \<Rightarrow> page_ok E \<and> memory_device E M \<and>
     (\<exists>fl. flags_of rinfo = Some fl \<and> fl AND O_ACCMODE = O_RDONLY) \<and> get_command_size rinfo \<noteq> None \<and>
     get_command_size winfo = get_command_size rinfo)"

definition info_bytes :: "cmd_info \<Rightarrow> nat" where
  "info_bytes info = (case get_command_size info of Some sz \<Rightarrow> size_bytes sz | None \<Rightarrow> 0)"

interpretation mmio: register_commands
  mmio_ok
  "\<lambda>(E, M, winfo, rinfo, a, d). mmio_write_x E [''mmio_write'', a, d] winfo"
  "\<lambda>(E, M, winfo, rinfo, a, d). mmio_read_x E [''mmio_read'', a] rinfo"
  "\<lambda>(E, M, winfo, rinfo, a, d) k. mem_bytes (M k) (strtoull a 0) (info_bytes rinfo)"
  "\<lambda>(E, M, winfo, rinfo, a, d). le_enc (info_bytes rinfo) (strtoul d 0)"
  "\<lambda>v. ''0x'' @ hex (length v * 2) (unat (le_dec v :: u64)) @ nl"
proof (unfold_locales, goal_cases)
  case (1 c w)
  obtain E M wi ri a d where c: "c = (E, M, wi, ri, a, d)" by (cases c)
  obtain sz where sz: "get_command_size wi = Some sz" "get_command_size ri = Some sz"
    using 1 by (auto simp: mmio_ok_def c)
  then obtain w' where "mmio_write_x E [''mmio_write'', a, d] wi w = Some (0, w')"
    "\<forall>x. M (kstate w') x = (if unat (x - strtoull a 0) < size_bytes sz
       then le_enc (size_bytes sz) (strtoul d 0) ! unat (x - strtoull a 0) else M (kstate w) x)"
    "stdout w' = stdout w" "stderr w' = stderr w"
    using 1 mmio_write_run [of E M wi sz "''mmio_write''" a d w] by (auto simp: mmio_ok_def c)
  then show ?case
    using mem_bytes_stored [OF size_bytes_le length_le_enc] by (auto simp: c info_bytes_def sz)
next
  case (2 c w)
  obtain E M wi ri a d where c: "c = (E, M, wi, ri, a, d)" by (cases c)
  obtain fl sz where fs: "flags_of ri = Some fl" "get_command_size ri = Some sz" "fl AND O_ACCMODE = O_RDONLY"
    using 2 by (auto simp: mmio_ok_def c)
  have "length (mem_bytes m x n) = n" for m x n by (simp add: mem_bytes_def)
  then show ?case
    using 2 mmio_read_run [of E M ri fl sz "''mmio_read''" a w] fs
    by (auto simp: mmio_ok_def c info_bytes_def)
qed

section \<open>A memory\<close>

fun memory_kernel :: "extcall \<Rightarrow> (u64 \<Rightarrow> u8) \<Rightarrow> sysret \<times> (u64 \<Rightarrow> u8)" where
  "memory_kernel (Open p f) m = (\<lparr>ret = 3 + uint (f AND O_ACCMODE), err = 0, buf = (\<lambda>_. 0), str = '''', ents = []\<rparr>, m)"
| "memory_kernel (Mmap len prot fd a) m =
     (\<lparr>ret = (if unat a mod 4096 = 0 \<and> readable (word_of_int (fd - 3)) \<and>
          (prot AND PROT_WRITE \<noteq> 0 \<longrightarrow> writable (word_of_int (fd - 3))) then 0x7F0000000000 else - 1),
        err = 22, buf = (\<lambda>_. 0), str = '''', ents = []\<rparr>, m)"
| "memory_kernel (Load a n) m =
     (\<lparr>ret = 0, err = 0, buf = (\<lambda>i. m (a + of_nat i)), str = '''', ents = []\<rparr>, m)"
| "memory_kernel (Store a bs) m =
     (\<lparr>ret = 0, err = 0, buf = (\<lambda>_. 0), str = '''', ents = []\<rparr>,
      (\<lambda>x. if unat (x - a) < length bs then bs ! unat (x - a) else m x))"
| "memory_kernel _ m = (\<lparr>ret = 0, err = 0, buf = (\<lambda>_. 0), str = '''', ents = []\<rparr>, m)"

definition memory_env :: "(u64 \<Rightarrow> u8) env" where
  "memory_env = \<lparr>kernel = memory_kernel, strerror = (\<lambda>_. ''error''), getpagesize = 4096\<rparr>"

lemma memory_env_device: "memory_device memory_env (\<lambda>m. m)"
  unfolding memory_device_def
  by (intro conjI exI [of _ "\<lambda>m fd. word_of_int (fd - 3)"]) (auto simp: grants_mappings_def memory_env_def)

lemma memory_env_page: "page_ok memory_env"
  by (auto simp: page_ok_def memory_env_def intro: exI [of _ 12])

section \<open>Limits of a dump\<close>

lemma mapped_bytes_le:
  assumes "page_ok E" and "open_mapping E a flags bytes w = ((0, mi), w')"
  shows "mapped_bytes mi \<le> 2 ^ 32" and "unat (mi_length mi) = 0 \<Longrightarrow> mapped_bytes mi = 0"
proof -
  obtain k where k: "k \<le> 30" "unat (pgsize mi) = 2 ^ k"
    using assms(1) open_mapping_window(4) [OF assms] by (auto simp: page_ok_def)
  have "unat (mi_length mi) < 2 ^ 32"
    using open_mapping_length [OF assms] by simp
  moreover have "(2 :: nat) ^ 32 = 2 ^ k * 2 ^ (32 - k)"
    using k(1) by (simp flip: power_add)
  ultimately have "unat (mi_length mi) + 2 ^ k - 1 < 2 ^ k * (2 ^ (32 - k) + 1)"
    by (simp add: distrib_left)
  then have "(unat (mi_length mi) + 2 ^ k - 1) div 2 ^ k < 2 ^ (32 - k) + 1"
    by (simp add: less_mult_imp_div_less mult.commute)
  then have "(unat (mi_length mi) + 2 ^ k - 1) div 2 ^ k * 2 ^ k \<le> 2 ^ (32 - k) * 2 ^ k"
    by (intro mult_right_mono) auto
  then show "mapped_bytes mi \<le> 2 ^ 32"
    unfolding mapped_bytes_def k(2) using k(1) by (simp flip: power_add)
  show "mapped_bytes mi = 0" if "unat (mi_length mi) = 0"
    unfolding mapped_bytes_def k(2) that by simp
qed

lemma dump_covered_iff:
  assumes "page_ok E" and "open_mapping E a flags (ucast n) w = ((0, mi), w')"
  shows "nat (off mi) + unat (n :: u64) \<le> mapped_bytes mi \<longleftrightarrow> unat n + nat (off mi) < 2 ^ 32 \<or> unat n + nat (off mi) = 0"
proof -
  have len: "unat (mi_length mi) = (unat n + nat (off mi)) mod 2 ^ 32"
    using open_mapping_length [OF assms]
    by (simp add: unsigned_ucast_eq take_bit_eq_mod mod_add_left_eq)
  have "0 < unat (pgsize mi)"
    using open_mapping_window(4) [OF assms] page_ok_pos [OF assms(1)] by simp
  then have le: "unat (mi_length mi) \<le> mapped_bytes mi" by (rule mapped_bytes_ge)
  consider "unat n + nat (off mi) < 2 ^ 32" | "unat n + nat (off mi) = 2 ^ 32"
    | "2 ^ 32 < unat n + nat (off mi)" by linarith
  then show ?thesis
    using len le mapped_bytes_le [OF assms] by cases auto
qed

lemma open_mapping_status: "open_mapping E a flags bytes w = ((rc, mi), w') \<Longrightarrow> rc = 0 \<or> rc = - 1"
  by (auto simp: open_mapping_def Let_def split: if_splits)

text \<open>The commands return on every behaviour of the kernel, the dump for requests that do not wrap.\<close>

lemma mmio_read_x_defined:
  assumes "page_ok E" and "flags_of info = Some fl" and "2 \<le> length argv" and "fl AND O_ACCMODE = O_RDONLY"
  shows "mmio_read_x E argv info w \<noteq> None"
proof -
  obtain rc mi w1 where o: "open_mapping E (strtoull (argv ! 1) 0) (O_RDONLY OR fl) 8 w = ((rc, mi), w1)"
    by (metis surj_pair)
  then have "rc = 0 \<or> rc = - 1" by (rule open_mapping_status)
  then show ?thesis
    using o assms(3) open_mapping_register [OF assms(1), of "strtoull (argv ! 1) 0" "O_RDONLY OR fl" w mi w1]
    by (auto simp: mmio_read_x_def assms(2) mmio_DO_READ_def load_opened [OF assms(1) _ assms(4)] split: option.splits)
qed

lemma mmio_write_x_defined:
  assumes "page_ok E" and "3 \<le> length argv"
  shows "mmio_write_x E argv info w \<noteq> None"
proof -
  obtain rc mi w1 where o: "open_mapping E (strtoull (argv ! 1) 0) O_RDWR 8 w = ((rc, mi), w1)"
    by (metis surj_pair)
  then have "rc = 0 \<or> rc = - 1" by (rule open_mapping_status)
  then show ?thesis
    using o assms(2) open_mapping_register [OF assms(1), of "strtoull (argv ! 1) 0" O_RDWR w mi w1]
    by (auto simp: mmio_write_x_def mmio_DO_WRITE_def store_opened [OF assms(1)] split: option.splits)
qed

lemma mmio_dump_defined:
  assumes "page_ok E" and "flags_of info = Some fl" and "3 \<le> length argv"
    and "unat (strtoul (argv ! 2) 0) + getpagesize E < 2 ^ 32" and "fl AND O_ACCMODE = O_RDONLY"
  shows "mmio_dump E argv info w \<noteq> None"
proof -
  let ?n = "strtoul (argv ! 2) 0"
  obtain rc mi w1 where o: "open_mapping E (strtoull (argv ! 1) 0) (O_RDONLY OR fl) (ucast ?n) w = ((rc, mi), w1)"
    by (metis surj_pair)
  then have rc: "rc = 0 \<or> rc = - 1" by (rule open_mapping_status)
  have covered: "nat (off mi) + unat ?n \<le> mapped_bytes mi" if "rc = 0"
  proof -
    have "nat (off mi) < getpagesize E"
      using open_mapping_window(3) [OF assms(1) o] page_ok_pos [OF assms(1)] by simp
    then show ?thesis
      using dump_covered_iff [OF assms(1) o [unfolded that]] assms(4) by simp
  qed
  moreover have "rc = 0 \<Longrightarrow> mapped E mi PROT_READ w1"
    using open_mapping_mapped [OF assms(1)] o by (simp add: mode_prot_rd [OF assms(5), symmetric])
  ultimately have "rc = 0 \<Longrightarrow> \<exists>w'. dump_loop E mi (nat (off mi)) (unat ?n) (strtoull (argv ! 1) 0) 0 w1 = Some w'"
    by (simp add: dump_loop_Some_iff)
  with rc o assms(2,3) covered show ?thesis
    by (auto simp: mmio_dump_def Let_def load_opened [OF assms(1) _ assms(5)])
qed

interpretation mmio: addressed_register
  mmio_ok
  "\<lambda>(E, M, winfo, rinfo, a, d). mmio_write_x E [''mmio_write'', a, d] winfo"
  "\<lambda>(E, M, winfo, rinfo, a, d). mmio_read_x E [''mmio_read'', a] rinfo"
  "\<lambda>(E, M, winfo, rinfo, a, d) k. mem_bytes (M k) (strtoull a 0) (info_bytes rinfo)"
  "\<lambda>(E, M, winfo, rinfo, a, d). le_enc (info_bytes rinfo) (strtoul d 0)"
  "\<lambda>v. ''0x'' @ hex (length v * 2) (unat (le_dec v :: u64)) @ nl"
  "\<lambda>v (E, M, winfo, rinfo, a, d). (E, M, winfo, rinfo, a, v)"
  by unfold_locales (auto simp: mmio_ok_def)

section \<open>Properties\<close>

text \<open>
  C3: the single-register commands never touch memory outside their mapping: for every address
  (also one at the end of a page, whose register reaches into the next one), every size and every
  behaviour of the kernel, \<open>mmio_read\<close> and \<open>mmio_write\<close> run to completion and leave no
  descriptor open; the protection of the mapping allows the access.  The flags in the private data
  leave the access mode alone, as those of both tables do.
\<close>
theorem mmio_no_fault:
  assumes "page_ok E" and "flags_of info = Some fl" and "fl AND O_ACCMODE = O_RDONLY" and "trace w = []"
  shows "(\<exists>rc w1. mmio_read_x E [cmd, a] info w = Some (rc, w1) \<and>
      open_fds (trace w1) = [] \<and> disciplined (trace w1)) \<and>
    (\<exists>rc w1. mmio_write_x E [cmd, a, d] info w = Some (rc, w1) \<and>
      open_fds (trace w1) = [] \<and> disciplined (trace w1))"
proof
  obtain rc w1 where "mmio_read_x E [cmd, a] info w = Some (rc, w1)"
    using mmio_read_x_defined [OF assms(1,2) _ assms(3), of "[cmd, a]" w] by auto
  then show "\<exists>rc w1. mmio_read_x E [cmd, a] info w = Some (rc, w1) \<and>
      open_fds (trace w1) = [] \<and> disciplined (trace w1)"
    using mmio_read_fds.no_leak [of E "([cmd, a], info)" w] assms(4) by auto
next
  obtain rc w1 where "mmio_write_x E [cmd, a, d] info w = Some (rc, w1)"
    using mmio_write_x_defined [OF assms(1), of "[cmd, a, d]" info w] by auto
  then show "\<exists>rc w1. mmio_write_x E [cmd, a, d] info w = Some (rc, w1) \<and>
      open_fds (trace w1) = [] \<and> disciplined (trace w1)"
    using mmio_write_fds.no_leak [of E "([cmd, a, d], info)" w] assms(4) by auto
qed

theorem mmio_no_fault_witness:
  "\<exists>rc w1. mmio_read_x memory_env [''mmio_read64'', ''0xfff''] (mmio_cmds ! 6) (init_world (\<lambda>_. 0)) =
     Some (rc, w1) \<and> open_fds (trace w1) = [] \<and> disciplined (trace w1)"
  by (rule mmio_no_fault [OF memory_env_page, where fl = O_SYNC, THEN conjunct1])
    (simp_all add: flags_of_def mmio_cmds_defs make_cmd_defs uncacheable_access_def flag_defs)

text \<open>
  C14: the window of a mapping is page-aligned, starts at most a page below the requested
  address and contains it at the offset the commands use; a request whose length does not wrap is
  covered by the mapped pages.
\<close>
theorem mmio_window:
  assumes "page_ok E" and "open_mapping E a flags bytes w = ((0, mi), w')"
  shows "unat (addr mi) mod getpagesize E = 0 \<and> addr mi + of_nat (nat (off mi)) = a \<and>
    0 \<le> off mi \<and> off mi < int (getpagesize E) \<and>
    (unat bytes + nat (off mi) < 2 ^ 32 \<longrightarrow> nat (off mi) + unat bytes \<le> mapped_bytes mi)"
  using open_mapping_window [OF assms] open_mapping_covers [OF assms] page_ok_pos [OF assms(1)]
  by auto

theorem mmio_window_witness:
  "\<exists>mi w'. open_mapping memory_env 0x12345 O_RDWR 8 (init_world (\<lambda>_. 0)) = ((0, mi), w') \<and>
     unat (addr mi) mod 4096 = 0 \<and> addr mi + of_nat (nat (off mi)) = 0x12345"
proof -
  obtain mi w' where o: "open_mapping memory_env 0x12345 O_RDWR 8 (init_world (\<lambda>_. 0)) = ((0, mi), w')"
    using open_mapping_8 [OF memory_env_page memory_env_device mapping_modes(1)] by blast
  show ?thesis
    using o mmio_window [OF memory_env_page o] by (auto simp: memory_env_def)
qed

text \<open>
  C15: scripts of write and read commands of one size at one address of ordinary memory refine the
  abstract register of that size, also when the bytes lie in two pages: what can happen is exactly the
  behaviour of a variable that holds the last value written modulo two to the number of bits.  The
  memory grants a mapping only at page-aligned offsets and in the mode its descriptor was opened with;
  the flags of the read command leave the access mode alone, as those of both tables do.
\<close>
theorem mmio_scripts:
  assumes "page_ok E" and "memory_device E M"
    and "flags_of rinfo = Some fl" and "fl AND O_ACCMODE = O_RDONLY"
    and "get_command_size winfo = Some sz" and "get_command_size rinfo = Some sz"
  shows "(\<exists>k'. script (\<lambda>d. mmio_write_x E [''mmio_write'', a, d] winfo) (mmio_read_x E [''mmio_read'', a] rinfo)
      k evs k') \<longleftrightarrow>
    evs = register_script (\<lambda>d. unat (strtoul d 0) mod 2 ^ (8 * size_bytes sz))
      (\<lambda>x. ''0x'' @ hex (2 * size_bytes sz) x @ nl)
      (unat (le_dec (mem_bytes (M k) (strtoull a 0) (size_bytes sz)) :: u64)) (map fst evs)"
proof -
  have "mmio_ok (E, M, winfo, rinfo, a, '''')" using assms by (simp add: mmio_ok_def)
  note iff = mmio.script_iff [OF this, of k evs, simplified prod.case]
  show ?thesis
    unfolding iff
    by (subst register_script_sim
        [where R = "\<lambda>bs u. length bs = size_bytes sz \<and> u = unat (le_dec bs :: u64)" and
          val' = "\<lambda>d. unat (strtoul d 0) mod 2 ^ (8 * size_bytes sz)" and
          line' = "\<lambda>x. ''0x'' @ hex (2 * size_bytes sz) x @ nl"])
      (auto simp: mem_bytes_def info_bytes_def assms(6) le_dec_enc_narrow unat_take_bit mult.commute)
qed

theorem mmio_scripts_witness:
  "\<exists>k'. script (\<lambda>d. mmio_write_x memory_env [''mmio_write'', ''0xffe'', d] (mmio_cmds ! 3))
     (mmio_read_x memory_env [''mmio_read'', ''0xffe''] (mmio_cmds ! 2)) (\<lambda>_. 0)
     [(Wr ''0x12345'', 0, ''''), (Rd, 0, ''0x2345'' @ nl)] k'"
proof -
  have "unat (strtoul ''0x12345'' 0) = 0x12345" by (simp add: strto_eval)
  moreover have "hex 4 0x2345 = ''2345''" by (simp add: print_eval)
  ultimately show ?thesis
    by (subst mmio_scripts [OF memory_env_page memory_env_device, of "mmio_cmds ! 2" O_SYNC "mmio_cmds ! 3" SIZE16])
      (auto simp: flags_of_def get_command_size_def mmio_cmds_defs make_cmd_defs uncacheable_access_def flag_defs)
qed

text \<open>
  C5: the dump command prints exactly the reference text: all complete 32-bit words and then the
  remaining bytes, four fields to a line headed by the line's address, for every non-empty range whose
  length together with the offset in its first page stays below 4 GiB; memory is left as it was.
  The flags in the private data leave the access mode alone, as those of both tables do.
\<close>
theorem mmio_dump_prints:
  assumes "page_ok E" and "memory_device E M" and "flags_of info = Some fl"
    and "0 < unat (strtoul n 0)"
    and "unat (strtoul n 0) + unat (strtoull a 0) mod getpagesize E < 2 ^ 32"
    and "fl AND O_ACCMODE = O_RDONLY"
  shows "\<exists>w'. mmio_dump E [cmd, a, n] info w = Some (0, w') \<and> M (kstate w') = M (kstate w) \<and>
    stdout w' = stdout w @ dump_text (M (kstate w)) (strtoull a 0) (unat (strtoul n 0))"
  using mmio_dump_run [OF assms] by blast

theorem mmio_dump_prints_witness:
  "\<exists>w'. mmio_dump memory_env [''mmio_dump'', ''0x10'', ''5''] (mmio_cmds ! 8) (init_world (\<lambda>a. ucast a)) = Some (0, w') \<and>
     stdout w' = ''0x0000000000000010: 0x13121110 0x14'' @ nl"
proof -
  have v: "strtoul ''5'' 0 = 5" "strtoull ''0x10'' 0 = 0x10" by (simp_all add: strto_eval)
  have h: "hex 16 16 = ''0000000000000010''" "hex 8 0x13121110 = ''13121110''" "hex 2 0x14 = ''14''"
    by (simp_all add: print_eval)
  have "dump_text (\<lambda>a. ucast a) 0x10 5 = ''0x0000000000000010: 0x13121110 0x14'' @ nl"
    by (simp add: dump_text_def fields_from_def field_text_def upt_rec h One_nat_def)
  with mmio_dump_prints [OF memory_env_page memory_env_device, of "mmio_cmds ! 8" O_SYNC "''5''" "''0x10''" "''mmio_dump''"
      "init_world (\<lambda>a. ucast a)"] v
  show ?thesis
    by (auto simp: flags_of_def mmio_cmds_defs make_cmd_defs uncacheable_access_def memory_env_def flag_defs)
qed

text \<open>
  C23: the length passed to the mapping is reduced to 32 bits: once the mapping has succeeded, the
  textual dump of a non-empty range runs to completion exactly when the range with its page offset is
  shorter than 4 GiB; a longer one walks off the end of the mapping and faults.  The flags in the
  private data leave the access mode alone, as those of both tables do.
\<close>
theorem mmio_dump_fault:
  assumes "page_ok E" and "flags_of info = Some fl" and "0 < unat (strtoul n 0)"
    and "fl AND O_ACCMODE = O_RDONLY"
    and "open_mapping E (strtoull a 0) (O_RDONLY OR fl) (ucast (strtoul n 0)) w = ((0, mi), w1)"
  shows "mmio_dump E [cmd, a, n] info w = None \<longleftrightarrow>
    2 ^ 32 \<le> unat (strtoul n 0) + unat (strtoull a 0) mod getpagesize E"
proof -
  have o: "nat (off mi) = unat (strtoull a 0) mod getpagesize E"
    using open_mapping_window(3) [OF assms(1,5)] by simp
  have mapped: "mapped E mi PROT_READ w1"
    using open_mapping_mapped [OF assms(1,5)] by (simp add: mode_prot_rd [OF assms(4)])
  have "mmio_dump E [cmd, a, n] info w = None \<longleftrightarrow>
      \<not> (\<exists>w'. dump_loop E mi (nat (off mi)) (unat (strtoul n 0)) (strtoull a 0) 0 w1 = Some w')"
    by (simp add: mmio_dump_def Let_def assms(2,5)) (auto split: bind_splits)
  also have "\<dots> \<longleftrightarrow> \<not> nat (off mi) + unat (strtoul n 0) \<le> mapped_bytes mi"
    using dump_loop_Some_iff [OF mapped] assms(3) by simp
  also have "\<dots> \<longleftrightarrow> 2 ^ 32 \<le> unat (strtoul n 0) + unat (strtoull a 0) mod getpagesize E"
    using dump_covered_iff [OF assms(1,5)] assms(3) unfolding o by auto
  finally show ?thesis .
qed

theorem mmio_dump_fault_witness:
  "mmio_dump memory_env [''mmio_dump'', ''0'', ''0x100000004''] (mmio_cmds ! 8) (init_world (\<lambda>_. 0)) = None"
proof -
  have n: "unat (strtoul ''0x100000004'' 0) = 0x100000004" by (simp add: strto_eval)
  have c: "ucast (strtoul ''0x100000004'' 0) = (4 :: u32)" by (simp add: strto_eval)
  have info: "flags_of (mmio_cmds ! 8) = Some O_SYNC"
    by (simp add: flags_of_def mmio_cmds_defs make_cmd_defs uncacheable_access_def)
  have sync: "O_SYNC AND O_ACCMODE = O_RDONLY" by (simp add: flag_defs)
  have a: "unat (strtoull ''0'' 0) = 0" by (simp add: strto_eval)
  then have "0 < (unat (ucast (strtoul ''0x100000004'' 0) :: u32) + unat (strtoull ''0'' 0) mod getpagesize memory_env) mod 2 ^ 32"
    unfolding c by simp
  from open_mapping_run [OF memory_env_page memory_env_device this, of "O_RDONLY OR O_SYNC" "init_world (\<lambda>_. 0)"]
  obtain mi w1 where o: "open_mapping memory_env (strtoull ''0'' 0) (O_RDONLY OR O_SYNC)
      (ucast (strtoul ''0x100000004'' 0)) (init_world (\<lambda>_. 0)) = ((0, mi), w1)"
    using mapping_modes(2) [OF sync] by blast
  from mmio_dump_fault [OF memory_env_page info _ sync o] show ?thesis
    using n a by simp
qed

text \<open>The files an execution opened.\<close>

definition opens :: "(extcall \<times> sysret) list \<Rightarrow> (string \<times> u32) list" where
  "opens t = concat (map (\<lambda>(c, r). case c of Open p f \<Rightarrow> [(p, f)] | _ \<Rightarrow> []) t)"

lemma opens_simps [simp]:
  "opens [] = []" "opens ((Open p f, r) # t) = (p, f) # opens t"
  "opens ((Mmap len prot fd a, r) # t) = opens t" "opens ((Munmap p' len, r) # t) = opens t"
  "opens ((Load a n, r) # t) = opens t" "opens ((Store a bs, r) # t) = opens t"
  "opens ((Close fd, r) # t) = opens t"
  by (simp_all add: opens_def)

text \<open>
  The read command of the uncacheable group opens \<^verbatim>\<open>/dev/mem\<close> with
  \<^verbatim>\<open>O_SYNC\<close>, but the write command ignores the access flags of its group: with any private
  data and any kernel it opens \<^verbatim>\<open>/dev/mem\<close> with \<^verbatim>\<open>O_RDWR\<close> only.
\<close>
theorem mmio_open_flags:
  assumes "trace w = []" and "privdata info = Mmap_file_flags uncacheable_access"
    and "mmio_read_x E rargv info w = Some (rc, w1)"
    and "mmio_write_x E wargv info w = Some (rc', w2)"
  shows "opens (trace w1) = [(''/dev/mem'', O_RDONLY OR O_SYNC)] \<and>
    opens (trace w2) = [(''/dev/mem'', O_RDWR)] \<and> O_RDWR AND O_SYNC = 0"
proof -
  have "opens (trace w1) = [(''/dev/mem'', O_RDONLY OR O_SYNC)]"
    using assms(1-3)
    by (auto simp: mmio_read_x_def open_mapping_def mmio_DO_READ_def load_def close_mapping_def
        flags_of_def uncacheable_access_def Let_def split: bind_splits if_splits option.splits)
  moreover have "opens (trace w2) = [(''/dev/mem'', O_RDWR)]"
    using assms(1,4)
    by (auto simp: mmio_write_x_def open_mapping_def mmio_DO_WRITE_def store_def close_mapping_def
        Let_def split: bind_splits if_splits option.splits)
  moreover have "O_RDWR AND O_SYNC = 0"
    by (simp add: flag_defs)
  ultimately show ?thesis by blast
qed

theorem mmio_open_flags_witness:
  "\<exists>w1 w2. mmio_read_x memory_env [''mmio_read8'', ''0''] (mmio_cmds ! 0) (init_world (\<lambda>_. 0)) = Some (0, w1) \<and>
     mmio_write_x memory_env [''mmio_write8'', ''0'', ''1''] (mmio_cmds ! 0) (init_world (\<lambda>_. 0)) = Some (0, w2) \<and>
     opens (trace w2) = [(''/dev/mem'', O_RDWR)]"
proof -
  let ?i = "mmio_cmds ! 0" and ?w = "init_world (\<lambda>_ :: u64. 0 :: u8)"
  have p: "privdata ?i = Mmap_file_flags uncacheable_access" "flags_of ?i = Some uncacheable_access"
    "get_command_size ?i = Some SIZE8"
    by (simp_all add: flags_of_def get_command_size_def mmio_cmds_defs make_cmd_defs)
  obtain w1 where r: "mmio_read_x memory_env [''mmio_read8'', ''0''] ?i ?w = Some (0, w1)"
    using mmio_read_run [OF memory_env_page memory_env_device p(2,3)] by (simp add: uncacheable_access_def flag_defs) blast
  obtain w2 where v: "mmio_write_x memory_env [''mmio_write8'', ''0'', ''1''] ?i ?w = Some (0, w2)"
    using mmio_write_run [OF memory_env_page memory_env_device p(3)] by blast
  from mmio_open_flags [OF _ p(1) r v] r v show ?thesis by simp
qed

end
