(* ===== verification/I2c_dev.thy ===== *)
theory I2c_dev
  imports Syscalls
begin

text \<open>
  The SMBus access functions of \<^verbatim>\<open>src/linux-i2c-dev.h\<close>: each fills an
  \<^verbatim>\<open>i2c_smbus_ioctl_data\<close> block and issues one \<^verbatim>\<open>I2C_SMBUS\<close> request.  The data
  union passed to the kernel is given by the bytes the function stored in it (the rest of the union is
  not initialised and not part of the request); what the kernel stored in it is the buffer of the
  answer.  Block functions copy between the union (35 bytes) and an array of the caller; an index
  outside either is undefined behaviour.
\<close>

section \<open>Constants\<close>

definition I2C_SMBUS_BLOCK_MAX :: nat where "I2C_SMBUS_BLOCK_MAX = 32"
definition I2C_SMBUS_READ :: u8 where "I2C_SMBUS_READ = 1"
definition I2C_SMBUS_WRITE :: u8 where "I2C_SMBUS_WRITE = 0"

definition I2C_SMBUS_QUICK :: int where "I2C_SMBUS_QUICK = 0"
definition I2C_SMBUS_BYTE :: int where "I2C_SMBUS_BYTE = 1"
definition I2C_SMBUS_BYTE_DATA :: int where "I2C_SMBUS_BYTE_DATA = 2"
definition I2C_SMBUS_WORD_DATA :: int where "I2C_SMBUS_WORD_DATA = 3"
definition I2C_SMBUS_PROC_CALL :: int where "I2C_SMBUS_PROC_CALL = 4"
definition I2C_SMBUS_BLOCK_DATA :: int where "I2C_SMBUS_BLOCK_DATA = 5"
definition I2C_SMBUS_BLOCK_PROC_CALL :: int where "I2C_SMBUS_BLOCK_PROC_CALL = 7"
definition I2C_SMBUS_I2C_BLOCK_DATA :: int where "I2C_SMBUS_I2C_BLOCK_DATA = 8"

definition I2C_SLAVE :: u32 where "I2C_SLAVE = 0x0703"
definition I2C_SLAVE_FORCE :: u32 where "I2C_SLAVE_FORCE = 0x0706"
definition I2C_RDWR :: u32 where "I2C_RDWR = 0x0707"
definition I2C_SMBUS :: u32 where "I2C_SMBUS = 0x0720"
definition I2C_M_RD :: u16 where "I2C_M_RD = 1"

section \<open>One request\<close>

definition i2c_smbus_access ::
    "'k env \<Rightarrow> int \<Rightarrow> u8 \<Rightarrow> u8 \<Rightarrow> int \<Rightarrow> u8 list option \<Rightarrow> 'k world \<Rightarrow> 'k world" where
  "i2c_smbus_access E file read_write command sz data w =
     sys E (Ioctl file I2C_SMBUS (Smbus_args read_write command sz data)) w"

text \<open>The functions return their value with the new world.\<close>

definition i2c_smbus_write_quick :: "'k env \<Rightarrow> int \<Rightarrow> u8 \<Rightarrow> 'k world \<Rightarrow> int \<times> 'k world" where
  "i2c_smbus_write_quick E file value w =
     (let w = i2c_smbus_access E file value 0 I2C_SMBUS_QUICK None w in (rv w, w))"

definition i2c_smbus_read_byte :: "'k env \<Rightarrow> int \<Rightarrow> 'k world \<Rightarrow> int \<times> 'k world" where
  "i2c_smbus_read_byte E file w =
     (let w = i2c_smbus_access E file I2C_SMBUS_READ 0 I2C_SMBUS_BYTE (Some []) w in
      if rv w \<noteq> 0 then (- 1, w) else (int (unat (buf (res w) 0)), w))"

definition i2c_smbus_write_byte :: "'k env \<Rightarrow> int \<Rightarrow> u8 \<Rightarrow> 'k world \<Rightarrow> int \<times> 'k world" where
  "i2c_smbus_write_byte E file value w =
     (let w = i2c_smbus_access E file I2C_SMBUS_WRITE value I2C_SMBUS_BYTE None w in (rv w, w))"

definition i2c_smbus_read_byte_data :: "'k env \<Rightarrow> int \<Rightarrow> u8 \<Rightarrow> 'k world \<Rightarrow> int \<times> 'k world" where
  "i2c_smbus_read_byte_data E file command w =
     (let w = i2c_smbus_access E file I2C_SMBUS_READ command I2C_SMBUS_BYTE_DATA (Some []) w in
      if rv w \<noteq> 0 then (- 1, w) else (int (unat (buf (res w) 0)), w))"

definition i2c_smbus_write_byte_data ::
    "'k env \<Rightarrow> int \<Rightarrow> u8 \<Rightarrow> u8 \<Rightarrow> 'k world \<Rightarrow> int \<times> 'k world" where
  "i2c_smbus_write_byte_data E file command value w =
     (let w = i2c_smbus_access E file I2C_SMBUS_WRITE command I2C_SMBUS_BYTE_DATA (Some [value]) w in
      (rv w, w))"

definition i2c_smbus_read_word_data :: "'k env \<Rightarrow> int \<Rightarrow> u8 \<Rightarrow> 'k world \<Rightarrow> int \<times> 'k world" where
  "i2c_smbus_read_word_data E file command w =
     (let w = i2c_smbus_access E file I2C_SMBUS_READ command I2C_SMBUS_WORD_DATA (Some []) w in
      if rv w \<noteq> 0 then (- 1, w) else (int (unat (le_dec (rdbuf 2 w) :: u16)), w))"

definition i2c_smbus_write_word_data ::
    "'k env \<Rightarrow> int \<Rightarrow> u8 \<Rightarrow> u16 \<Rightarrow> 'k world \<Rightarrow> int \<times> 'k world" where
  "i2c_smbus_write_word_data E file command value w =
     (let w = i2c_smbus_access E file I2C_SMBUS_WRITE command I2C_SMBUS_WORD_DATA
                (Some (le_enc 2 value)) w
      in (rv w, w))"

definition i2c_smbus_process_call ::
    "'k env \<Rightarrow> int \<Rightarrow> u8 \<Rightarrow> u16 \<Rightarrow> 'k world \<Rightarrow> int \<times> 'k world" where
  "i2c_smbus_process_call E file command value w =
     (let w = i2c_smbus_access E file I2C_SMBUS_WRITE command I2C_SMBUS_PROC_CALL
                (Some (le_enc 2 value)) w
      in if rv w \<noteq> 0 then (- 1, w) else (int (unat (le_dec (rdbuf 2 w) :: u16)), w))"

section \<open>Blocks\<close>

text \<open>
  \<^verbatim>\<open>for (i = 1; i <= data.block[0]; i++) values[i-1] = data.block[i];\<close> from index
  \<open>i\<close> on, and the copy in the other direction, as the bytes it leaves in
  \<^verbatim>\<open>data.block[1]\<close> and the following.
\<close>

function copy_from_block :: "nat \<Rightarrow> nat \<Rightarrow> (nat \<Rightarrow> u8) \<Rightarrow> u8 list \<Rightarrow> u8 list option" where
  "copy_from_block i n block values =
     (if n < i then Some values
      else if i < I2C_SMBUS_BLOCK_MAX + 3 \<and> i - 1 < length values
        then copy_from_block (i + 1) n block (values[i - 1 := block i])
      else None)"
  by pat_completeness auto
termination
  by (relation "measure (\<lambda>(i, n, block, values). n + 1 - i)") auto

declare copy_from_block.simps [simp del]

function copy_to_block :: "nat \<Rightarrow> nat \<Rightarrow> u8 list \<Rightarrow> u8 list option" where
  "copy_to_block i n values =
     (if n < i then Some []
      else if i < I2C_SMBUS_BLOCK_MAX + 3 \<and> i - 1 < length values
        then map_option ((#) (values ! (i - 1))) (copy_to_block (i + 1) n values)
      else None)"
  by pat_completeness auto
termination
  by (relation "measure (\<lambda>(i, n, values). n + 1 - i)") auto

declare copy_to_block.simps [simp del]

definition clamp_length :: "u8 \<Rightarrow> u8" where
  "clamp_length len = (if len > 32 then 32 else len)"

text \<open>The block functions return the value, the caller's array and the world.\<close>

definition i2c_smbus_read_block_data ::
    "'k env \<Rightarrow> int \<Rightarrow> u8 \<Rightarrow> u8 list \<Rightarrow> 'k world \<Rightarrow> ('k, int \<times> u8 list) result" where
  "i2c_smbus_read_block_data E file command values w =
     (let w = i2c_smbus_access E file I2C_SMBUS_READ command I2C_SMBUS_BLOCK_DATA (Some []) w in
      if rv w \<noteq> 0 then Some ((- 1, values), w)
      else do {
        let n = unat (buf (res w) 0);
        values \<leftarrow> copy_from_block 1 n (buf (res w)) values;
        Some ((int n, values), w)
      })"

definition i2c_smbus_write_block_data ::
    "'k env \<Rightarrow> int \<Rightarrow> u8 \<Rightarrow> u8 \<Rightarrow> u8 list \<Rightarrow> 'k world \<Rightarrow> ('k, int) result" where
  "i2c_smbus_write_block_data E file command len values w = do {
     let len = clamp_length len;
     block \<leftarrow> copy_to_block 1 (unat len) values;
     let w = i2c_smbus_access E file I2C_SMBUS_WRITE command I2C_SMBUS_BLOCK_DATA
               (Some (len # block)) w;
     Some (rv w, w)
   }"

definition i2c_smbus_read_i2c_block_data ::
    "'k env \<Rightarrow> int \<Rightarrow> u8 \<Rightarrow> u8 \<Rightarrow> u8 list \<Rightarrow> 'k world \<Rightarrow> ('k, int \<times> u8 list) result" where
  "i2c_smbus_read_i2c_block_data E file command len values w =
     (let len = clamp_length len;
          w = i2c_smbus_access E file I2C_SMBUS_READ command I2C_SMBUS_I2C_BLOCK_DATA (Some [len]) w
      in if rv w \<noteq> 0 then Some ((- 1, values), w)
         else do {
           let n = unat (buf (res w) 0);
           values \<leftarrow> copy_from_block 1 n (buf (res w)) values;
           Some ((int n, values), w)
         })"

definition i2c_smbus_write_i2c_block_data ::
    "'k env \<Rightarrow> int \<Rightarrow> u8 \<Rightarrow> u8 \<Rightarrow> u8 list \<Rightarrow> 'k world \<Rightarrow> ('k, int) result" where
  "i2c_smbus_write_i2c_block_data E file command len values w = do {
     let len = clamp_length len;
     block \<leftarrow> copy_to_block 1 (unat len) values;
     let w = i2c_smbus_access E file I2C_SMBUS_WRITE command I2C_SMBUS_I2C_BLOCK_DATA
               (Some (len # block)) w;
     Some (rv w, w)
   }"

definition i2c_smbus_block_process_call ::
    "'k env \<Rightarrow> int \<Rightarrow> u8 \<Rightarrow> u8 \<Rightarrow> u8 list \<Rightarrow> 'k world \<Rightarrow> ('k, int \<times> u8 list) result" where
  "i2c_smbus_block_process_call E file command len values w = do {
     let len = clamp_length len;
     block \<leftarrow> copy_to_block 1 (unat len) values;
     let w = i2c_smbus_access E file I2C_SMBUS_WRITE command I2C_SMBUS_BLOCK_PROC_CALL
               (Some (len # block)) w;
     if rv w \<noteq> 0 then Some ((- 1, values), w)
     else do {
       let n = unat (buf (res w) 0);
       values \<leftarrow> copy_from_block 1 n (buf (res w)) values;
       Some ((int n, values), w)
     }
   }"

lemmas i2c_defs = i2c_smbus_access_def i2c_smbus_write_quick_def i2c_smbus_read_byte_def
  i2c_smbus_write_byte_def i2c_smbus_read_byte_data_def i2c_smbus_write_byte_data_def
  i2c_smbus_read_word_data_def i2c_smbus_write_word_data_def i2c_smbus_process_call_def
  i2c_smbus_read_block_data_def i2c_smbus_write_block_data_def i2c_smbus_read_i2c_block_data_def
  i2c_smbus_write_i2c_block_data_def i2c_smbus_block_process_call_def

section \<open>The copies\<close>

lemma copy_from_block_closed:
  assumes "n \<le> 34" and "n \<le> length vs" and "1 \<le> i"
  shows "copy_from_block i n block vs =
    Some (take (i - 1) vs @ map block [i..<n + 1] @ drop (max n (i - 1)) vs)"
  using assms(2,3)
proof (induction "n + 1 - i" arbitrary: i vs)
  case 0
  then show ?case
    by (subst copy_from_block.simps) (auto simp: max_def)
next
  case (Suc x)
  then have i: "i \<le> n" by simp
  have "copy_from_block i n block vs = copy_from_block (i + 1) n block (vs[i - 1 := block i])"
    using i Suc.prems assms(1) by (subst copy_from_block.simps) (auto simp: I2C_SMBUS_BLOCK_MAX_def)
  also have "\<dots> = Some (take i (vs[i - 1 := block i]) @ map block [i + 1..<n + 1] @
      drop (max n i) (vs[i - 1 := block i]))"
    using Suc.hyps(1) [of "i + 1" "vs[i - 1 := block i]"] Suc.hyps(2) Suc.prems i by simp
  also have "take i (vs[i - 1 := block i]) = take (i - 1) vs @ [block i]"
  proof -
    have "i = Suc (i - 1)" and "i - 1 < length vs" using i Suc.prems by auto
    then show ?thesis
      by (metis take_Suc_conv_app_nth length_list_update nth_list_update_eq take_update_cancel order_refl)
  qed
  also have "drop (max n i) (vs[i - 1 := block i]) = drop (max n (i - 1)) vs"
  proof -
    have "max n i = n" "max n (i - 1) = n" "i - 1 < n" using i Suc.prems by auto
    then show ?thesis by simp
  qed
  finally show ?case
    using i by (simp add: upt_conv_Cons Suc_eq_plus1)
qed

lemma copy_to_block_closed:
  assumes "n \<le> 34" and "n \<le> length vs" and "1 \<le> i"
  shows "copy_to_block i n vs = Some (drop (i - 1) (take n vs))"
  using assms(3)
proof (induction "n + 1 - i" arbitrary: i)
  case 0
  then show ?case
    by (subst copy_to_block.simps) auto
next
  case (Suc x)
  then have i: "i \<le> n" by simp
  have "copy_to_block i n vs = map_option ((#) (vs ! (i - 1))) (copy_to_block (i + 1) n vs)"
    using i Suc.prems assms by (subst copy_to_block.simps) (auto simp: I2C_SMBUS_BLOCK_MAX_def)
  also have "copy_to_block (i + 1) n vs = Some (drop i (take n vs))"
    using Suc.hyps(1) [of "i + 1"] Suc.hyps(2) by simp
  finally show ?case
    using i Suc.prems assms(2)
    by (simp add: Cons_nth_drop_Suc [symmetric, of "i - 1" "take n vs"])
qed

lemma copy_from_block_overflow:
  assumes "34 < n" and "length vs \<le> 34" and "1 \<le> i" and "i \<le> 35"
  shows "copy_from_block i n block vs = None"
  using assms(2-4)
proof (induction "35 - i" arbitrary: i vs)
  case 0
  with assms(1) show ?case
    by (subst copy_from_block.simps) (auto simp: I2C_SMBUS_BLOCK_MAX_def)
next
  case (Suc x)
  have "copy_from_block (i + 1) n block (vs[i - 1 := block i]) = None"
    using Suc.hyps(1) [of "i + 1" "vs[i - 1 := block i]"] Suc.hyps(2) Suc.prems by simp
  with Suc.hyps(2) assms(1) show ?case
    by (subst copy_from_block.simps) auto
qed

text \<open>A block of at most 34 bytes is copied to the front of the caller's array, a longer one overruns it.\<close>

lemma copy_block:
  assumes "length vs = 34"
  shows "copy_from_block 1 n block vs =
    (if n \<le> 34 then Some (map block [1..<n + 1] @ drop n vs) else None)"
  using assms copy_from_block_closed [of n vs 1 block] copy_from_block_overflow [of n vs 1 block]
  by auto

lemma copy_to_block_take:
  assumes "n \<le> 34" and "n \<le> length vs"
  shows "copy_to_block 1 n vs = Some (take n vs)"
  using copy_to_block_closed [OF assms, of 1] by simp

lemma clamp_length_le: "unat (clamp_length len) \<le> 32"
  by (auto simp: clamp_length_def word_less_nat_alt)

end
