(* ===== verification/Smbus_rw.thy ===== *)
theory Smbus_rw
  imports Commands I2c_dev
begin

text \<open>
  The SMBus commands, \<^verbatim>\<open>src/smbus_rw.c\<close>: parsing of the adapter, address, register and data
  arguments, opening of the adapter's device, one transaction, printing of what was read.
  The union \<^verbatim>\<open>SMBUS_DTYPE\<close> is its byte array of 34 bytes; a fixed-width member is its
  little-endian image at the front.  The entry points declare a \<^verbatim>\<open>smbus_op_params\<close> on the
  stack without initialising it: its contents are the parameter \<open>junk\<close>.
\<close>

section \<open>Data\<close>

record smbus_op_params =
  fd :: int
  reg :: u8
  i2c_bus :: u8
  address :: u8
  read_count :: u8
  len :: int
  data :: "u8 list"

definition DTYPE_SIZE :: nat where
  "DTYPE_SIZE = I2C_SMBUS_BLOCK_MAX + 2"

text \<open>Reading and writing the first \<open>n\<close> bytes of the union as an integer.\<close>

definition fixed :: "nat \<Rightarrow> u8 list \<Rightarrow> u64" where
  "fixed n arr = le_dec (take n arr)"

definition set_fixed :: "nat \<Rightarrow> u64 \<Rightarrow> u8 list \<Rightarrow> u8 list" where
  "set_fixed n v arr = le_enc n v @ drop n arr"

section \<open>Opening a slave\<close>

definition devfile :: "u8 \<Rightarrow> string" where
  "devfile bus = ''/dev/i2c-'' @ dec_nat (unat bus)"

definition open_i2c_slave :: "'k env \<Rightarrow> u8 \<Rightarrow> u8 \<Rightarrow> 'k world \<Rightarrow> int \<times> 'k world" where
  "open_i2c_slave E bus slave_address w =
     (let w = sys E (Open (devfile bus) O_RDWR) w;
          f = rv w
      in if f < 0 then
           (- 1, eprintf (''Couldn't open i2c device file: '' @ perr E w @ nl) w)
         else
           (let w = sys E (Ioctl f I2C_SLAVE (Slave_address slave_address)) w in
            if rv w < 0 then
              (- 1, sys E (Close f) (eprintf (''Could not attach to i2c bus '' @ dec_nat (unat bus) @
                 '' slave address '' @ dec_nat (unat slave_address) @ '': '' @ perr E w @ nl) w))
            else (f, w)))"

section \<open>Parsing\<close>

definition istrailingjunk :: "string \<Rightarrow> string \<Rightarrow> 'k world \<Rightarrow> int \<times> 'k world" where
  "istrailingjunk arg end' w =
     (if end' \<noteq> '''' then (- 1, eprintf (arg @ '': is followed by junk'' @ nl) w) else (0, w))"

definition ismaxortrailingjunk :: "string \<Rightarrow> string \<Rightarrow> u64 \<Rightarrow> 'k world \<Rightarrow> int \<times> 'k world" where
  "ismaxortrailingjunk arg end' ldata w =
     (if ldata = word_of_int LONG_MAX then (- 1, eprintf (arg @ '': is LONG_MAX'' @ nl) w)
      else istrailingjunk arg end' w)"

text \<open>\<open>Some v\<close> when the C function stored \<open>v\<close> and returned 0, \<open>None\<close> when it returned -1.\<close>

definition parse_uint8_base :: "string \<Rightarrow> nat \<Rightarrow> 'k world \<Rightarrow> u8 option \<times> 'k world" where
  "parse_uint8_base arg base w =
     (let (ldata, end') = strtoul_end arg base;
          (rc, w) = ismaxortrailingjunk arg end' ldata w
      in if rc \<noteq> 0 then (None, w)
         else if ldata > 0xff then (None, eprintf (arg @ '': won't fit in a byte'' @ nl) w)
         else (Some (ucast ldata), w))"

definition parse_uint8 :: "string \<Rightarrow> 'k world \<Rightarrow> u8 option \<times> 'k world" where
  "parse_uint8 arg w = parse_uint8_base arg 0 w"

definition parse_uint8_hex :: "string \<Rightarrow> 'k world \<Rightarrow> u8 option \<times> 'k world" where
  "parse_uint8_hex arg w = parse_uint8_base arg 16 w"

text \<open>
  The loop over nibble pairs: \<open>i\<close> is the index of \<open>dest\<close> in the array.  With a single character
  left, the second one is the terminating NUL and the source pointer steps over it.
\<close>

fun parse_bytes :: "string \<Rightarrow> nat \<Rightarrow> u8 list \<Rightarrow> 'k world \<Rightarrow> ('k, int \<times> u8 list) result" where
  "parse_bytes [] i arr w = Some ((0, arr), w)"
| "parse_bytes [c] i arr w =
     (case parse_uint8_hex [c] w of
        (None, w) \<Rightarrow> Some ((- 1, arr), w)
      | (Some v, w) \<Rightarrow> None)"
| "parse_bytes (c # d # src) i arr w =
     (case parse_uint8_hex [c, d] w of
        (None, w) \<Rightarrow> Some ((- 1, arr), w)
      | (Some v, w) \<Rightarrow> if i < length arr then parse_bytes src (i + 1) (arr[i := v]) w else None)"

definition parse_block ::
    "string \<Rightarrow> smbus_op_params \<Rightarrow> 'k world \<Rightarrow> ('k, int \<times> smbus_op_params) result" where
  "parse_block arg ps w =
     (let n = length arg in
      if n \<le> 0 \<or> n mod 2 \<noteq> 0 then
        Some ((- 1, ps), eprintf (''data length ('' @ dec_nat n @ '') is 0 or odd'' @ nl) w)
      else
        (let prefixed = (arg ! 0 = CHR ''0'' \<and> (arg ! 1 = CHR ''x'' \<or> arg ! 1 = CHR ''X''));
             src = (if prefixed then drop 2 arg else arg);
             n = (if prefixed then n - 2 else n)
         in if n div 2 > I2C_SMBUS_BLOCK_MAX then
              Some ((- 1, ps), eprintf (''data has more than '' @ dec_nat I2C_SMBUS_BLOCK_MAX @ '' bytes'' @ nl) w)
            else do {
              ((rc, arr), w) \<leftarrow> parse_bytes src 0 (data ps) w;
              if rc \<noteq> 0 then Some ((- 1, ps\<lparr>data := arr\<rparr>), w)
              else Some ((0, ps\<lparr>data := arr, len := int (n div 2)\<rparr>), w)
            }))"

definition parse_io_width ::
    "string \<Rightarrow> smbus_op_params \<Rightarrow> smbus_op \<Rightarrow> 'k world \<Rightarrow> ('k, int \<times> smbus_op_params) result" where
  "parse_io_width arg ps op w =
     (let ps = ps\<lparr>data := replicate DTYPE_SIZE 0\<rparr>;
          (ldata, end') = strtoul_end arg 0;
          store = (\<lambda>n. ps\<lparr>data := set_fixed n ldata (data ps)\<rparr>)
      in case op_size op of
           SMBUS_QUICK \<Rightarrow>
             (case ismaxortrailingjunk arg end' ldata w of (rc, w) \<Rightarrow>
                if rc \<noteq> 0 then Some ((- 1, ps), w)
                else if ldata \<noteq> 0 \<and> ldata \<noteq> 1 then
                  Some ((- 1, ps), eprintf (arg @ '': isn't 0 or 1'' @ nl) w)
                else Some ((0, store 1), w))
         | SMBUS_SIZE_BYTE \<Rightarrow>
             (case ismaxortrailingjunk arg end' ldata w of (rc, w) \<Rightarrow>
                if rc \<noteq> 0 then Some ((- 1, ps), w) else Some ((0, store 1), w))
         | SMBUS_SIZE_8 \<Rightarrow>
             (case ismaxortrailingjunk arg end' ldata w of (rc, w) \<Rightarrow>
                if rc \<noteq> 0 then Some ((- 1, ps), w) else Some ((0, store 1), w))
         | SMBUS_SIZE_16 \<Rightarrow>
             (case ismaxortrailingjunk arg end' ldata w of (rc, w) \<Rightarrow>
                if rc \<noteq> 0 then Some ((- 1, ps), w) else Some ((0, store 2), w))
         | SMBUS_PROC_CALL \<Rightarrow>
             (case ismaxortrailingjunk arg end' ldata w of (rc, w) \<Rightarrow>
                if rc \<noteq> 0 then Some ((- 1, ps), w) else Some ((0, store 2), w))
         | SMBUS_SIZE_32 \<Rightarrow>
             (case istrailingjunk arg end' w of (rc, w) \<Rightarrow>
                if rc \<noteq> 0 then Some ((- 1, ps), w) else Some ((0, store 4), w))
         | SMBUS_SIZE_64 \<Rightarrow>
             (case istrailingjunk arg end' w of (rc, w) \<Rightarrow>
                if rc \<noteq> 0 then Some ((- 1, ps), w) else Some ((0, store 8), w))
         | SMBUS_SIZE_BLOCK \<Rightarrow> parse_block arg ps w
         | SMBUS_BLOCK_PROC_CALL \<Rightarrow> parse_block arg ps w
         | SMBUS_WRITE_READ \<Rightarrow> parse_block arg ps w)"

section \<open>Printing\<close>

definition print_read_data :: "SMBUS_SIZE \<Rightarrow> int \<Rightarrow> u8 list \<Rightarrow> 'k world \<Rightarrow> 'k world" where
  "print_read_data sz read_block_size arr w =
     (case sz of
        SMBUS_SIZE_BYTE \<Rightarrow> printf (''0x'' @ HEX 2 (unat (fixed 1 arr)) @ nl) w
      | SMBUS_SIZE_8 \<Rightarrow> printf (''0x'' @ HEX 2 (unat (fixed 1 arr)) @ nl) w
      | SMBUS_SIZE_16 \<Rightarrow> printf (''0x'' @ HEX 4 (unat (fixed 2 arr)) @ nl) w
      | SMBUS_SIZE_32 \<Rightarrow> printf (''0x'' @ HEX 8 (unat (fixed 4 arr)) @ nl) w
      | SMBUS_SIZE_64 \<Rightarrow> printf (''0x'' @ HEX 16 (unat (fixed 8 arr)) @ nl) w
      | SMBUS_SIZE_BLOCK \<Rightarrow>
          (let n = (if read_block_size > int I2C_SMBUS_BLOCK_MAX then int I2C_SMBUS_BLOCK_MAX
                    else read_block_size)
           in printf (concat (map (\<lambda>i. HEX 2 (unat (arr ! i))) [0..<nat n]) @ nl) w)
      | _ \<Rightarrow> w)"

section \<open>The transactions\<close>

definition smbus_read_op ::
    "'k env \<Rightarrow> smbus_op_params \<Rightarrow> smbus_op \<Rightarrow> 'k world \<Rightarrow> ('k, int) result" where
  "smbus_read_op E ps op w =
     (let f = fd ps; r = reg ps; zero = replicate DTYPE_SIZE 0 in do {
        (answer, w) \<leftarrow> (case op_size op of
           SMBUS_SIZE_8 \<Rightarrow> (case i2c_smbus_read_byte_data E f r w of (result, w) \<Rightarrow>
             Some (Some (result, set_fixed 1 (word_of_int result) zero), w))
         | SMBUS_SIZE_16 \<Rightarrow> (case i2c_smbus_read_word_data E f r w of (result, w) \<Rightarrow>
             Some (Some (result, set_fixed 2 (word_of_int result) zero), w))
         | SMBUS_SIZE_32 \<Rightarrow> do {
             ((result, arr), w) \<leftarrow> i2c_smbus_read_i2c_block_data E f r 4 zero w;
             Some (Some (if result \<noteq> 4 then - 1 else result, arr), w) }
         | SMBUS_SIZE_64 \<Rightarrow> do {
             ((result, arr), w) \<leftarrow> i2c_smbus_read_i2c_block_data E f r 8 zero w;
             Some (Some (if result \<noteq> 8 then - 1 else result, arr), w) }
         | SMBUS_SIZE_BLOCK \<Rightarrow> do {
             ((result, arr), w) \<leftarrow> i2c_smbus_read_block_data E f r zero w;
             Some (Some (result, arr), w) }
         | SMBUS_SIZE_BYTE \<Rightarrow> (case i2c_smbus_read_byte E f w of (result, w) \<Rightarrow>
             Some (Some (result, set_fixed 1 (word_of_int result) zero), w))
         | _ \<Rightarrow> Some (None, eprintf (''Illegal SMBus size for read operation.'' @ nl) w));
        (case answer of
           None \<Rightarrow> Some (- 1, w)
         | Some (result, arr) \<Rightarrow>
             if result < 0 then
               Some (- 1, if op_size op \<noteq> SMBUS_SIZE_BYTE
                 then eprintf (''can't read register 0x'' @ HEX 2 (unat r) @ '', '' @ perr E w @ nl) w
                 else eprintf (''can't read from device 0x'' @ HEX 2 (unat (address ps)) @ '', '' @
                        perr E w @ nl) w)
             else Some (0, print_read_data (op_size op) result arr w))
      })"

definition smbus_write_op ::
    "'k env \<Rightarrow> smbus_op_params \<Rightarrow> smbus_op \<Rightarrow> 'k world \<Rightarrow> ('k, int) result" where
  "smbus_write_op E ps op w =
     (let f = fd ps; r = reg ps; arr = data ps;
          w = sys E (Ioctl f I2C_SLAVE_FORCE (Slave_address (address ps))) w
      in if rv w < 0 then
           Some (- 1, eprintf (''can't set address 0x'' @ HEX 2 (unat (address ps)) @ '', '' @
             perr E w @ nl) w)
         else do {
           (answer, w) \<leftarrow> (case op_size op of
              SMBUS_SIZE_8 \<Rightarrow> (case i2c_smbus_write_byte_data E f r (ucast (fixed 1 arr)) w of (result, w) \<Rightarrow>
                Some (Some result, w))
            | SMBUS_SIZE_16 \<Rightarrow> (case i2c_smbus_write_word_data E f r (ucast (fixed 2 arr)) w of (result, w) \<Rightarrow>
                Some (Some result, w))
            | SMBUS_SIZE_32 \<Rightarrow> do {
                (result, w) \<leftarrow> i2c_smbus_write_i2c_block_data E f r 4 arr w;
                Some (Some result, w) }
            | SMBUS_SIZE_64 \<Rightarrow> do {
                (result, w) \<leftarrow> i2c_smbus_write_i2c_block_data E f r 8 arr w;
                Some (Some result, w) }
            | SMBUS_SIZE_BLOCK \<Rightarrow> do {
                (result, w) \<leftarrow> i2c_smbus_write_block_data E f r (word_of_int (len ps)) arr w;
                Some (Some result, w) }
            | SMBUS_SIZE_BYTE \<Rightarrow> (case i2c_smbus_write_byte E f (ucast (fixed 1 arr)) w of (result, w) \<Rightarrow>
                Some (Some result, w))
            | SMBUS_QUICK \<Rightarrow> (case i2c_smbus_write_quick E f (ucast (fixed 1 arr)) w of (result, w) \<Rightarrow>
                Some (Some result, w))
            | _ \<Rightarrow> Some (None, eprintf (''Illegal SMBus size for write operation.'' @ nl) w));
           (case answer of
              None \<Rightarrow> Some (- 1, w)
            | Some result \<Rightarrow>
                if result < 0 then
                  Some (- 1, if op_size op \<noteq> SMBUS_SIZE_BYTE \<and> op_size op \<noteq> SMBUS_QUICK
                    then eprintf (''can't write register 0x'' @ HEX 2 (unat r) @ '', '' @ perr E w @ nl) w
                    else eprintf (''can't write to device 0x'' @ HEX 2 (unat (address ps)) @ '', '' @
                           perr E w @ nl) w)
                else Some (0, w))
         })"

definition smbus_process_call_op ::
    "'k env \<Rightarrow> smbus_op_params \<Rightarrow> smbus_op \<Rightarrow> 'k world \<Rightarrow> ('k, int) result" where
  "smbus_process_call_op E ps op w =
     (let w = sys E (Ioctl (fd ps) I2C_SLAVE_FORCE (Slave_address (address ps))) w in
      if rv w < 0 then
        Some (- 1, eprintf (''can't set address 0x'' @ HEX 2 (unat (address ps)) @ '', '' @
          perr E w @ nl) w)
      else (case i2c_smbus_process_call E (fd ps) (reg ps) (ucast (fixed 2 (data ps))) w of (result, w) \<Rightarrow>
        if result < 0 then
          Some (- 1, eprintf (''SMBUS Process call failed: '' @ perr E w @ ''.'' @ nl) w)
        else Some (0, print_read_data SMBUS_SIZE_16 0 (data ps) w)))"

definition smbus_block_process_call_op ::
    "'k env \<Rightarrow> smbus_op_params \<Rightarrow> smbus_op \<Rightarrow> 'k world \<Rightarrow> ('k, int) result" where
  "smbus_block_process_call_op E ps op w =
     (let w = sys E (Ioctl (fd ps) I2C_SLAVE_FORCE (Slave_address (address ps))) w in
      if rv w < 0 then
        Some (- 1, eprintf (''can't set address 0x'' @ HEX 2 (unat (address ps)) @ '', '' @
          perr E w @ nl) w)
      else do {
        ((read_block_size, arr), w) \<leftarrow>
           i2c_smbus_block_process_call E (fd ps) (reg ps) (word_of_int (len ps)) (data ps) w;
        if read_block_size < 0 then
          Some (- 1, eprintf (''SMBUS Process call failed: '' @ perr E w @ ''.'' @ nl) w)
        else Some (0, print_read_data SMBUS_SIZE_BLOCK read_block_size arr w)
      })"

text \<open>
  Both messages use the parameters' array: the kernel reads the bytes of the first from it and fills it
  with those of the second.  A message longer than the array makes the kernel access memory outside
  it, which is undefined.  The length of a message is a \<^verbatim>\<open>short\<close>.
\<close>

definition smbus_writeread_op ::
    "'k env \<Rightarrow> smbus_op_params \<Rightarrow> smbus_op \<Rightarrow> 'k world \<Rightarrow> ('k, int) result" where
  "smbus_writeread_op E ps op w =
     (let n = unat (read_count ps);
          m = sint (word_of_int (len ps) :: u16);
          msgs = [(ucast (address ps), 0, m, take (nat m) (data ps)),
                  (ucast (address ps), I2C_M_RD, int n, [])]
      in if n > length (data ps) \<or> nat m > length (data ps) then None
         else
           (let w = sys E (Ioctl (fd ps) I2C_RDWR (Rdwr_msgs msgs)) w in
            if rv w < 0 then Some (- 1, eprintf (''I2C_RDWR failed: '' @ perr E w @ nl) w)
            else Some (0, print_read_data SMBUS_SIZE_BLOCK (int n) (rdbuf n w @ drop n (data ps)) w)))"

definition run_perform_op ::
    "'k env \<Rightarrow> smbus_op_params \<Rightarrow> smbus_op \<Rightarrow> 'k world \<Rightarrow> ('k, int) result" where
  "run_perform_op E ps op w =
     (case perform_op op of
        P_smbus_read_op \<Rightarrow> smbus_read_op E ps op w
      | P_smbus_write_op \<Rightarrow> smbus_write_op E ps op w
      | P_smbus_process_call_op \<Rightarrow> smbus_process_call_op E ps op w
      | P_smbus_block_process_call_op \<Rightarrow> smbus_block_process_call_op E ps op w
      | P_smbus_writeread_op \<Rightarrow> smbus_writeread_op E ps op w)"

section \<open>The entry points\<close>

definition smbus_prologue ::
    "'k env \<Rightarrow> string list \<Rightarrow> smbus_op_params \<Rightarrow> smbus_op \<Rightarrow> 'k world \<Rightarrow>
      ('k, int \<times> smbus_op_params) result" where
  "smbus_prologue E argv ps op w = do {
     a1 \<leftarrow> argp argv 1;
     (case parse_uint8 a1 w of
        (None, w) \<Rightarrow> Some ((- 1, ps), eprintf (''invalid adapter value'' @ nl) w)
      | (Some bus, w) \<Rightarrow> do {
          let ps = ps\<lparr>i2c_bus := bus\<rparr>;
          a2 \<leftarrow> argp argv 2;
          (case parse_uint8 a2 w of
             (None, w) \<Rightarrow> Some ((- 1, ps), eprintf (''invalid address value'' @ nl) w)
           | (Some slave, w) \<Rightarrow> do {
               let ps = ps\<lparr>address := slave\<rparr>;
               ((rc, ps), w) \<leftarrow>
                 (if op_size op \<noteq> SMBUS_SIZE_BYTE \<and> op_size op \<noteq> SMBUS_QUICK \<and>
                     op_size op \<noteq> SMBUS_WRITE_READ
                  then do {
                    a3 \<leftarrow> argp argv 3;
                    (case parse_uint8 a3 w of
                       (None, w) \<Rightarrow> Some ((- 1, ps), eprintf (''invalid register value'' @ nl) w)
                     | (Some r, w) \<Rightarrow> Some ((0, ps\<lparr>reg := r\<rparr>), w))
                  }
                  else Some ((0, ps), w));
               if rc < 0 then Some ((rc, ps), w)
               else (case open_i2c_slave E (i2c_bus ps) (address ps) w of (f, w) \<Rightarrow>
                 let ps = ps\<lparr>fd := f\<rparr> in
                 if f < 0 then Some ((- 1, ps), eprintf (''can't open slave'' @ nl) w)
                 else Some ((0, ps), w))
             })
        })
   }"

fun op_of :: "privdata \<Rightarrow> smbus_op option" where
  "op_of (Smbus_op op) = Some op"
| "op_of _ = None"

definition smbus_read ::
    "'k env \<Rightarrow> smbus_op_params \<Rightarrow> string list \<Rightarrow> cmd_info \<Rightarrow> 'k world \<Rightarrow> ('k, int) result" where
  "smbus_read E junk argv info w = do {
     op \<leftarrow> op_of (privdata info);
     ((rc, ps), w) \<leftarrow> smbus_prologue E argv junk op w;
     if rc < 0 then Some (- 1, w)
     else do {
       (ret, w) \<leftarrow> run_perform_op E ps op w;
       Some (ret, sys E (Close (fd ps)) w)
     }
   }"

definition smbus_write ::
    "'k env \<Rightarrow> smbus_op_params \<Rightarrow> string list \<Rightarrow> cmd_info \<Rightarrow> 'k world \<Rightarrow> ('k, int) result" where
  "smbus_write E junk argv info w = do {
     op \<leftarrow> op_of (privdata info);
     ((rc, ps), w) \<leftarrow> smbus_prologue E argv junk op w;
     if rc < 0 then Some (- 1, w)
     else do {
       let arg_num = (if op_size op = SMBUS_SIZE_BYTE \<or> op_size op = SMBUS_QUICK then 3 else 4);
       arg \<leftarrow> argp argv arg_num;
       ((rc, ps), w) \<leftarrow> parse_io_width arg ps op w;
       if rc < 0 then do {
         a0 \<leftarrow> argp argv 0;
         Some (- 1, sys E (Close (fd ps))
           (eprintf (a0 @ '': '' @ arg @ '': invalid value to write'' @ nl) w))
       }
       else do {
         (ret, w) \<leftarrow> run_perform_op E ps op w;
         Some (ret, sys E (Close (fd ps)) w)
       }
     }
   }"

definition smbus_process_call ::
    "'k env \<Rightarrow> smbus_op_params \<Rightarrow> string list \<Rightarrow> cmd_info \<Rightarrow> 'k world \<Rightarrow> ('k, int) result" where
  "smbus_process_call E junk argv info w = do {
     op \<leftarrow> op_of (privdata info);
     ((rc, ps), w) \<leftarrow> smbus_prologue E argv junk op w;
     if rc < 0 then Some (- 1, w)
     else do {
       a4 \<leftarrow> argp argv 4;
       ((rc, ps), w) \<leftarrow> parse_io_width a4 ps op w;
       if rc < 0 then do {
         a0 \<leftarrow> argp argv 0;
         Some (- 1, sys E (Close (fd ps))
           (eprintf (a0 @ '': '' @ a4 @ '': invalid value to write'' @ nl) w))
       }
       else do {
         (ret, w) \<leftarrow> run_perform_op E ps op w;
         Some (ret, sys E (Close (fd ps)) w)
       }
     }
   }"

definition zero_params :: smbus_op_params where
  "zero_params = \<lparr>fd = 0, reg = 0, i2c_bus = 0, address = 0, read_count = 0, len = 0,
     data = replicate DTYPE_SIZE 0\<rparr>"

definition smbus_writeread ::
    "'k env \<Rightarrow> string list \<Rightarrow> cmd_info \<Rightarrow> 'k world \<Rightarrow> ('k, int) result" where
  "smbus_writeread E argv info w = do {
     op \<leftarrow> op_of (privdata info);
     ((rc, ps), w) \<leftarrow> smbus_prologue E argv zero_params op w;
     if rc < 0 then Some (- 1, w)
     else do {
       a3 \<leftarrow> argp argv 3;
       ((rc, ps), w) \<leftarrow> parse_io_width a3 ps op w;
       if rc < 0 then do {
         a0 \<leftarrow> argp argv 0;
         Some (- 1, sys E (Close (fd ps))
           (eprintf (a0 @ '': '' @ a3 @ '': invalid value to write'' @ nl) w))
       }
       else do {
         a4 \<leftarrow> argp argv 4;
         (case parse_uint8 a4 w of
            (None, w) \<Rightarrow> Some (- 1, eprintf (''invalid read count '' @ a4 @ ''.'' @ nl) w)
          | (Some n, w) \<Rightarrow>
              if unat n > I2C_SMBUS_BLOCK_MAX then
                Some (- 1, eprintf (''read count '' @ a3 @ '' > '' @ dec_nat I2C_SMBUS_BLOCK_MAX @
                  ''.'' @ nl) w)
              else do {
                let ps = ps\<lparr>read_count := n\<rparr>;
                (ret, w) \<leftarrow> run_perform_op E ps op w;
                Some (ret, sys E (Close (fd ps)) w)
              })
       }
     }
   }"

section \<open>Command table\<close>

definition smbus_read_params :: prereq_params where
  "smbus_read_params = FIXED_ARGS 4 ''<adapter> <address> <register>'' 0"
definition smbus_write_params :: prereq_params where
  "smbus_write_params = FIXED_ARGS 5 ''<adapter> <address> <register> <value>'' 0"
definition smbus_receive_byte_params :: prereq_params where
  "smbus_receive_byte_params = FIXED_ARGS 3 ''<adapter> <address>'' 0"
definition smbus_send_byte_params :: prereq_params where
  "smbus_send_byte_params = FIXED_ARGS 4 ''<adapter> <address> <value>'' 0"
definition smbus_quick_params :: prereq_params where
  "smbus_quick_params = FIXED_ARGS 4 ''<adapter> <address> <0|1>'' 0"
definition smbus_writeread_params :: prereq_params where
  "smbus_writeread_params = FIXED_ARGS 5 ''<adapter> <address> <write_value> <read_count>'' 0"

definition MAKE_SMBUS_OP :: "SMBUS_SIZE \<Rightarrow> perform_fn \<Rightarrow> smbus_op" where
  "MAKE_SMBUS_OP sz f = \<lparr>op_size = sz, perform_op = f\<rparr>"

definition MAKE_SMBUS_RW_CMDS :: "string \<Rightarrow> SMBUS_SIZE \<Rightarrow> cmd_info list" where
  "MAKE_SMBUS_RW_CMDS suffix sz =
    [MAKE_CMD_WITH_PARAMS (''smbus_read'' @ suffix) E_smbus_read
       (Smbus_op (MAKE_SMBUS_OP sz P_smbus_read_op)) smbus_read_params,
     MAKE_CMD_WITH_PARAMS (''smbus_write'' @ suffix) E_smbus_write
       (Smbus_op (MAKE_SMBUS_OP sz P_smbus_write_op)) smbus_write_params]"

definition smbus_cmds :: "cmd_info list" where
  "smbus_cmds =
     MAKE_SMBUS_RW_CMDS ''8'' SMBUS_SIZE_8 @
     MAKE_SMBUS_RW_CMDS ''16'' SMBUS_SIZE_16 @
     MAKE_SMBUS_RW_CMDS ''32'' SMBUS_SIZE_32 @
     MAKE_SMBUS_RW_CMDS ''64'' SMBUS_SIZE_64 @
     MAKE_SMBUS_RW_CMDS ''block'' SMBUS_SIZE_BLOCK @
     [MAKE_CMD_WITH_PARAMS ''smbus_receive_byte'' E_smbus_read
        (Smbus_op (MAKE_SMBUS_OP SMBUS_SIZE_BYTE P_smbus_read_op)) smbus_receive_byte_params,
      MAKE_CMD_WITH_PARAMS ''smbus_send_byte'' E_smbus_write
        (Smbus_op (MAKE_SMBUS_OP SMBUS_SIZE_BYTE P_smbus_write_op)) smbus_send_byte_params,
      MAKE_CMD_WITH_PARAMS ''smbus_quick'' E_smbus_write
        (Smbus_op (MAKE_SMBUS_OP SMBUS_QUICK P_smbus_write_op)) smbus_quick_params,
      MAKE_CMD_WITH_PARAMS ''smbus_process_call'' E_smbus_process_call
        (Smbus_op (MAKE_SMBUS_OP SMBUS_PROC_CALL P_smbus_process_call_op)) smbus_write_params,
      MAKE_CMD_WITH_PARAMS ''smbus_block_process_call'' E_smbus_process_call
        (Smbus_op (MAKE_SMBUS_OP SMBUS_BLOCK_PROC_CALL P_smbus_block_process_call_op))
        smbus_write_params,
      MAKE_CMD_WITH_PARAMS ''smbus_writeread'' E_smbus_writeread
        (Smbus_op (MAKE_SMBUS_OP SMBUS_WRITE_READ P_smbus_writeread_op)) smbus_writeread_params]"

definition SMBus_group :: cmd_group where
  "SMBus_group = \<lparr>group_name = ''SMBus'',
     description = Some ''commands to access the system management bus'',
     commands = smbus_cmds\<rparr>"

lemmas smbus_params_defs = smbus_read_params_def smbus_write_params_def
  smbus_receive_byte_params_def smbus_send_byte_params_def smbus_quick_params_def
  smbus_writeread_params_def

text \<open>The call through the entry pointer, for the commands of this table.\<close>

definition smbus_call ::
    "'k env \<Rightarrow> smbus_op_params \<Rightarrow> string list \<Rightarrow> cmd_info \<Rightarrow> 'k world \<Rightarrow> ('k, int) result" where
  "smbus_call E junk argv info w =
     (case entry info of
        E_smbus_read \<Rightarrow> smbus_read E junk argv info w
      | E_smbus_write \<Rightarrow> smbus_write E junk argv info w
      | E_smbus_process_call \<Rightarrow> smbus_process_call E junk argv info w
      | E_smbus_writeread \<Rightarrow> smbus_writeread E argv info w
      | _ \<Rightarrow> None)"

section \<open>What the parsers accept\<close>

lemma parse_uint8_base_Some:
  "fst (parse_uint8_base arg b w) = Some v \<longleftrightarrow>
     snd (strtoull_end arg b) = '''' \<and> fst (strtoull_end arg b) < 0x100 \<and>
     v = ucast (fst (strtoull_end arg b))"
proof (cases "strtoull_end arg b")
  case (Pair ldata rest)
  have "ldata > 0xff \<longleftrightarrow> \<not> ldata < 0x100"
    by (simp add: word_less_nat_alt) linarith
  then show ?thesis
    using Pair
    by (auto simp: parse_uint8_base_def ismaxortrailingjunk_def istrailingjunk_def Let_def LONG_MAX_def)
qed

lemma parse_uint8_base_frame:
  "fst (parse_uint8_base arg b w) = Some v \<Longrightarrow> snd (parse_uint8_base arg b w) = w"
  "stdout (snd (parse_uint8_base arg b w)) = stdout w"
  "kstate (snd (parse_uint8_base arg b w)) = kstate w"
  "trace (snd (parse_uint8_base arg b w)) = trace w"
  by (auto simp: parse_uint8_base_def ismaxortrailingjunk_def istrailingjunk_def Let_def
      split: prod.splits if_splits)

text \<open>Two hexadecimal digits, as \<^verbatim>\<open>%02X\<close> prints a byte, are parsed to that byte.\<close>

lemma HEX_digits: "n < 256 \<Longrightarrow> HEX 2 n = [digit_char True (n div 16), digit_char True (n mod 16)]"
  by (cases "n < 16") (simp_all add: HEX_def nat_digits.simps [of 16 n] nat_digits.simps [of 16 "n div 16"]
    pad0_def less_mult_imp_div_less replicate_eval div_less)

lemma digit_char_not_x: "d < 16 \<Longrightarrow> digit_char up d \<noteq> CHR ''x'' \<and> digit_char up d \<noteq> CHR ''X''"
proof -
  assume "d < 16"
  then have "digit_val (digit_char up d) \<noteq> Some 33" by simp
  moreover have "digit_val (CHR ''x'') = Some 33" "digit_val (CHR ''X'') = Some 33"
    by (simp_all add: digit_val_def)
  ultimately show ?thesis by metis
qed

lemma strtoull_end_digit_pair:
  assumes "d < 16" and "e < 16"
  shows "strtoull_end [digit_char up d, digit_char up e] 16 = (of_nat (d * 16 + e), '''')"
proof -
  have "is_digit 16 (digit_char up d)" using assms by simp
  note d = this digit_not_space [OF this] digit_no_sign [OF this]
  then have s: "scan_sign (dropWhile isspace [digit_char up d, digit_char up e]) =
      (False, [digit_char up d, digit_char up e])" by simp
  have "scan_base 16 [digit_char up d, digit_char up e] = (16, [digit_char up d, digit_char up e])"
    by simp
  with s d assms have "scan_number 16 [digit_char up d, digit_char up e] = Some (False, d * 16 + e, '''')"
    by (simp add: scan_number_def)
  with assms show ?thesis by (simp add: strtoull_end_def)
qed

lemma of_nat_u64_less: "n < 256 \<Longrightarrow> (of_nat n :: u64) < 0x100"
  by (simp add: word_less_nat_alt unat_of_nat)

lemma parse_uint8_hex_HEX: "parse_uint8_hex (HEX 2 (unat (b :: u8))) w = (Some b, w)"
proof -
  have b: "unat b < 256" using unsigned_less [of b, where ?'a = nat] by simp
  then have "unat b div 16 < 16" by (simp add: less_mult_imp_div_less)
  then have "strtoull_end (HEX 2 (unat b)) 16 = (of_nat (unat b), '''')"
    using strtoull_end_digit_pair [of "unat b div 16" "unat b mod 16" True] b
    by (simp add: HEX_digits)
  moreover have "(of_nat (unat b) :: u64) < 0x100"
    using b by (rule of_nat_u64_less)
  moreover have "ucast (of_nat (unat b) :: u64) = b"
    by (simp, intro bit_word_eqI) (simp add: bit_ucast_iff)
  ultimately have "fst (parse_uint8_hex (HEX 2 (unat b)) w) = Some b"
    by (simp add: parse_uint8_hex_def parse_uint8_base_Some)
  then show ?thesis
    using parse_uint8_base_frame(1) unfolding parse_uint8_hex_def by (metis prod.collapse)
qed

definition hex_bytes :: "u8 list \<Rightarrow> string" where
  "hex_bytes bs = concat (map (\<lambda>b. HEX 2 (unat b)) bs)"

lemma HEX_byte: "HEX 2 (unat (b :: u8)) = [digit_char True (unat b div 16), digit_char True (unat b mod 16)]"
  using unsigned_less [of b, where ?'a = nat] by (intro HEX_digits) simp

lemma length_hex_bytes [simp]: "length (hex_bytes bs) = 2 * length bs"
  by (induction bs) (simp_all add: hex_bytes_def HEX_byte)

lemma parse_bytes_hex:
  "i + length bs \<le> length arr \<Longrightarrow>
     parse_bytes (hex_bytes bs) i arr w = Some ((0, take i arr @ bs @ drop (i + length bs) arr), w)"
proof (induction bs arbitrary: i arr)
  case Nil
  then show ?case by (simp add: hex_bytes_def)
next
  case (Cons b bs)
  have "parse_bytes (hex_bytes (b # bs)) i arr w = parse_bytes (hex_bytes bs) (i + 1) (arr[i := b]) w"
    using Cons.prems parse_uint8_hex_HEX [of b w] by (simp add: hex_bytes_def HEX_byte)
  also have "\<dots> = Some ((0, take (i + 1) (arr[i := b]) @ bs @ drop (i + 1 + length bs) (arr[i := b])), w)"
    using Cons.prems by (intro Cons.IH) simp
  finally show ?case
    using Cons.prems by (simp add: take_Suc_conv_app_nth drop_update_cancel flip: Suc_eq_plus1)
qed

text \<open>The loop never writes outside the array and keeps its size, whatever the characters are.\<close>

lemma parse_bytes_safe:
  "even (length src) \<Longrightarrow> 2 * i + length src \<le> 2 * length arr \<Longrightarrow>
     \<exists>rc arr' w'. parse_bytes src i arr w = Some ((rc, arr'), w') \<and> length arr' = length arr \<and>
       (rc = 0 \<or> rc = - 1) \<and> stdout w' = stdout w \<and> trace w' = trace w \<and> kstate w' = kstate w"
proof (induction src i arr w rule: parse_bytes.induct)
  case (3 c d src i arr w)
  show ?case
  proof (cases "parse_uint8_hex [c, d] w")
    case (Pair r w1)
    have w1: "stdout w1 = stdout w" "trace w1 = trace w" "kstate w1 = kstate w"
      using Pair parse_uint8_base_frame(2-4) [of "[c, d]" 16 w] by (simp_all add: parse_uint8_hex_def)
    show ?thesis
    proof (cases r)
      case None
      with Pair w1 show ?thesis by simp
    next
      case (Some v)
      have "i < length arr" using "3.prems" by simp
      with Some Pair w1 "3.prems" show ?thesis
        using "3.IH" [of r w1 v] Pair by simp
    qed
  qed
qed simp_all

text \<open>The digits of a block argument: an optional \<open>0x\<close> is skipped.\<close>

definition block_digits :: "string \<Rightarrow> string" where
  "block_digits arg = (if arg ! 0 = CHR ''0'' \<and> (arg ! 1 = CHR ''x'' \<or> arg ! 1 = CHR ''X'')
     then drop 2 arg else arg)"

lemma parse_block_digits:
  "parse_block arg ps w =
     (if length arg \<le> 0 \<or> length arg mod 2 \<noteq> 0 then
        Some ((- 1, ps), eprintf (''data length ('' @ dec_nat (length arg) @ '') is 0 or odd'' @ nl) w)
      else if length (block_digits arg) div 2 > I2C_SMBUS_BLOCK_MAX then
        Some ((- 1, ps), eprintf (''data has more than '' @ dec_nat I2C_SMBUS_BLOCK_MAX @ '' bytes'' @ nl) w)
      else do {
        ((rc, arr), w) \<leftarrow> parse_bytes (block_digits arg) 0 (data ps) w;
        if rc \<noteq> 0 then Some ((- 1, ps\<lparr>data := arr\<rparr>), w)
        else Some ((0, ps\<lparr>data := arr, len := int (length (block_digits arg) div 2)\<rparr>), w)
      })"
proof -
  have "length (if P then drop 2 xs else xs) = (if P then length xs - 2 else length xs)"
    for P and xs :: string by simp
  then show ?thesis
    by (simp only: parse_block_def block_digits_def Let_def)
qed

text \<open>A block argument is read into the array or refused; the length it sets is at most 32.\<close>

lemma parse_block_safe:
  assumes "length (data ps) = DTYPE_SIZE"
  shows "\<exists>rc ps' w'. parse_block arg ps w = Some ((rc, ps'), w') \<and> length (data ps') = DTYPE_SIZE \<and>
     (rc = 0 \<and> 0 \<le> len ps' \<and> len ps' \<le> 32 \<or> rc = - 1) \<and> fd ps' = fd ps \<and> i2c_bus ps' = i2c_bus ps \<and>
     address ps' = address ps \<and> reg ps' = reg ps \<and> read_count ps' = read_count ps \<and>
     stdout w' = stdout w \<and> trace w' = trace w \<and> kstate w' = kstate w"
proof (cases "length arg \<le> 0 \<or> length arg mod 2 \<noteq> 0 \<or> length (block_digits arg) div 2 > I2C_SMBUS_BLOCK_MAX")
  case True
  then show ?thesis
    using assms by (auto simp: parse_block_digits)
next
  case False
  let ?src = "block_digits arg"
  have len: "even (length ?src)" "length ?src div 2 \<le> 32"
    using False by (auto simp: block_digits_def I2C_SMBUS_BLOCK_MAX_def)
  then have "2 * 0 + length ?src \<le> 2 * length (data ps)"
    using assms by (auto simp: DTYPE_SIZE_def I2C_SMBUS_BLOCK_MAX_def)
  from parse_bytes_safe [OF len(1) this, of w] obtain rc arr w' where
    "parse_bytes ?src 0 (data ps) w = Some ((rc, arr), w')" "length arr = DTYPE_SIZE"
    "rc = 0 \<or> rc = - 1" "stdout w' = stdout w" "trace w' = trace w" "kstate w' = kstate w"
    using assms by metis
  then show ?thesis
    using False len(2) assms by (auto simp: parse_block_digits)
qed

definition parsed_ok :: "smbus_op \<Rightarrow> smbus_op_params \<Rightarrow> bool" where
  "parsed_ok op ps \<longleftrightarrow> length (data ps) = DTYPE_SIZE \<and>
     (op_size op \<in> {SMBUS_SIZE_BLOCK, SMBUS_BLOCK_PROC_CALL, SMBUS_WRITE_READ} \<longrightarrow> 0 \<le> len ps \<and> len ps \<le> 32)"

lemma length_set_fixed: "n \<le> length arr \<Longrightarrow> length (set_fixed n v arr) = length arr"
  by (simp add: set_fixed_def)

lemma junk_frame:
  assumes "ismaxortrailingjunk arg e v w = (rc, w')"
  shows "stdout w' = stdout w \<and> trace w' = trace w \<and> kstate w' = kstate w"
  using assms by (auto simp: ismaxortrailingjunk_def istrailingjunk_def split: if_splits)

lemma trailing_frame:
  assumes "istrailingjunk arg e w = (rc, w')"
  shows "stdout w' = stdout w \<and> trace w' = trace w \<and> kstate w' = kstate w"
  using assms by (auto simp: istrailingjunk_def split: if_splits)

text \<open>
  Parsing of the data argument always returns; it changes only the data and the length, makes no
  call and prints nothing on standard output.
\<close>

lemma parse_io_width_safe:
  "\<exists>rc ps' w'. parse_io_width arg ps op w = Some ((rc, ps'), w') \<and> (rc = 0 \<and> parsed_ok op ps' \<or> rc = - 1) \<and>
     fd ps' = fd ps \<and> i2c_bus ps' = i2c_bus ps \<and> address ps' = address ps \<and> reg ps' = reg ps \<and>
     read_count ps' = read_count ps \<and> stdout w' = stdout w \<and> trace w' = trace w \<and> kstate w' = kstate w"
proof -
  obtain v e where ve: "strtoull_end arg 0 = (v, e)" by (cases "strtoull_end arg 0")
  obtain r1 w1 where j: "ismaxortrailingjunk arg e v w = (r1, w1)"
    by (cases "ismaxortrailingjunk arg e v w")
  obtain r2 w2 where t: "istrailingjunk arg e w = (r2, w2)" by (cases "istrailingjunk arg e w")
  have block: "\<exists>rc ps' w'. parse_block arg (ps\<lparr>data := replicate DTYPE_SIZE 0\<rparr>) w = Some ((rc, ps'), w') \<and>
      (rc = 0 \<and> length (data ps') = DTYPE_SIZE \<and> 0 \<le> len ps' \<and> len ps' \<le> 32 \<or> rc = - 1) \<and>
      fd ps' = fd ps \<and> i2c_bus ps' = i2c_bus ps \<and> address ps' = address ps \<and> reg ps' = reg ps \<and>
      read_count ps' = read_count ps \<and> stdout w' = stdout w \<and> trace w' = trace w \<and> kstate w' = kstate w"
    using parse_block_safe [of "ps\<lparr>data := replicate DTYPE_SIZE 0\<rparr>" arg w] by fastforce
  show ?thesis
    using junk_frame [OF j] trailing_frame [OF t] block
    by (cases "op_size op")
      (auto simp: parse_io_width_def Let_def ve j t parsed_ok_def length_set_fixed DTYPE_SIZE_def
        I2C_SMBUS_BLOCK_MAX_def)
qed

lemma parse_block_hex:
  assumes "0 < length bs" and "length bs \<le> 32" and "length (data ps) = DTYPE_SIZE"
    and "arg = hex_bytes bs \<or> arg = ''0x'' @ hex_bytes bs"
  shows "parse_block arg ps w =
    Some ((0, ps\<lparr>data := bs @ drop (length bs) (data ps), len := int (length bs)\<rparr>), w)"
proof -
  obtain b bs' where bs: "bs = b # bs'" using assms(1) by (cases bs) auto
  have "hex_bytes bs ! 1 \<noteq> CHR ''x'' \<and> hex_bytes bs ! 1 \<noteq> CHR ''X''"
    using digit_char_not_x [of "unat b mod 16" True] by (simp add: bs hex_bytes_def HEX_byte)
  moreover have "parse_bytes (hex_bytes bs) 0 (data ps) w = Some ((0, bs @ drop (length bs) (data ps)), w)"
    using parse_bytes_hex [of 0 bs "data ps" w] assms(2,3) by (simp add: DTYPE_SIZE_def I2C_SMBUS_BLOCK_MAX_def)
  moreover have "hex_bytes bs \<noteq> ''''" using assms(1) by (metis length_hex_bytes list.size(3) mult_is_0 not_gr_zero zero_neq_numeral)
  ultimately show ?thesis
    using assms by (auto simp: parse_block_def Let_def I2C_SMBUS_BLOCK_MAX_def)
qed

end
