(* ===== verification/Numerals.thy ===== *)
theory Numerals
  imports CLib
begin

text \<open>
  The numbers a command line argument can denote, stated as a grammar and without reference to the
  scanners of \<open>CLib\<close>: white space, an optional sign, then a decimal, octal (leading \<open>0\<close>) or
  hexadecimal (leading \<open>0x\<close> or \<open>0X\<close>) constant of C.  The main fact is that
  \<^verbatim>\<open>strtoul\<close> in base 0, when it consumes the whole string, has read such a number, or the
  string was empty; the value it returns is the number modulo \<open>2 ^ 64\<close>, or all ones when its
  magnitude does not fit.
\<close>

section \<open>The grammar\<close>

text \<open>Digits in positional notation.\<close>

primrec digits_value :: "nat \<Rightarrow> string \<Rightarrow> nat" where
  "digits_value b [] = 0"
| "digits_value b (c # cs) = the (digit_val c) * b ^ length cs + digits_value b cs"

definition digits :: "nat \<Rightarrow> string \<Rightarrow> bool" where
  "digits b s \<longleftrightarrow> s \<noteq> [] \<and> (\<forall>c \<in> set s. is_digit b c)"

inductive c_constant :: "string \<Rightarrow> nat \<Rightarrow> bool" where
  decimal: "digits 10 s \<Longrightarrow> hd s \<noteq> CHR ''0'' \<Longrightarrow> c_constant s (digits_value 10 s)"
| octal: "digits 8 s \<Longrightarrow> hd s = CHR ''0'' \<Longrightarrow> c_constant s (digits_value 8 s)"
| hexadecimal: "digits 16 s \<Longrightarrow> x = CHR ''x'' \<or> x = CHR ''X'' \<Longrightarrow>
    c_constant (CHR ''0'' # x # s) (digits_value 16 s)"

text \<open>\<open>signed_constant s neg m\<close>: the constant \<open>m\<close>, with a minus sign in front when \<open>neg\<close>.\<close>

inductive signed_constant :: "string \<Rightarrow> bool \<Rightarrow> nat \<Rightarrow> bool" where
  plain: "c_constant s m \<Longrightarrow> signed_constant s False m"
| plus: "c_constant s m \<Longrightarrow> signed_constant (CHR ''+'' # s) False m"
| minus: "c_constant s m \<Longrightarrow> signed_constant (CHR ''-'' # s) True m"

definition int_text :: "string \<Rightarrow> int \<Rightarrow> bool" where
  "int_text a i \<longleftrightarrow> (\<exists>space s neg m. a = space @ s \<and> (\<forall>c \<in> set space. isspace c) \<and>
     signed_constant s neg m \<and> i = (if neg then - int m else int m))"

section \<open>Scanning\<close>

lemma scan_digits_all: "\<forall>c \<in> set s. is_digit b c \<Longrightarrow> scan_digits b acc s = (acc * b ^ length s + digits_value b s, [])"
  by (induction s arbitrary: acc) (auto simp: is_digit_def algebra_simps split: option.splits)

lemma scan_digits_Nil: "scan_digits b acc s = (m, []) \<Longrightarrow> \<forall>c \<in> set s. is_digit b c"
proof (induction s arbitrary: acc)
  case (Cons c s)
  then obtain d where "digit_val c = Some d" "d < b" "scan_digits b (acc * b + d) s = (m, [])"
    by (auto split: option.splits if_splits)
  with Cons.IH show ?case by (simp add: is_digit_def)
qed simp

lemma scan_digits_digits:
  assumes "s \<noteq> []"
  shows "scan_digits b 0 s = (m, []) \<longleftrightarrow> digits b s \<and> m = digits_value b s"
proof (cases "digits b s")
  case True
  then have "scan_digits b 0 s = (digits_value b s, [])"
    using scan_digits_all [of s b 0] by (simp add: digits_def)
  with True show ?thesis by auto
next
  case False
  with assms scan_digits_Nil [of b 0 s m] show ?thesis by (auto simp: digits_def)
qed

lemma digit_x: "is_digit b (CHR ''x'') \<Longrightarrow> 33 < b" "is_digit b (CHR ''X'') \<Longrightarrow> 33 < b"
  by (simp_all add: is_digit_def digit_val_def)

lemma digits_hd: "digits b s \<Longrightarrow> is_digit b (hd s)"
  by (simp add: digits_def)

lemma c_constant_hd:
  assumes "c_constant s m"
  shows "s \<noteq> [] \<and> is_digit 16 (hd s)"
  using assms
proof cases
  case hexadecimal
  then show ?thesis by (simp add: is_digit_def digit_val_def)
qed (auto simp: digits_def is_digit_def neq_Nil_conv split: option.splits)

text \<open>The prefix is recognised as the grammar says, and the digits after it are scanned.\<close>

definition scan_constant :: "string \<Rightarrow> nat option" where
  "scan_constant s = (case scan_base 0 s of (b, s2) \<Rightarrow>
     if s2 \<noteq> [] \<and> is_digit b (hd s2) \<and> snd (scan_digits b 0 s2) = [] then Some (fst (scan_digits b 0 s2)) else None)"

lemma scan_base_0:
  "scan_base 0 s =
     (if \<exists>x t. s = CHR ''0'' # x # t \<and> (x = CHR ''x'' \<or> x = CHR ''X'') \<and> t \<noteq> [] \<and> is_digit 16 (hd t)
      then (16, drop 2 s) else if s \<noteq> [] \<and> hd s = CHR ''0'' then (8, s) else (10, s))"
proof -
  have "3 \<le> length s \<and> s ! 0 = CHR ''0'' \<and> (s ! 1 = CHR ''x'' \<or> s ! 1 = CHR ''X'') \<and> is_digit 16 (s ! 2) \<longleftrightarrow>
    (\<exists>x t. s = CHR ''0'' # x # t \<and> (x = CHR ''x'' \<or> x = CHR ''X'') \<and> t \<noteq> [] \<and> is_digit 16 (hd t))"
    (is "?l \<longleftrightarrow> ?r")
  proof
    assume ?l
    then show ?r
      by (cases s; cases "tl s"; cases "tl (tl s)") (auto simp: One_nat_def numeral_2_eq_2)
  next
    assume ?r
    then obtain x t where "s = CHR ''0'' # x # t" "x = CHR ''x'' \<or> x = CHR ''X''" "t \<noteq> []" "is_digit 16 (hd t)" by blast
    then show ?l by (cases t) (auto simp: One_nat_def numeral_2_eq_2)
  qed
  then show ?thesis by (cases s) auto
qed

lemma scan_constant_iff: "scan_constant s = Some m \<longleftrightarrow> c_constant s m"
proof
  assume scan: "scan_constant s = Some m"
  obtain b s2 where b: "scan_base 0 s = (b, s2)" by (cases "scan_base 0 s")
  with scan have "s2 \<noteq> []" "scan_digits b 0 s2 = (m, [])"
    by (auto simp: scan_constant_def prod_eq_iff split: if_splits)
  then have d: "digits b s2" "m = digits_value b s2" using scan_digits_digits by blast+
  from b consider (hex) x t where "s = CHR ''0'' # x # t" "x = CHR ''x'' \<or> x = CHR ''X''" "b = 16" "s2 = t"
    | (oct) "b = 8" "s2 = s" "hd s = CHR ''0''" | (dec) "b = 10" "s2 = s" "s = [] \<or> hd s \<noteq> CHR ''0''"
    unfolding scan_base_0 by (auto split: if_splits)
  then show "c_constant s m"
  proof cases
    case hex
    with d show ?thesis by (auto intro: hexadecimal)
  next
    case oct
    with d show ?thesis by (auto intro: octal)
  next
    case dec
    with d \<open>s2 \<noteq> []\<close> show ?thesis by (auto intro: decimal)
  qed
next
  assume "c_constant s m"
  then show "scan_constant s = Some m"
  proof cases
    case decimal
    then have "scan_base 0 s = (10, s)" "s \<noteq> []" unfolding scan_base_0 by (auto simp: digits_def)
    with decimal show ?thesis
      using scan_digits_digits [of s 10 m] digits_hd [of 10 s] by (simp add: scan_constant_def)
  next
    case octal
    then have "\<not> (\<exists>x t. s = CHR ''0'' # x # t \<and> (x = CHR ''x'' \<or> x = CHR ''X''))"
      using digit_x [of 8] by (auto simp: digits_def)
    with octal have "scan_base 0 s = (8, s)" "s \<noteq> []" unfolding scan_base_0 by (auto simp: digits_def)
    with octal show ?thesis
      using scan_digits_digits [of s 8 m] digits_hd [of 8 s] by (simp add: scan_constant_def)
  next
    case (hexadecimal t x)
    then have "t \<noteq> []" "is_digit 16 (hd t)" by (auto simp: digits_def)
    with hexadecimal have "scan_base 0 s = (16, t)" unfolding scan_base_0 by auto
    with hexadecimal \<open>t \<noteq> []\<close> show ?thesis
      using scan_digits_digits [of t 16 m] digits_hd [of 16 t] by (simp add: scan_constant_def)
  qed
qed

text \<open>The whole scanner: white space and sign, then the constant.\<close>

lemma scan_number_constant:
  "scan_number 0 a = Some (neg, m, []) \<longleftrightarrow>
     fst (scan_sign (dropWhile isspace a)) = neg \<and> scan_constant (snd (scan_sign (dropWhile isspace a))) = Some m"
  by (auto simp: scan_number_def scan_constant_def prod_eq_iff split: prod.splits if_splits)

lemma scan_sign_iff:
  "signed_constant s neg m \<longleftrightarrow> fst (scan_sign s) = neg \<and> c_constant (snd (scan_sign s)) m"
proof
  assume "signed_constant s neg m"
  then show "fst (scan_sign s) = neg \<and> c_constant (snd (scan_sign s)) m"
  proof cases
    case plain
    then show ?thesis using c_constant_hd [of s m] digit_no_sign [of 16 "hd s"] by (cases s) auto
  qed simp_all
next
  assume "fst (scan_sign s) = neg \<and> c_constant (snd (scan_sign s)) m"
  then show "signed_constant s neg m"
    using c_constant_hd [of "[]" m] by (cases s) (auto intro: signed_constant.intros split: if_splits)
qed

lemma signed_constant_hd: "signed_constant s neg m \<Longrightarrow> s \<noteq> [] \<and> \<not> isspace (hd s)"
  by (erule signed_constant.cases)
    (use c_constant_hd digit_not_space in \<open>auto simp: isspace_def\<close>)

lemma scan_number_iff:
  "scan_number 0 a = Some (neg, m, []) \<longleftrightarrow>
     (\<exists>space s. a = space @ s \<and> (\<forall>c \<in> set space. isspace c) \<and> signed_constant s neg m)"
proof
  assume "scan_number 0 a = Some (neg, m, [])"
  then have "signed_constant (dropWhile isspace a) neg m"
    by (simp add: scan_number_constant scan_constant_iff scan_sign_iff)
  moreover have "a = takeWhile isspace a @ dropWhile isspace a" by simp
  ultimately show "\<exists>space s. a = space @ s \<and> (\<forall>c \<in> set space. isspace c) \<and> signed_constant s neg m"
    using set_takeWhileD by metis
next
  assume "\<exists>space s. a = space @ s \<and> (\<forall>c \<in> set space. isspace c) \<and> signed_constant s neg m"
  then obtain space s where a: "a = space @ s" "\<forall>c \<in> set space. isspace c" "signed_constant s neg m" by blast
  then have "dropWhile isspace a = dropWhile isspace s" by (simp add: dropWhile_append2)
  also have "\<dots> = s" using signed_constant_hd [OF a(3)] by (cases s) auto
  finally show "scan_number 0 a = Some (neg, m, [])"
    using a(3) by (simp add: scan_number_constant scan_constant_iff scan_sign_iff)
qed

lemma int_text_scan:
  "int_text a i \<longleftrightarrow> (\<exists>neg m. scan_number 0 a = Some (neg, m, []) \<and> i = (if neg then - int m else int m))"
  unfolding int_text_def scan_number_iff by blast

section \<open>Values\<close>

text \<open>What \<^verbatim>\<open>strtoul\<close> returns for a number: all ones when the magnitude does not fit.\<close>

definition ulong_of :: "int \<Rightarrow> u64" where
  "ulong_of i = (if 2 ^ 64 \<le> \<bar>i\<bar> then - 1 else word_of_int i)"

lemma ulong_of_signed:
  "(if 2 ^ 64 \<le> m then - 1 else if neg then - of_nat m else of_nat m) =
     ulong_of (if neg then - int m else int m)"
proof -
  have "2 ^ 64 \<le> \<bar>if neg then - int m else int m\<bar> \<longleftrightarrow> 2 ^ 64 \<le> m" by auto
  then show ?thesis by (simp add: ulong_of_def)
qed

lemma strtoull_end_iff:
  "strtoull_end a 0 = (v, '''') \<longleftrightarrow> a = '''' \<and> v = 0 \<or> (\<exists>i. int_text a i \<and> v = ulong_of i)"
proof (cases "scan_number 0 a")
  case None
  then have "\<not> int_text a i" for i by (simp add: int_text_scan)
  with None show ?thesis by (auto simp: strtoull_end_def)
next
  case (Some t)
  obtain neg m rest where t: "t = (neg, m, rest)" by (cases t)
  have "a \<noteq> ''''" using Some by (auto simp: scan_number_def)
  moreover have "int_text a i \<longleftrightarrow> rest = '''' \<and> i = (if neg then - int m else int m)" for i
    unfolding int_text_scan using Some t by auto
  ultimately show ?thesis
    using Some t ulong_of_signed [of m neg] by (auto simp: strtoull_end_def)
qed

text \<open>A string denotes at most one number.\<close>

lemma int_text_unique: "int_text a i \<Longrightarrow> int_text a j \<Longrightarrow> i = j"
  by (auto simp: int_text_scan)

end
