(* ===== verification/Smbus_facts.thy ===== *)
theory Smbus_facts
  imports Smbus_rw Device Numerals
begin

text \<open>
  What the SMBus commands promise, over the model in \<open>Smbus_rw\<close>: descriptor discipline (and
  the leak of \<open>smbus_writeread\<close>), memory safety under the documented block length, independence of
  the uninitialised parameter block, the read-back guarantee on an adapter that behaves as documented,
  and the exact behaviour of the argument parsers.
\<close>

section \<open>Descriptors\<close>

lemma print_read_data_frame [simp]:
  "trace (print_read_data sz n arr w) = trace w" "kstate (print_read_data sz n arr w) = kstate w"
  "stderr (print_read_data sz n arr w) = stderr w"
  by (simp_all add: print_read_data_def Let_def split: SMBUS_SIZE.splits)

definition same_fds :: "int \<Rightarrow> 'k world \<Rightarrow> 'k world \<Rightarrow> bool" where
  "same_fds f w w' \<longleftrightarrow> open_fds (trace w') = open_fds (trace w) \<and>
     (disciplined (trace w) \<and> f \<in> set (open_fds (trace w)) \<longrightarrow> disciplined (trace w'))"

lemma same_fds_ops:
  "smbus_read_op E ps op w = Some (rc, w') \<Longrightarrow> same_fds (fd ps) w w'"
  "smbus_write_op E ps op w = Some (rc, w') \<Longrightarrow> same_fds (fd ps) w w'"
  "smbus_process_call_op E ps op w = Some (rc, w') \<Longrightarrow> same_fds (fd ps) w w'"
  "smbus_block_process_call_op E ps op w = Some (rc, w') \<Longrightarrow> same_fds (fd ps) w w'"
  "smbus_writeread_op E ps op w = Some (rc, w') \<Longrightarrow> same_fds (fd ps) w w'"
proof -
  show "smbus_read_op E ps op w = Some (rc, w') \<Longrightarrow> same_fds (fd ps) w w'"
    by (cases "op_size op")
      (auto simp: smbus_read_op_def i2c_defs same_fds_def Let_def split: bind_splits if_splits)
  show "smbus_write_op E ps op w = Some (rc, w') \<Longrightarrow> same_fds (fd ps) w w'"
    by (cases "op_size op")
      (auto simp: smbus_write_op_def i2c_defs same_fds_def Let_def split: bind_splits if_splits)
  show "smbus_process_call_op E ps op w = Some (rc, w') \<Longrightarrow> same_fds (fd ps) w w'"
    by (auto simp: smbus_process_call_op_def i2c_defs same_fds_def Let_def split: bind_splits if_splits)
  show "smbus_block_process_call_op E ps op w = Some (rc, w') \<Longrightarrow> same_fds (fd ps) w w'"
    by (auto simp: smbus_block_process_call_op_def i2c_defs same_fds_def Let_def split: bind_splits if_splits)
  show "smbus_writeread_op E ps op w = Some (rc, w') \<Longrightarrow> same_fds (fd ps) w w'"
    by (auto simp: smbus_writeread_op_def same_fds_def Let_def split: bind_splits if_splits)
qed

lemma run_perform_op_fds: "run_perform_op E ps op w = Some (rc, w') \<Longrightarrow> same_fds (fd ps) w w'"
  by (auto simp: run_perform_op_def intro: same_fds_ops split: perform_fn.splits)

lemma open_i2c_slave_fds:
  assumes "open_i2c_slave E bus slave w = (f, w')"
  shows "(if f < 0 then open_fds (trace w') = open_fds (trace w)
      else open_fds (trace w') = f # open_fds (trace w)) \<and> (disciplined (trace w) \<longrightarrow> disciplined (trace w')) \<and>
      stdout w' = stdout w"
  using assms by (auto simp: open_i2c_slave_def Let_def rv_def split: if_splits)

text \<open>The prologue leaves exactly one more descriptor open when it succeeds, and none when it fails.\<close>

lemma parse_uint8_frame:
  assumes "parse_uint8 a w = (r, w')"
  shows "trace w' = trace w \<and> kstate w' = kstate w \<and> stdout w' = stdout w \<and> (r \<noteq> None \<longrightarrow> w' = w)"
  using assms parse_uint8_base_frame [of a 0 w] by (cases r) (auto simp: parse_uint8_def)


lemma parse_uint8_cases:
  obtains (bad) w' where "parse_uint8 a w = (None, w')" "trace w' = trace w" "kstate w' = kstate w"
      "stdout w' = stdout w"
    | (good) v where "parse_uint8 a w = (Some v, w)"
proof (cases "parse_uint8 a w")
  case (Pair r w')
  with parse_uint8_frame [OF Pair] show ?thesis
    by (cases r) (auto intro: bad good)
qed

text \<open>What the prologue does once the adapter and address arguments have been parsed.\<close>

definition needs_reg :: "smbus_op \<Rightarrow> bool" where
  "needs_reg op \<longleftrightarrow> op_size op \<noteq> SMBUS_SIZE_BYTE \<and> op_size op \<noteq> SMBUS_QUICK \<and> op_size op \<noteq> SMBUS_WRITE_READ"

definition attach :: "'k env \<Rightarrow> smbus_op_params \<Rightarrow> 'k world \<Rightarrow> ('k, int \<times> smbus_op_params) result" where
  "attach E ps w = (case open_i2c_slave E (i2c_bus ps) (address ps) w of (f, w) \<Rightarrow>
     if f < 0 then Some ((- 1, ps\<lparr>fd := f\<rparr>), eprintf (''can't open slave'' @ nl) w)
     else Some ((0, ps\<lparr>fd := f\<rparr>), w))"

text \<open>
  The three outcomes of the prologue, for every block of parameters it is given: an argument it needs
  is missing, an argument is refused before any call is made, or all are parsed and the slave is
  opened.
\<close>

lemma smbus_prologue_register:
  assumes "2 < length argv" and "parse_uint8 (argv ! 1) w = (Some bus, w)" and "parse_uint8 (argv ! 2) w = (Some slave, w)"
  obtains (undefined) "\<forall>ps. smbus_prologue E argv ps op w = None" "needs_reg op \<and> length argv < 4"
    | (refused) f w' where "\<forall>ps. smbus_prologue E argv ps op w = Some ((- 1, f ps), w')"
      "trace w' = trace w" "kstate w' = kstate w" "stdout w' = stdout w"
    | (parsed) r where "needs_reg op \<longrightarrow> parse_uint8 (argv ! 3) w = (Some r, w)"
      "\<forall>ps. smbus_prologue E argv ps op w =
         attach E (ps\<lparr>i2c_bus := bus, address := slave, reg := (if needs_reg op then r else reg ps)\<rparr>) w"
proof -
  note prologue = smbus_prologue_def [folded needs_reg_def] argp_def
  consider "\<not> needs_reg op" | "needs_reg op" "length argv < 4" | "needs_reg op" "3 < length argv" by linarith
  then show ?thesis
  proof cases
    case 1
    with assms show ?thesis
      by (intro parsed [of 0]) (simp_all add: prologue attach_def Let_def cong: if_cong)
  next
    case 2
    with assms show ?thesis by (intro undefined) (auto simp: prologue)
  next
    case 3
    show ?thesis
    proof (cases "argv ! 3" w rule: parse_uint8_cases)
      case (bad w')
      with assms 3 show ?thesis
        by (intro refused [of "\<lambda>ps. ps\<lparr>i2c_bus := bus, address := slave\<rparr>"
              "eprintf (''invalid register value'' @ nl) w'"]) (simp_all add: prologue)
    next
      case (good r)
      with assms 3 show ?thesis
        by (intro parsed [of r]) (simp_all add: prologue attach_def Let_def cong: if_cong)
    qed
  qed
qed

lemma smbus_prologue_cases:
  obtains (undefined) "\<forall>ps. smbus_prologue E argv ps op w = None"
      "length argv < 3 \<or> needs_reg op \<and> length argv < 4"
    | (refused) f w' where "\<forall>ps. smbus_prologue E argv ps op w = Some ((- 1, f ps), w')"
      "trace w' = trace w" "kstate w' = kstate w" "stdout w' = stdout w"
    | (parsed) bus slave r where "parse_uint8 (argv ! 1) w = (Some bus, w)"
      "parse_uint8 (argv ! 2) w = (Some slave, w)"
      "needs_reg op \<longrightarrow> parse_uint8 (argv ! 3) w = (Some r, w)"
      "\<forall>ps. smbus_prologue E argv ps op w =
         attach E (ps\<lparr>i2c_bus := bus, address := slave, reg := (if needs_reg op then r else reg ps)\<rparr>) w"
proof (cases "1 < length argv")
  case False
  then show ?thesis by (intro undefined) (auto simp: smbus_prologue_def argp_def)
next
  case 2: True
  note prologue = smbus_prologue_def [folded needs_reg_def] argp_def
  show ?thesis
  proof (cases "argv ! 1" w rule: parse_uint8_cases)
    case (bad w')
    with 2 show ?thesis
      by (intro refused [of "\<lambda>ps. ps" "eprintf (''invalid adapter value'' @ nl) w'"]) (simp_all add: prologue)
  next
    case bus: (good bus)
    show ?thesis
    proof (cases "2 < length argv")
      case False
      with 2 bus show ?thesis by (intro undefined) (auto simp: prologue)
    next
      case 3: True
      show ?thesis
      proof (cases "argv ! 2" w rule: parse_uint8_cases)
        case (bad w')
        with 2 3 bus show ?thesis
          by (intro refused [of "\<lambda>ps. ps\<lparr>i2c_bus := bus\<rparr>" "eprintf (''invalid address value'' @ nl) w'"])
            (simp_all add: prologue)
      next
        case slave: (good slave)
        show ?thesis
          by (rule smbus_prologue_register [OF 3 bus slave, where E = E and op = op])
            ((erule undefined, simp), (erule refused; assumption), (rule parsed [OF bus slave]; assumption))
      qed
    qed
  qed
qed

lemma attach_fds:
  assumes "attach E ps w = Some ((rc, ps'), w')"
  shows "(rc = - 1 \<and> open_fds (trace w') = open_fds (trace w) \<or>
      rc = 0 \<and> open_fds (trace w') = fd ps' # open_fds (trace w)) \<and>
      (disciplined (trace w) \<longrightarrow> disciplined (trace w'))"
  using assms by (auto simp: attach_def split: prod.splits if_splits dest!: open_i2c_slave_fds)

lemma smbus_prologue_fds:
  assumes "smbus_prologue E argv ps op w = Some ((rc, ps'), w')"
  shows "(rc = - 1 \<and> open_fds (trace w') = open_fds (trace w) \<or>
      rc = 0 \<and> open_fds (trace w') = fd ps' # open_fds (trace w)) \<and>
      (disciplined (trace w) \<longrightarrow> disciplined (trace w'))"
  using assms
  by (cases rule: smbus_prologue_cases [of E argv op w, case_names undefined refused parsed]) (auto dest!: attach_fds)

lemma parse_io_width_fds:
  assumes "parse_io_width arg ps op w = Some ((rc, ps'), w')"
  shows "trace w' = trace w \<and> fd ps' = fd ps"
  using parse_io_width_safe [of arg ps op w] assms by auto

interpretation smbus_read_fds: fd_clean "\<lambda>E (junk, argv, info). smbus_read E junk argv info"
  by unfold_locales
    (auto simp: smbus_read_def same_fds_def split: bind_splits if_splits
      dest!: smbus_prologue_fds run_perform_op_fds)

interpretation smbus_write_fds: fd_clean "\<lambda>E (junk, argv, info). smbus_write E junk argv info"
  by unfold_locales
    (auto simp: smbus_write_def same_fds_def Let_def split: bind_splits if_splits
      dest!: smbus_prologue_fds run_perform_op_fds parse_io_width_fds)

interpretation smbus_process_call_fds: fd_clean "\<lambda>E (junk, argv, info). smbus_process_call E junk argv info"
  by unfold_locales
    (auto simp: smbus_process_call_def same_fds_def Let_def split: bind_splits if_splits
      dest!: smbus_prologue_fds run_perform_op_fds parse_io_width_fds)


section \<open>Memory safety\<close>

text \<open>
  What the kernel documents of a block request that succeeds: the length it stores is at most the 32
  of the standard.
\<close>

definition block_length_ok :: "'k env \<Rightarrow> bool" where
  "block_length_ok E \<longleftrightarrow> (\<forall>f rw command sz bs k.
     sz \<in> {I2C_SMBUS_BLOCK_DATA, I2C_SMBUS_I2C_BLOCK_DATA, I2C_SMBUS_BLOCK_PROC_CALL} \<longrightarrow>
     ret (fst (kernel E (Ioctl f I2C_SMBUS (Smbus_args rw command sz bs)) k)) = 0 \<longrightarrow>
     unat (buf (fst (kernel E (Ioctl f I2C_SMBUS (Smbus_args rw command sz bs)) k)) 0) \<le> I2C_SMBUS_BLOCK_MAX)"

lemma block_length_okD:
  assumes "block_length_ok E"
    and "sz \<in> {I2C_SMBUS_BLOCK_DATA, I2C_SMBUS_I2C_BLOCK_DATA, I2C_SMBUS_BLOCK_PROC_CALL}"
    and "rv (sys E (Ioctl f I2C_SMBUS (Smbus_args rw command sz bs)) w) = 0"
  shows "unat (buf (res (sys E (Ioctl f I2C_SMBUS (Smbus_args rw command sz bs)) w)) 0) \<le> 34"
proof -
  have "unat (buf (res (sys E (Ioctl f I2C_SMBUS (Smbus_args rw command sz bs)) w)) 0) \<le> I2C_SMBUS_BLOCK_MAX"
    using assms unfolding block_length_ok_def rv_def sys_kernel by blast
  then show ?thesis by (simp add: I2C_SMBUS_BLOCK_MAX_def)
qed

lemma clamped_copy:
  assumes "length arr = DTYPE_SIZE"
  shows "copy_to_block 1 (unat (clamp_length n)) arr = Some (take (unat (clamp_length n)) arr)"
  using clamp_length_le [of n] assms
  by (intro copy_to_block_take) (simp_all add: DTYPE_SIZE_def I2C_SMBUS_BLOCK_MAX_def)

lemma read_copy:
  "length arr = DTYPE_SIZE \<Longrightarrow> n \<le> 34 \<Longrightarrow>
     copy_from_block 1 n block arr = Some (map block [1..<n + 1] @ drop n arr)"
  by (simp add: copy_block DTYPE_SIZE_def I2C_SMBUS_BLOCK_MAX_def)

lemma sint_short: "0 \<le> n \<Longrightarrow> n \<le> 32 \<Longrightarrow> sint (word_of_int n :: u16) = n"
  by (simp add: sint_uint uint_word_of_int signed_take_bit_int_eq_self)

lemma run_perform_op_defined:
  assumes "block_length_ok E" and "length (data ps) = DTYPE_SIZE"
    and "perform_op op = P_smbus_writeread_op \<Longrightarrow> unat (read_count ps) \<le> I2C_SMBUS_BLOCK_MAX \<and> 0 \<le> len ps \<and> len ps \<le> 32"
  shows "run_perform_op E ps op w \<noteq> None"
proof -
  note block = block_length_okD [OF assms(1)] read_copy clamped_copy assms(2)
  have "smbus_read_op E ps op w \<noteq> None"
    by (cases "op_size op") (simp_all add: smbus_read_op_def i2c_defs Let_def block)
  moreover have "smbus_write_op E ps op w \<noteq> None"
    by (cases "op_size op") (simp_all add: smbus_write_op_def i2c_defs Let_def block)
  moreover have "smbus_process_call_op E ps op w \<noteq> None"
    by (simp add: smbus_process_call_op_def i2c_defs Let_def)
  moreover have "smbus_block_process_call_op E ps op w \<noteq> None"
    by (simp add: smbus_block_process_call_op_def i2c_defs Let_def block)
  moreover have "smbus_writeread_op E ps op w \<noteq> None" if "perform_op op = P_smbus_writeread_op"
    using assms(3) [OF that] sint_short [of "len ps"]
    by (auto simp add: smbus_writeread_op_def Let_def assms(2) DTYPE_SIZE_def I2C_SMBUS_BLOCK_MAX_def)
  ultimately show ?thesis
    by (simp add: run_perform_op_def split: perform_fn.splits)
qed


lemma attach_data: "attach E ps w = Some ((rc, ps'), w') \<Longrightarrow> data ps' = data ps"
  by (auto simp: attach_def split: prod.splits if_splits)

lemma attach_defined: "attach E ps w \<noteq> None"
  by (simp add: attach_def split: prod.splits)

lemma smbus_prologue_defined:
  assumes "3 \<le> length argv" and "needs_reg op \<Longrightarrow> 4 \<le> length argv"
  shows "smbus_prologue E argv ps op w \<noteq> None"
  by (cases rule: smbus_prologue_cases [of E argv op w, case_names undefined refused parsed]) (use assms attach_defined in auto)

lemma parse_io_width_defined: "parse_io_width arg ps op w \<noteq> None"
  using parse_io_width_safe [of arg ps op w] by auto

lemma parse_io_width_data:
  "parse_io_width arg ps op w = Some ((rc, ps'), w') \<Longrightarrow> \<not> rc < 0 \<Longrightarrow> length (data ps') = DTYPE_SIZE"
  using parse_io_width_safe [of arg ps op w] by (auto simp: parsed_ok_def)

lemmas smbus_table = smbus_cmds_def MAKE_SMBUS_RW_CMDS_def MAKE_SMBUS_OP_def
  smbus_params_defs make_cmd_defs


section \<open>The uninitialised parameters\<close>

text \<open>
  The parts of two parameter blocks that an operation may look at: after the prologue, and after the
  data argument has been parsed too.
\<close>

definition agree :: "smbus_op \<Rightarrow> smbus_op_params \<Rightarrow> smbus_op_params \<Rightarrow> bool" where
  "agree op p q \<longleftrightarrow> fd p = fd q \<and> address p = address q \<and> (needs_reg op \<longrightarrow> reg p = reg q)"

definition is_block :: "smbus_op \<Rightarrow> bool" where
  "is_block op \<longleftrightarrow> op_size op \<in> {SMBUS_SIZE_BLOCK, SMBUS_BLOCK_PROC_CALL, SMBUS_WRITE_READ}"

definition agree_data :: "smbus_op \<Rightarrow> smbus_op_params \<Rightarrow> smbus_op_params \<Rightarrow> bool" where
  "agree_data op p q \<longleftrightarrow> agree op p q \<and> data p = data q \<and> (is_block op \<longrightarrow> len p = len q)"

lemma attach_agree:
  assumes "i2c_bus p = i2c_bus q" and "address p = address q" and "needs_reg op \<longrightarrow> reg p = reg q"
  shows "\<exists>rc p' q' w'. attach E p w = Some ((rc, p'), w') \<and> attach E q w = Some ((rc, q'), w') \<and>
    agree op p' q'"
  using assms by (simp add: attach_def agree_def split: prod.splits)

lemma smbus_prologue_agree:
  "smbus_prologue E argv p op w = None \<and> smbus_prologue E argv q op w = None \<or>
   (\<exists>rc p' q' w'. smbus_prologue E argv p op w = Some ((rc, p'), w') \<and>
      smbus_prologue E argv q op w = Some ((rc, q'), w') \<and> (rc < 0 \<or> agree op p' q'))"
proof (cases rule: smbus_prologue_cases [of E argv op w, case_names undefined refused parsed])
  case (parsed bus slave r)
  with attach_agree [of "p\<lparr>i2c_bus := bus, address := slave, reg := (if needs_reg op then r else reg p)\<rparr>"
      "q\<lparr>i2c_bus := bus, address := slave, reg := (if needs_reg op then r else reg q)\<rparr>" op E w]
  show ?thesis by auto
qed auto


lemma parse_block_outcome:
  assumes "length D = DTYPE_SIZE"
  shows "(\<exists>arr w'. \<forall>p. data p = D \<longrightarrow> parse_block arg p w = Some ((- 1, p\<lparr>data := arr\<rparr>), w')) \<or>
    (\<exists>arr n w'. \<forall>p. data p = D \<longrightarrow> parse_block arg p w = Some ((0, p\<lparr>data := arr, len := n\<rparr>), w'))"
proof (cases "length arg \<le> 0 \<or> length arg mod 2 \<noteq> 0 \<or> length (block_digits arg) div 2 > I2C_SMBUS_BLOCK_MAX")
  case True
  then show ?thesis
    by (cases "length arg \<le> 0 \<or> length arg mod 2 \<noteq> 0"; intro disjI1 exI [of _ D])
      (auto simp: parse_block_digits)
next
  case False
  obtain rc arr w' where "parse_bytes (block_digits arg) 0 D w = Some ((rc, arr), w')"
    using parse_block_safe [of "zero_params\<lparr>data := D\<rparr>" arg w] assms False
    by (cases "parse_bytes (block_digits arg) 0 D w") (auto simp: parse_block_digits)
  with False show ?thesis
    by (cases "rc = 0") (auto simp: parse_block_digits)
qed

lemma parse_io_width_agree:
  assumes "agree op p q"
  shows "\<exists>rc p' q' w'. parse_io_width arg p op w = Some ((rc, p'), w') \<and>
    parse_io_width arg q op w = Some ((rc, q'), w') \<and> agree op p' q' \<and> (rc < 0 \<or> agree_data op p' q')"
proof -
  have block: "\<exists>rc p' q' w'. parse_block arg (p\<lparr>data := replicate DTYPE_SIZE 0\<rparr>) w = Some ((rc, p'), w') \<and>
      parse_block arg (q\<lparr>data := replicate DTYPE_SIZE 0\<rparr>) w = Some ((rc, q'), w') \<and>
      agree op p' q' \<and> data p' = data q' \<and> (rc < 0 \<or> len p' = len q')"
    using parse_block_outcome [of "replicate DTYPE_SIZE 0" arg w] assms
    by (auto simp: agree_def)
  show ?thesis
    using block assms
    by (cases "op_size op")
      (auto simp: parse_io_width_def agree_data_def is_block_def Let_def agree_def split: prod.splits)
qed

lemma run_perform_op_agree:
  "agree op p q \<Longrightarrow> perform_op op = P_smbus_read_op \<Longrightarrow> run_perform_op E p op w = run_perform_op E q op w"
  "agree_data op p q \<Longrightarrow> perform_op op = P_smbus_write_op \<Longrightarrow> run_perform_op E p op w = run_perform_op E q op w"
  "agree_data op p q \<Longrightarrow> perform_op op = P_smbus_process_call_op \<Longrightarrow> needs_reg op \<Longrightarrow>
     run_perform_op E p op w = run_perform_op E q op w"
  "agree_data op p q \<Longrightarrow> perform_op op = P_smbus_block_process_call_op \<Longrightarrow> needs_reg op \<Longrightarrow> is_block op \<Longrightarrow>
     run_perform_op E p op w = run_perform_op E q op w"
proof -
  show "agree op p q \<Longrightarrow> perform_op op = P_smbus_read_op \<Longrightarrow> run_perform_op E p op w = run_perform_op E q op w"
    by (cases "op_size op") (simp_all add: run_perform_op_def smbus_read_op_def agree_def needs_reg_def Let_def
      cong: if_cong option.case_cong)
  show "agree_data op p q \<Longrightarrow> perform_op op = P_smbus_write_op \<Longrightarrow> run_perform_op E p op w = run_perform_op E q op w"
    by (cases "op_size op")
      (simp_all add: run_perform_op_def smbus_write_op_def agree_data_def agree_def needs_reg_def is_block_def Let_def
        cong: if_cong option.case_cong)
qed (simp_all add: run_perform_op_def agree_data_def agree_def smbus_process_call_op_def
    smbus_block_process_call_op_def Let_def cong: if_cong)

lemma smbus_read_agree:
  assumes "privdata info = Smbus_op op" and "perform_op op = P_smbus_read_op"
  shows "smbus_read E p argv info w = smbus_read E q argv info w"
  using smbus_prologue_agree [of E argv p op w q]
proof (elim disjE exE conjE)
  fix rc p' q' w'
  assume pq: "smbus_prologue E argv p op w = Some ((rc, p'), w')"
    "smbus_prologue E argv q op w = Some ((rc, q'), w')" and agree: "agree op p' q'"
  from agree have "fd p' = fd q'" by (simp add: agree_def)
  with run_perform_op_agree(1) [OF agree assms(2), of E w'] assms pq show ?thesis
    by (simp add: smbus_read_def)
qed (use assms in \<open>simp_all add: smbus_read_def\<close>)

definition write_like :: "smbus_op \<Rightarrow> bool" where
  "write_like op \<longleftrightarrow> perform_op op = P_smbus_write_op \<or>
     perform_op op = P_smbus_process_call_op \<and> needs_reg op \<or>
     perform_op op = P_smbus_block_process_call_op \<and> needs_reg op \<and> is_block op"

text \<open>Parsing the data and performing the operation, the common tail of the writing entry points.\<close>

definition parse_and_perform ::
    "'k env \<Rightarrow> nat \<Rightarrow> string list \<Rightarrow> smbus_op_params \<Rightarrow> smbus_op \<Rightarrow> 'k world \<Rightarrow> ('k, int) result" where
  "parse_and_perform E n argv ps op w = do {
     arg \<leftarrow> argp argv n;
     ((rc, ps), w) \<leftarrow> parse_io_width arg ps op w;
     if rc < 0 then do {
       a0 \<leftarrow> argp argv 0;
       Some (- 1, sys E (Close (fd ps))
         (eprintf (a0 @ '': '' @ arg @ '': invalid value to write'' @ nl) w))
     }
     else do {
       (ret, w) \<leftarrow> run_perform_op E ps op w;
       Some (ret, sys E (Close (fd ps)) w)
     }
   }"

lemma parse_and_perform_agree:
  assumes "agree op p q" and "write_like op"
  shows "parse_and_perform E n argv p op w = parse_and_perform E n argv q op w"
proof (cases "argp argv n")
  case None
  then show ?thesis by (simp add: parse_and_perform_def)
next
  case (Some arg)
  obtain rc p' q' w' where parsed: "parse_io_width arg p op w = Some ((rc, p'), w')"
    "parse_io_width arg q op w = Some ((rc, q'), w')" "agree op p' q'" "rc < 0 \<or> agree_data op p' q'"
    using parse_io_width_agree [OF assms(1), of arg w] by blast
  have "\<not> rc < 0 \<Longrightarrow> run_perform_op E p' op w' = run_perform_op E q' op w'"
    using parsed(4) assms(2) run_perform_op_agree(2-4) [of op p' q' E w'] by (auto simp: write_like_def)
  with Some parsed show ?thesis
    by (simp add: parse_and_perform_def agree_def)
qed

lemma smbus_write_tail:
  assumes "privdata info = Smbus_op op"
  shows "smbus_write E junk argv info w = do {
      ((rc, ps), w) \<leftarrow> smbus_prologue E argv junk op w;
      if rc < 0 then Some (- 1, w)
      else parse_and_perform E (if op_size op = SMBUS_SIZE_BYTE \<or> op_size op = SMBUS_QUICK then 3 else 4)
        argv ps op w }"
    and "smbus_process_call E junk argv info w = do {
      ((rc, ps), w) \<leftarrow> smbus_prologue E argv junk op w;
      if rc < 0 then Some (- 1, w) else parse_and_perform E 4 argv ps op w }"
  unfolding smbus_write_def smbus_process_call_def parse_and_perform_def Let_def assms op_of.simps
  by simp_all

lemma smbus_write_agree:
  assumes "privdata info = Smbus_op op" and "write_like op"
  shows "smbus_write E p argv info w = smbus_write E q argv info w"
    and "smbus_process_call E p argv info w = smbus_process_call E q argv info w"
  using smbus_prologue_agree [of E argv p op w q] parse_and_perform_agree [OF _ assms(2)] assms(1)
  by (auto simp: smbus_write_tail)

lemma smbus_table_cases:
  assumes "info \<in> set smbus_cmds"
  obtains (rd) op where "entry info = E_smbus_read" "privdata info = Smbus_op op"
      "perform_op op = P_smbus_read_op"
      "min_args (the (params info)) \<ge> (if needs_reg op then 4 else 3)"
    | (wr) op where "entry info = E_smbus_write" "privdata info = Smbus_op op" "write_like op"
      "min_args (the (params info)) \<ge> (if op_size op = SMBUS_SIZE_BYTE \<or> op_size op = SMBUS_QUICK then 4 else 5)"
    | (pcall) op where "entry info = E_smbus_process_call" "privdata info = Smbus_op op" "write_like op"
      "min_args (the (params info)) \<ge> 5"
    | (wrrd) op where "entry info = E_smbus_writeread" "privdata info = Smbus_op op"
      "min_args (the (params info)) \<ge> 5" "op_size op = SMBUS_WRITE_READ"
  using assms that
  by (auto simp: smbus_table write_like_def needs_reg_def is_block_def)


lemma parse_and_perform_defined:
  assumes "block_length_ok E" and "n < length argv" and "write_like op"
  shows "parse_and_perform E n argv ps op w \<noteq> None"
proof -
  obtain rc ps' w' where p: "parse_io_width (argv ! n) ps op w = Some ((rc, ps'), w')"
    using parse_io_width_safe by blast
  have "0 < length argv" using assms(2) by linarith
  with p show ?thesis
    using assms run_perform_op_defined [OF assms(1) parse_io_width_data [OF p], of op w']
    unfolding write_like_def
    by (auto simp: parse_and_perform_def)
qed

lemma smbus_prologue_data:
  assumes "smbus_prologue E argv ps op w = Some ((rc, ps'), w')" and "\<not> rc < 0"
  shows "data ps' = data ps"
  using assms
  by (cases rule: smbus_prologue_cases [of E argv op w, case_names undefined refused parsed])
    (auto dest!: attach_data)

lemma smbus_read_defined:
  assumes "block_length_ok E" and "length (data junk) = DTYPE_SIZE" and "privdata info = Smbus_op op"
    and "(if needs_reg op then 4 else 3) \<le> length argv" and "perform_op op = P_smbus_read_op"
  shows "smbus_read E junk argv info w \<noteq> None"
proof -
  have "smbus_prologue E argv junk op w \<noteq> None"
    using assms(4) by (intro smbus_prologue_defined) (auto split: if_splits)
  then obtain rc ps w' where p: "smbus_prologue E argv junk op w = Some ((rc, ps), w')"
    by auto
  show ?thesis
  proof (cases "rc < 0")
    case False
    then have "run_perform_op E ps op w' \<noteq> None"
      using run_perform_op_defined [OF assms(1), of ps op w'] smbus_prologue_data [OF p] assms(2,5) by simp
    with p assms(3) show ?thesis by (auto simp: smbus_read_def)
  qed (use p assms(3) in \<open>simp add: smbus_read_def\<close>)
qed

lemma smbus_write_defined:
  assumes "block_length_ok E" and "privdata info = Smbus_op op"
    and "(if op_size op = SMBUS_SIZE_BYTE \<or> op_size op = SMBUS_QUICK then 4 else 5) \<le> length argv"
    and "write_like op"
  shows "smbus_write E junk argv info w \<noteq> None"
proof -
  have "smbus_prologue E argv junk op w \<noteq> None"
    using assms(3) by (intro smbus_prologue_defined) (auto split: if_splits)
  then show ?thesis
    using assms(3) parse_and_perform_defined [OF assms(1) _ assms(4), of 3 argv]
      parse_and_perform_defined [OF assms(1) _ assms(4), of 4 argv]
    by (auto simp: smbus_write_tail(1) [OF assms(2)])
qed

lemma smbus_process_call_defined:
  assumes "block_length_ok E" and "privdata info = Smbus_op op" and "5 \<le> length argv" and "write_like op"
  shows "smbus_process_call E junk argv info w \<noteq> None"
proof -
  have "smbus_prologue E argv junk op w \<noteq> None"
    using assms(3) by (intro smbus_prologue_defined) auto
  then show ?thesis
    using assms(3) parse_and_perform_defined [OF assms(1) _ assms(4), of 4 argv]
    by (auto simp: smbus_write_tail(2) [OF assms(2)])
qed

lemma smbus_writeread_defined:
  assumes "block_length_ok E" and "privdata info = Smbus_op op" and "5 \<le> length argv"
    and "op_size op = SMBUS_WRITE_READ"
  shows "smbus_writeread E argv info w \<noteq> None"
proof -
  have "smbus_prologue E argv zero_params op w \<noteq> None"
    using assms(3) by (intro smbus_prologue_defined) auto
  then obtain rc ps w' where p: "smbus_prologue E argv zero_params op w = Some ((rc, ps), w')"
    by auto
  obtain rc' ps' w'' where q: "parse_io_width (argv ! 3) ps op w' = Some ((rc', ps'), w'')"
    "rc' = 0 \<and> parsed_ok op ps' \<or> rc' = - 1"
    using parse_io_width_safe by blast
  have args: "0 < length argv" "3 < length argv" "4 < length argv" using assms(3) by auto
  show ?thesis
  proof (cases "rc < 0 \<or> rc' < 0")
    case True
    with p q args assms(2) show ?thesis by (auto simp: smbus_writeread_def)
  next
    case False
    then have "parsed_ok op ps'" using q(2) by auto
    then have run: "run_perform_op E (ps'\<lparr>read_count := n\<rparr>) op v \<noteq> None" if "unat n \<le> I2C_SMBUS_BLOCK_MAX" for n v
      using run_perform_op_defined [OF assms(1), of "ps'\<lparr>read_count := n\<rparr>" op v] that assms(4)
      by (simp add: parsed_ok_def)
    show ?thesis
    proof (cases "argv ! 4" w'' rule: parse_uint8_cases)
      case bad
      with p q args assms(2) False show ?thesis by (simp add: smbus_writeread_def)
    next
      case (good n)
      with p q(1) args assms(2) False run [of n w''] show ?thesis by (auto simp: smbus_writeread_def not_less)
    qed
  qed
qed

section \<open>Register access\<close>

text \<open>
  The documented behaviour of an adapter and one of its slaves, for requests of one protocol
  \<open>sz\<close> with registers of \<open>n\<close> bytes: opening the adapter for reading and writing succeeds, so does
  attaching its descriptor, a write request stores the register, a read request returns it.  With the
  I2C block protocol a write sends the length in front of the bytes, a read asks for a length, and
  exactly that many bytes come back behind the length; they are the register when its size was asked
  for, and nothing is promised of them otherwise.
\<close>

record 'k slave_view =
  adapter_fd :: "'k \<Rightarrow> int \<Rightarrow> bool"
  attached :: "'k \<Rightarrow> int \<Rightarrow> bool"
  slave_reg :: "'k \<Rightarrow> u8 \<Rightarrow> u8 list"

definition frame :: "int \<Rightarrow> u8 list \<Rightarrow> u8 list" where
  "frame sz bs = (if sz = I2C_SMBUS_I2C_BLOCK_DATA then of_nat (length bs) # bs else bs)"

definition request :: "int \<Rightarrow> nat \<Rightarrow> u8 list" where
  "request sz m = (if sz = I2C_SMBUS_I2C_BLOCK_DATA then [of_nat m] else [])"

definition smbus_slave ::
    "'k env \<Rightarrow> 'k slave_view \<Rightarrow> u8 \<Rightarrow> u8 \<Rightarrow> int \<Rightarrow> nat \<Rightarrow> bool" where
  "smbus_slave E V bus slave sz n \<longleftrightarrow>
    (\<forall>k r k'. kernel E (Open (devfile bus) O_RDWR) k = (r, k') \<longrightarrow>
       0 \<le> ret r \<and> adapter_fd V k' (ret r) \<and> slave_reg V k' = slave_reg V k) \<and>
    (\<forall>k f req r k'. kernel E (Ioctl f req (Slave_address slave)) k = (r, k') \<longrightarrow>
       req = I2C_SLAVE \<or> req = I2C_SLAVE_FORCE \<longrightarrow> adapter_fd V k f \<longrightarrow>
       0 \<le> ret r \<and> adapter_fd V k' f \<and> attached V k' f \<and> slave_reg V k' = slave_reg V k) \<and>
    (\<forall>k f c bs r k'. kernel E (Ioctl f I2C_SMBUS (Smbus_args I2C_SMBUS_WRITE c sz (Some (frame sz bs)))) k = (r, k') \<longrightarrow>
       attached V k f \<longrightarrow> length bs = n \<longrightarrow> ret r = 0 \<and> slave_reg V k' c = bs) \<and>
    (\<forall>k f c m r k'. kernel E (Ioctl f I2C_SMBUS (Smbus_args I2C_SMBUS_READ c sz (Some (request sz m)))) k = (r, k') \<longrightarrow>
       attached V k f \<longrightarrow> m \<le> I2C_SMBUS_BLOCK_MAX \<longrightarrow> ret r = 0 \<and> length (slave_reg V k c) = n \<and>
       map (buf r) [0..<length (request sz m)] = request sz m \<and>
       (m = n \<longrightarrow> map (buf r) [0..<length (frame sz (slave_reg V k c))] = frame sz (slave_reg V k c)) \<and>
       slave_reg V k' = slave_reg V k) \<and>
    (\<forall>k f r k'. kernel E (Close f) k = (r, k') \<longrightarrow> slave_reg V k' = slave_reg V k)"

lemma smbus_slaveD:
  assumes "smbus_slave E V bus slave sz n"
  shows "kernel E (Open (devfile bus) O_RDWR) k = (r, k') \<Longrightarrow>
      0 \<le> ret r \<and> adapter_fd V k' (ret r) \<and> slave_reg V k' = slave_reg V k"
    and "kernel E (Ioctl f req (Slave_address slave)) k = (r, k') \<Longrightarrow>
      req = I2C_SLAVE \<or> req = I2C_SLAVE_FORCE \<Longrightarrow> adapter_fd V k f \<Longrightarrow>
      0 \<le> ret r \<and> adapter_fd V k' f \<and> attached V k' f \<and> slave_reg V k' = slave_reg V k"
    and "kernel E (Ioctl f I2C_SMBUS (Smbus_args I2C_SMBUS_WRITE c sz (Some (frame sz bs)))) k = (r, k') \<Longrightarrow>
      attached V k f \<Longrightarrow> length bs = n \<Longrightarrow> ret r = 0 \<and> slave_reg V k' c = bs"
    and "kernel E (Ioctl f I2C_SMBUS (Smbus_args I2C_SMBUS_READ c sz (Some (request sz n)))) k = (r, k') \<Longrightarrow>
      attached V k f \<Longrightarrow> n \<le> I2C_SMBUS_BLOCK_MAX \<Longrightarrow> ret r = 0 \<and> length (slave_reg V k c) = n \<and>
      map (buf r) [0..<length (frame sz (slave_reg V k c))] = frame sz (slave_reg V k c) \<and>
      slave_reg V k' = slave_reg V k"
    and "kernel E (Close f) k = (r, k') \<Longrightarrow> slave_reg V k' = slave_reg V k"
  using assms unfolding smbus_slave_def by fastforce+

lemma slave_Open:
  assumes "smbus_slave E V bus slave sz n"
  shows "\<not> rv (sys E (Open (devfile bus) O_RDWR) w) < 0"
    and "adapter_fd V (kstate (sys E (Open (devfile bus) O_RDWR) w)) (rv (sys E (Open (devfile bus) O_RDWR) w))"
    and "slave_reg V (kstate (sys E (Open (devfile bus) O_RDWR) w)) =
      slave_reg V (kstate w)"
  using smbus_slaveD(1) [OF assms prod.collapse [symmetric], of "kstate w"] by (simp_all add: rv_def sys_kernel)

lemma slave_attach:
  assumes "smbus_slave E V bus slave sz n" and "req = I2C_SLAVE \<or> req = I2C_SLAVE_FORCE"
    and "adapter_fd V (kstate w) f"
  shows "\<not> rv (sys E (Ioctl f req (Slave_address slave)) w) < 0"
    and "adapter_fd V (kstate (sys E (Ioctl f req (Slave_address slave)) w)) f"
    and "attached V (kstate (sys E (Ioctl f req (Slave_address slave)) w)) f"
    and "slave_reg V (kstate (sys E (Ioctl f req (Slave_address slave)) w)) = slave_reg V (kstate w)"
  using smbus_slaveD(2) [OF assms(1) prod.collapse [symmetric] assms(2,3)] by (simp_all add: rv_def sys_kernel)

lemma slave_write:
  assumes "smbus_slave E V bus slave sz n" and "attached V (kstate w) f" and "length bs = n"
  shows "rv (sys E (Ioctl f I2C_SMBUS (Smbus_args I2C_SMBUS_WRITE c sz (Some (frame sz bs)))) w) = 0"
    and "slave_reg V (kstate (sys E (Ioctl f I2C_SMBUS
      (Smbus_args I2C_SMBUS_WRITE c sz (Some (frame sz bs)))) w)) c = bs"
  using smbus_slaveD(3) [OF assms(1) prod.collapse [symmetric] assms(2,3)] by (simp_all add: rv_def sys_kernel)

lemma slave_read:
  assumes "smbus_slave E V bus slave sz n" and "attached V (kstate w) f" and "n \<le> I2C_SMBUS_BLOCK_MAX"
  shows "rv (sys E (Ioctl f I2C_SMBUS (Smbus_args I2C_SMBUS_READ c sz (Some (request sz n)))) w) = 0"
    and "length (slave_reg V (kstate w) c) = n"
    and "rdbuf (length (frame sz (slave_reg V (kstate w) c)))
      (sys E (Ioctl f I2C_SMBUS (Smbus_args I2C_SMBUS_READ c sz (Some (request sz n)))) w) =
      frame sz (slave_reg V (kstate w) c)"
    and "slave_reg V (kstate (sys E (Ioctl f I2C_SMBUS (Smbus_args I2C_SMBUS_READ c sz (Some (request sz n)))) w)) =
      slave_reg V (kstate w)"
  using smbus_slaveD(4) [OF assms(1) prod.collapse [symmetric] assms(2,3)]
  by (simp_all add: rv_def rdbuf_def sys_kernel)

lemma slave_Close:
  assumes "smbus_slave E V bus slave sz n"
  shows "slave_reg V (kstate (sys E (Close f) w)) = slave_reg V (kstate w)"
  using smbus_slaveD(5) [OF assms prod.collapse [symmetric]] by (simp add: sys_kernel)

text \<open>The width, the protocol and the table entry of the four register commands.\<close>

fun io_smbus_size :: "IO_SIZE \<Rightarrow> SMBUS_SIZE" where
  "io_smbus_size SIZE8 = SMBUS_SIZE_8"
| "io_smbus_size SIZE16 = SMBUS_SIZE_16"
| "io_smbus_size SIZE32 = SMBUS_SIZE_32"
| "io_smbus_size SIZE64 = SMBUS_SIZE_64"

fun io_protocol :: "IO_SIZE \<Rightarrow> int" where
  "io_protocol SIZE8 = I2C_SMBUS_BYTE_DATA"
| "io_protocol SIZE16 = I2C_SMBUS_WORD_DATA"
| "io_protocol SIZE32 = I2C_SMBUS_I2C_BLOCK_DATA"
| "io_protocol SIZE64 = I2C_SMBUS_I2C_BLOCK_DATA"

definition smbus_read_info :: "IO_SIZE \<Rightarrow> cmd_info" where
  "smbus_read_info sz = MAKE_SMBUS_RW_CMDS (size_suffix sz) (io_smbus_size sz) ! 0"

definition smbus_write_info :: "IO_SIZE \<Rightarrow> cmd_info" where
  "smbus_write_info sz = MAKE_SMBUS_RW_CMDS (size_suffix sz) (io_smbus_size sz) ! 1"

lemma smbus_info_in_table:
  "smbus_read_info sz \<in> set smbus_cmds" "smbus_write_info sz \<in> set smbus_cmds"
proof -
  let ?rw = "MAKE_SMBUS_RW_CMDS (size_suffix sz) (io_smbus_size sz)"
  have "length ?rw = 2" by (simp add: MAKE_SMBUS_RW_CMDS_def)
  then have "smbus_read_info sz \<in> set ?rw" "smbus_write_info sz \<in> set ?rw"
    by (simp_all add: smbus_read_info_def smbus_write_info_def)
  then show "smbus_read_info sz \<in> set smbus_cmds" "smbus_write_info sz \<in> set smbus_cmds"
    by (cases sz; simp add: smbus_cmds_def)+
qed

lemma smbus_info_op:
  "privdata (smbus_read_info sz) = Smbus_op \<lparr>op_size = io_smbus_size sz, perform_op = P_smbus_read_op\<rparr>"
  "privdata (smbus_write_info sz) = Smbus_op \<lparr>op_size = io_smbus_size sz, perform_op = P_smbus_write_op\<rparr>"
  by (simp_all add: smbus_read_info_def smbus_write_info_def MAKE_SMBUS_RW_CMDS_def MAKE_SMBUS_OP_def
      make_cmd_defs)


text \<open>The union as integer and as bytes.\<close>

lemma nth_set_fixed: "i < n \<Longrightarrow> set_fixed n v arr ! i = le_enc n v ! i"
  by (simp add: set_fixed_def nth_append)

lemma take_set_fixed [simp]: "take n (set_fixed n v arr) = le_enc n v"
  by (simp add: set_fixed_def)

lemma le_enc_fixed:
  assumes "8 * n \<le> LENGTH('a)" and "n \<le> 8"
  shows "le_enc n (ucast (fixed n (set_fixed n v arr)) :: 'a::len word) = le_enc n v"
proof (rule nth_equalityI)
  fix i
  assume "i < length (le_enc n (ucast (fixed n (set_fixed n v arr)) :: 'a word))"
  then have "i < n" by simp
  then show "le_enc n (ucast (fixed n (set_fixed n v arr)) :: 'a word) ! i = le_enc n v ! i"
    using assms by (intro bit_word_eqI) (auto simp: bit_nth_le_enc fixed_def bit_ucast_iff bit_le_dec)
qed simp

lemma le_enc_1_fixed: "[ucast (fixed 1 (set_fixed 1 v arr)) :: u8] = le_enc 1 v"
  using le_enc_fixed [where 'a = 8 and n = 1 and v = v and arr = arr]
  by (simp add: le_enc_def upt_rec)

lemma fixed_set_word:
  assumes "length bs = n" and "8 * n \<le> LENGTH('a)" and "n \<le> 8"
  shows "fixed n (set_fixed n (word_of_int (int (unat (le_dec bs :: 'a::len word)))) arr) = le_dec bs"
proof -
  have "le_enc n (ucast (le_dec bs :: 'a word) :: u64) = bs"
  proof (rule nth_equalityI)
    fix i
    assume "i < length (le_enc n (ucast (le_dec bs :: 'a word) :: u64))"
    then have "i < n" by simp
    then show "le_enc n (ucast (le_dec bs :: 'a word) :: u64) ! i = bs ! i"
      using assms by (intro bit_word_eqI) (auto simp: bit_nth_le_enc bit_ucast_iff bit_le_dec)
  qed (simp add: assms(1))
  then show ?thesis
    by (simp add: fixed_def)
qed


text \<open>
  The arguments of a successful command.  \<open>byte_text\<close>: the string denotes a number from 0 to 255.
  The commands accept more: the empty string, as 0, and the negative numbers that wrap to a byte.
  A value of 8 or 16 bits may be any number but \<^verbatim>\<open>LONG_MAX\<close>, one of 32 or 64 bits any number,
  each reduced to the width.
\<close>

definition byte_text :: "string \<Rightarrow> u8 \<Rightarrow> bool" where
  "byte_text a v \<longleftrightarrow> (\<exists>i. int_text a i \<and> 0 \<le> i \<and> i < 256 \<and> v = word_of_int i)"

definition wrapped_byte_text :: "string \<Rightarrow> u8 \<Rightarrow> bool" where
  "wrapped_byte_text a v \<longleftrightarrow> (\<exists>i. int_text a i \<and> - (2 ^ 64) < i \<and> i < 256 - 2 ^ 64 \<and> v = word_of_int i)"

definition byte_arg :: "string \<Rightarrow> u8 \<Rightarrow> bool" where
  "byte_arg a v \<longleftrightarrow> byte_text a v \<or> a = '''' \<and> v = 0 \<or> wrapped_byte_text a v"

definition value_arg :: "IO_SIZE \<Rightarrow> string \<Rightarrow> u64 \<Rightarrow> bool" where
  "value_arg sz a v \<longleftrightarrow> (a = '''' \<and> v = 0 \<or> (\<exists>i. int_text a i \<and> v = ulong_of i)) \<and>
     (sz = SIZE8 \<or> sz = SIZE16 \<longrightarrow> v \<noteq> word_of_int LONG_MAX)"

lemma value_arg_strtoull: "value_arg sz a v \<longleftrightarrow> strtoull_end a 0 = (v, '''') \<and>
     (sz = SIZE8 \<or> sz = SIZE16 \<longrightarrow> v \<noteq> word_of_int LONG_MAX)"
  by (simp only: value_arg_def strtoull_end_iff)

lemma ulong_of_byte:
  "ucast (v :: u8) = ulong_of i \<longleftrightarrow>
     (0 \<le> i \<and> i < 256 \<or> - (2 ^ 64) < i \<and> i < 256 - 2 ^ 64) \<and> v = word_of_int i"
proof -
  have v: "0 \<le> uint v" "uint v < 256" using unsigned_less [of v, where ?'a = int] by simp_all
  have u: "ucast v = ulong_of i \<longleftrightarrow> uint (ulong_of i) = uint v"
    using v by (auto simp: word_uint_eq_iff unsigned_ucast_eq take_bit_int_eq_self)
  have w: "v = word_of_int i \<longleftrightarrow> i mod 256 = uint v"
    by (auto simp: word_uint_eq_iff uint_word_of_int)
  consider "2 ^ 64 \<le> \<bar>i\<bar>" | "0 \<le> i" "i < 2 ^ 64" | "i < 0" "- (2 ^ 64) < i" by linarith
  then show ?thesis
  proof cases
    case 1
    then have "ulong_of i = - 1" by (simp add: ulong_of_def)
    then have "uint (ulong_of i) = 2 ^ 64 - 1" by (simp add: unsigned_minus_1_eq_mask mask_eq_exp_minus_1)
    with 1 v u show ?thesis by auto
  next
    case 2
    then have "uint (ulong_of i) = i" by (simp add: ulong_of_def uint_word_of_int)
    with 2 v u w show ?thesis by auto
  next
    case 3
    then have "i mod 2 ^ 64 = (i + 2 ^ 64) mod 2 ^ 64" by simp
    also have "\<dots> = i + 2 ^ 64" using 3 by (intro mod_pos_pos_trivial) simp_all
    finally have "uint (ulong_of i) = i + 2 ^ 64" using 3 by (simp add: ulong_of_def uint_word_of_int)
    moreover have "i mod 256 = (i + 2 ^ 64) mod 256" by (simp add: mod_add_eq [symmetric, of i])
    ultimately show ?thesis using 3 v u w by auto
  qed
qed

lemma byte_arg_strtoull: "byte_arg a v \<longleftrightarrow> strtoull_end a 0 = (ucast v, '''')"
proof -
  have "ucast v = (0 :: u64) \<longleftrightarrow> v = 0"
    using ulong_of_byte [of v 0] by (simp add: ulong_of_def)
  then show ?thesis
    unfolding byte_arg_def byte_text_def wrapped_byte_text_def strtoull_end_iff
    by (auto simp: ulong_of_byte)
qed

lemma byte_arg_parse:
  assumes "byte_arg a v"
  shows "parse_uint8 a w = (Some v, w)"
proof -
  have "(of_nat (unat v) :: u64) < 0x100"
    using unsigned_less [of v, where ?'a = nat] by (intro of_nat_u64_less) simp
  moreover have "ucast (ucast v :: u64) = v"
    by (intro bit_word_eqI) (simp add: bit_ucast_iff)
  ultimately have "fst (parse_uint8 a w) = Some v"
    using assms by (simp add: parse_uint8_def parse_uint8_base_Some byte_arg_strtoull)
  then show ?thesis
    using parse_uint8_base_frame(1) [of a 0 w v] by (metis parse_uint8_def prod.collapse)
qed

lemma open_i2c_slave_run:
  assumes "smbus_slave E V bus slave sz n"
  obtains f w' where "open_i2c_slave E bus slave w = (f, w')" and "\<not> f < 0" and "adapter_fd V (kstate w') f" and "attached V (kstate w') f"
    and "slave_reg V (kstate w') = slave_reg V (kstate w)" and "stdout w' = stdout w" and "stderr w' = stderr w"
  using slave_Open [OF assms] slave_attach [OF assms _ slave_Open(2) [OF assms], of I2C_SLAVE]
  by (simp add: open_i2c_slave_def Let_def)

lemma smbus_prologue_run:
  assumes "smbus_slave E V bus slave sz n" and "byte_arg a1 bus" and "byte_arg a2 slave" and "byte_arg a3 r"
    and "needs_reg op" and "argv = a0 # a1 # a2 # a3 # rest"
  obtains f w' where
      "smbus_prologue E argv ps op w = Some ((0, ps\<lparr>i2c_bus := bus, address := slave, reg := r, fd := f\<rparr>), w')"
    and "adapter_fd V (kstate w') f" and "attached V (kstate w') f"
    and "slave_reg V (kstate w') = slave_reg V (kstate w)"
    and "stdout w' = stdout w" and "stderr w' = stderr w"
proof -
  obtain f w' where o: "open_i2c_slave E bus slave w = (f, w')" "\<not> f < 0" "adapter_fd V (kstate w') f"
    "attached V (kstate w') f"
    "slave_reg V (kstate w') = slave_reg V (kstate w)" "stdout w' = stdout w" "stderr w' = stderr w"
    using open_i2c_slave_run [OF assms(1), of w] by blast
  have "smbus_prologue E argv ps op w = Some ((0, ps\<lparr>i2c_bus := bus, address := slave, reg := r, fd := f\<rparr>), w')"
    using assms(5) o(1,2)
      byte_arg_parse [OF assms(2), of w] byte_arg_parse [OF assms(3), of w] byte_arg_parse [OF assms(4), of w]
    unfolding assms(6) smbus_prologue_def needs_reg_def [symmetric] by simp
  with o that show ?thesis by blast
qed

lemma parse_io_width_run:
  assumes "value_arg sz a v" and "op_size op = io_smbus_size sz"
  shows "parse_io_width a ps op w =
    Some ((0, ps\<lparr>data := set_fixed (size_bytes sz) v (replicate DTYPE_SIZE 0)\<rparr>), w)"
  using assms
  by (cases sz) (simp_all add: parse_io_width_def value_arg_strtoull ismaxortrailingjunk_def istrailingjunk_def Let_def)

lemma clamp_eval: "clamp_length 4 = 4" "clamp_length 8 = 8"
  by (simp_all add: clamp_length_def)

lemma smbus_write_op_run:
  assumes "smbus_slave E V bus slave (io_protocol sz) (size_bytes sz)" and "op_size op = io_smbus_size sz"
    and "address ps = slave" and "data ps = set_fixed (size_bytes sz) v (replicate DTYPE_SIZE 0)"
    and "adapter_fd V (kstate w) (fd ps)"
  obtains w' where "smbus_write_op E ps op w = Some (0, w')"
    and "slave_reg V (kstate w') (reg ps) = le_enc (size_bytes sz) v"
    and "stdout w' = stdout w" and "stderr w' = stderr w"
proof -
  define w1 where "w1 = sys E (Ioctl (fd ps) I2C_SLAVE_FORCE (Slave_address slave)) w"
  have a: "\<not> rv w1 < 0" "attached V (kstate w1) (fd ps)"
    using slave_attach [OF assms(1) _ assms(5), of I2C_SLAVE_FORCE] by (simp_all add: w1_def)
  have w1: "stdout w1 = stdout w" "stderr w1 = stderr w"
    by (simp_all add: w1_def)
  let ?w2 = "sys E (Ioctl (fd ps) I2C_SMBUS (Smbus_args I2C_SMBUS_WRITE (reg ps) (io_protocol sz)
      (Some (frame (io_protocol sz) (le_enc (size_bytes sz) v))))) w1"
  have len: "length (data ps) = DTYPE_SIZE"
    by (cases sz) (simp_all add: assms(4) length_set_fixed DTYPE_SIZE_def I2C_SMBUS_BLOCK_MAX_def)
  have copy: "copy_to_block 1 4 (data ps) = Some (take 4 (data ps))"
    "copy_to_block 1 8 (data ps) = Some (take 8 (data ps))"
    using len by (simp_all add: copy_to_block_take DTYPE_SIZE_def I2C_SMBUS_BLOCK_MAX_def)
  note r = slave_write [OF assms(1) a(2), of "le_enc (size_bytes sz) v" "reg ps", simplified]
  have "smbus_write_op E ps op w = Some (0, ?w2)"
    using a(1) r(1) copy
    by (cases sz)
      (simp_all add: smbus_write_op_def i2c_defs Let_def assms(2,3) w1_def [symmetric] frame_def clamp_eval
        le_enc_fixed le_enc_1_fixed I2C_SMBUS_BYTE_DATA_def I2C_SMBUS_WORD_DATA_def I2C_SMBUS_I2C_BLOCK_DATA_def assms(4))
  with that r(2) w1 show ?thesis by simp
qed


lemma frame_size:
  "length bs = size_bytes sz \<Longrightarrow> length (frame (io_protocol sz) bs) =
     (if sz = SIZE8 \<or> sz = SIZE16 then size_bytes sz else size_bytes sz + 1)"
  by (cases sz) (simp_all add: frame_def I2C_SMBUS_BYTE_DATA_def I2C_SMBUS_WORD_DATA_def I2C_SMBUS_I2C_BLOCK_DATA_def)

text \<open>The answer of an I2C block read: the length, then the bytes.\<close>

lemma block_answer:
  assumes "rdbuf (length bs + 1) w = of_nat (length bs) # bs" and "length bs < 256"
  shows "unat (buf (res w) 0) = length bs" and "map (buf (res w)) [1..<length bs + 1] = bs"
proof -
  have "rdbuf (length bs + 1) w = buf (res w) 0 # map (buf (res w)) [1..<length bs + 1]"
    by (subst rdbuf_def, subst upt_conv_Cons) (simp_all add: One_nat_def)
  with assms show "unat (buf (res w) 0) = length bs" "map (buf (res w)) [1..<length bs + 1] = bs"
    by (simp_all add: unat_of_nat)
qed

lemma print_read_fixed:
  assumes "fixed (size_bytes sz) arr = le_dec bs"
  shows "print_read_data (io_smbus_size sz) n arr w =
    printf (''0x'' @ HEX (2 * size_bytes sz) (unat (le_dec bs :: u64)) @ nl) w"
  using assms by (cases sz) (simp_all add: print_read_data_def)

abbreviation slave_answer :: "'k env \<Rightarrow> IO_SIZE \<Rightarrow> smbus_op_params \<Rightarrow> 'k world \<Rightarrow> 'k world" where
  "slave_answer E sz ps w \<equiv> sys E (Ioctl (fd ps) I2C_SMBUS (Smbus_args I2C_SMBUS_READ (reg ps) (io_protocol sz)
     (Some (request (io_protocol sz) (size_bytes sz))))) w"

lemma request_eval:
  "request I2C_SMBUS_BYTE_DATA m = []" "request I2C_SMBUS_WORD_DATA m = []"
  "request I2C_SMBUS_I2C_BLOCK_DATA m = [of_nat m]"
  by (simp_all add: request_def I2C_SMBUS_BYTE_DATA_def I2C_SMBUS_WORD_DATA_def I2C_SMBUS_I2C_BLOCK_DATA_def)

lemma smbus_read_op_word:
  assumes "rv (slave_answer E sz ps w) = 0" and "length bs = size_bytes sz"
    and "rdbuf (length (frame (io_protocol sz) bs)) (slave_answer E sz ps w) = frame (io_protocol sz) bs"
    and "op_size op = io_smbus_size sz" and "sz = SIZE8 \<or> sz = SIZE16"
  shows "smbus_read_op E ps op w =
    Some (0, printf (''0x'' @ HEX (2 * size_bytes sz) (unat (le_dec bs :: u64)) @ nl) (slave_answer E sz ps w))"
proof -
  have f: "rdbuf (size_bytes sz) (slave_answer E sz ps w) = bs"
    using assms(2,3,5)
    by (auto simp: frame_def I2C_SMBUS_BYTE_DATA_def I2C_SMBUS_WORD_DATA_def I2C_SMBUS_I2C_BLOCK_DATA_def)
  have b8: "unat (buf (res (slave_answer E sz ps w)) 0) = unat (le_dec bs :: u8)" if "sz = SIZE8"
  proof -
    have "[buf (res (slave_answer E sz ps w)) 0] = bs" using f that by (simp add: rdbuf_def upt_rec)
    from this [symmetric] show ?thesis by simp
  qed
  show ?thesis
    using assms(5)
  proof
    assume sz: "sz = SIZE8"
    then show ?thesis
      using print_read_fixed [of sz "set_fixed 1 (word_of_int (int (unat (le_dec bs :: u8)))) (replicate DTYPE_SIZE 0)" bs]
        fixed_set_word [of bs 1, where 'a = 8] assms(1,2) b8 [OF sz]
      by (auto simp: smbus_read_op_def i2c_defs Let_def assms(4) request_eval)
  next
    assume sz: "sz = SIZE16"
    then show ?thesis
      using print_read_fixed [of sz "set_fixed 2 (word_of_int (int (unat (le_dec bs :: u16)))) (replicate DTYPE_SIZE 0)" bs]
        fixed_set_word [of bs 2, where 'a = 16] assms(1,2) f
      by (auto simp: smbus_read_op_def i2c_defs Let_def assms(4) request_eval)
  qed
qed

lemma smbus_read_op_i2c_block:
  assumes "rv (slave_answer E sz ps w) = 0" and "length bs = size_bytes sz"
    and "rdbuf (length (frame (io_protocol sz) bs)) (slave_answer E sz ps w) = frame (io_protocol sz) bs"
    and "op_size op = io_smbus_size sz" and "sz = SIZE32 \<or> sz = SIZE64"
  shows "smbus_read_op E ps op w =
    Some (0, printf (''0x'' @ HEX (2 * size_bytes sz) (unat (le_dec bs :: u64)) @ nl) (slave_answer E sz ps w))"
proof -
  have f: "frame (io_protocol sz) bs = of_nat (length bs) # bs" and l: "length bs < 256"
    using assms(2,5) by (auto simp: frame_def)
  have b: "unat (buf (res (slave_answer E sz ps w)) 0) = length bs"
      "map (buf (res (slave_answer E sz ps w))) [1..<length bs + 1] = bs"
    using block_answer [of bs "slave_answer E sz ps w"] assms(3) f l by (simp_all flip: Suc_eq_plus1)
  note facts = assms(1,2) b print_read_fixed [of sz "bs @ replicate (DTYPE_SIZE - size_bytes sz) 0" bs]
  show ?thesis
    using assms(5)
  proof
    assume "sz = SIZE32"
    then show ?thesis
      using facts
      by (simp add: smbus_read_op_def i2c_defs Let_def assms(4) read_copy clamp_eval fixed_def request_eval)
  next
    assume "sz = SIZE64"
    then show ?thesis
      using facts
      by (simp add: smbus_read_op_def i2c_defs Let_def assms(4) read_copy clamp_eval fixed_def request_eval)
  qed
qed

lemma smbus_read_op_run:
  assumes "smbus_slave E V bus slave (io_protocol sz) (size_bytes sz)" and "op_size op = io_smbus_size sz"
    and "attached V (kstate w) (fd ps)"
  obtains w' where "smbus_read_op E ps op w = Some (0, w')"
    and "slave_reg V (kstate w') = slave_reg V (kstate w)"
    and "stdout w' = stdout w @ ''0x'' @
      HEX (2 * size_bytes sz) (unat (le_dec (slave_reg V (kstate w) (reg ps)) :: u64)) @ nl"
    and "stderr w' = stderr w"
proof -
  have "size_bytes sz \<le> I2C_SMBUS_BLOCK_MAX" by (cases sz) (simp_all add: I2C_SMBUS_BLOCK_MAX_def)
  note r = slave_read [OF assms(1,3) this, where c = "reg ps"]
  have "sz = SIZE8 \<or> sz = SIZE16 \<or> sz = SIZE32 \<or> sz = SIZE64" by (cases sz) simp_all
  then have "smbus_read_op E ps op w = Some (0, printf (''0x'' @
      HEX (2 * size_bytes sz) (unat (le_dec (slave_reg V (kstate w) (reg ps)) :: u64)) @ nl) (slave_answer E sz ps w))"
    using smbus_read_op_word [OF r(1,2,3) assms(2)] smbus_read_op_i2c_block [OF r(1,2,3) assms(2)] by blast
  then show ?thesis
    using that r(4) by auto
qed

text \<open>A configuration: environment, slave, width, the four arguments and what they denote.\<close>

record 'k smbus_conf =
  sc_env :: "'k env"
  sc_view :: "'k slave_view"
  sc_size :: IO_SIZE
  sc_args :: "string \<times> string \<times> string \<times> string"
  sc_vals :: "u8 \<times> u8 \<times> u8 \<times> u64"

definition smbus_ok :: "'k smbus_conf \<Rightarrow> bool" where
  "smbus_ok c = (case (sc_args c, sc_vals c) of ((a1, a2, a3, a4), (bus, slave, r, v)) \<Rightarrow>
     smbus_slave (sc_env c) (sc_view c) bus slave (io_protocol (sc_size c)) (size_bytes (sc_size c)) \<and>
     byte_arg a1 bus \<and> byte_arg a2 slave \<and> byte_arg a3 r \<and> value_arg (sc_size c) a4 v)"

lemma smbus_write_run:
  assumes "smbus_slave E V bus slave (io_protocol sz) (size_bytes sz)"
    and "byte_arg a1 bus" and "byte_arg a2 slave" and "byte_arg a3 r" and "value_arg sz a4 v"
  shows "\<exists>w'. smbus_write E junk [a0, a1, a2, a3, a4] (smbus_write_info sz) w = Some (0, w') \<and>
    slave_reg V (kstate w') r = le_enc (size_bytes sz) v \<and> stdout w' = stdout w \<and> stderr w' = stderr w"
proof -
  define op where "op = \<lparr>op_size = io_smbus_size sz, perform_op = P_smbus_write_op\<rparr>"
  have op: "needs_reg op" "op_size op = io_smbus_size sz" "op_size op \<noteq> SMBUS_SIZE_BYTE" "op_size op \<noteq> SMBUS_QUICK"
    by (cases sz; simp add: op_def needs_reg_def)+
  obtain f w1 where p: "smbus_prologue E [a0, a1, a2, a3, a4] junk op w =
      Some ((0, junk\<lparr>i2c_bus := bus, address := slave, reg := r, fd := f\<rparr>), w1)"
    and w1: "stdout w1 = stdout w" "stderr w1 = stderr w" "adapter_fd V (kstate w1) f"
    using smbus_prologue_run [OF assms(1-4) op(1), of "[a0, a1, a2, a3, a4]" a0 "[a4]" junk w] by blast
  define ps where "ps = junk\<lparr>i2c_bus := bus, address := slave, reg := r, fd := f,
      data := set_fixed (size_bytes sz) v (replicate DTYPE_SIZE 0)\<rparr>"
  obtain w2 where w2: "smbus_write_op E ps op w1 = Some (0, w2)" "stdout w2 = stdout w1"
    "stderr w2 = stderr w1" "slave_reg V (kstate w2) r = le_enc (size_bytes sz) v"
    using smbus_write_op_run [OF assms(1) op(2), of ps v w1] w1(3) by (auto simp: ps_def)
  have "smbus_write E junk [a0, a1, a2, a3, a4] (smbus_write_info sz) w = Some (0, sys E (Close f) w2)"
    using p w2 op(3,4) parse_io_width_run [OF assms(5) op(2), of _ w1]
    by (simp add: smbus_write_tail(1) [OF smbus_info_op(2)] op_def [symmetric] parse_and_perform_def
        ps_def [symmetric] run_perform_op_def) (simp add: op_def ps_def)
  with w1 w2 slave_Close [OF assms(1), of f w2] show ?thesis by simp
qed

lemma smbus_read_run:
  assumes "smbus_slave E V bus slave (io_protocol sz) (size_bytes sz)"
    and "byte_arg a1 bus" and "byte_arg a2 slave" and "byte_arg a3 r"
  shows "\<exists>w'. smbus_read E junk [a0, a1, a2, a3] (smbus_read_info sz) w = Some (0, w') \<and>
    slave_reg V (kstate w') r = slave_reg V (kstate w) r \<and>
    stdout w' = stdout w @ ''0x'' @ HEX (2 * size_bytes sz) (unat (le_dec (slave_reg V (kstate w) r) :: u64)) @ nl \<and>
    stderr w' = stderr w"
proof -
  define op where "op = \<lparr>op_size = io_smbus_size sz, perform_op = P_smbus_read_op\<rparr>"
  have op: "needs_reg op" "op_size op = io_smbus_size sz"
    by (cases sz; simp add: op_def needs_reg_def)+
  define ps where "ps f = junk\<lparr>i2c_bus := bus, address := slave, reg := r, fd := f\<rparr>" for f
  obtain f w1 where p: "smbus_prologue E [a0, a1, a2, a3] junk op w = Some ((0, ps f), w1)"
    and w1: "stdout w1 = stdout w" "stderr w1 = stderr w" "attached V (kstate w1) f"
      "slave_reg V (kstate w1) = slave_reg V (kstate w)"
    using smbus_prologue_run [OF assms(1-4) op(1), of "[a0, a1, a2, a3]" a0 "[]" junk w]
    unfolding ps_def by blast
  obtain w2 where w2: "smbus_read_op E (ps f) op w1 = Some (0, w2)" "stderr w2 = stderr w1"
    "slave_reg V (kstate w2) = slave_reg V (kstate w1)"
    "stdout w2 = stdout w1 @ ''0x'' @ HEX (2 * size_bytes sz) (unat (le_dec (slave_reg V (kstate w1) r) :: u64)) @ nl"
    using smbus_read_op_run [OF assms(1) op(2), of w1 "ps f"] w1(3) by (auto simp: ps_def)
  have "smbus_read E junk [a0, a1, a2, a3] (smbus_read_info sz) w = Some (0, sys E (Close f) w2)"
    using p w2(1) by (simp add: smbus_read_def smbus_info_op op_def [symmetric] run_perform_op_def)
      (simp add: op_def ps_def)
  with w1 w2 slave_Close [OF assms(1), of f w2] show ?thesis by simp
qed

interpretation smbus: register_commands
  smbus_ok
  "\<lambda>c. case sc_args c of (a1, a2, a3, a4) \<Rightarrow>
     smbus_write (sc_env c) zero_params [name (smbus_write_info (sc_size c)), a1, a2, a3, a4]
       (smbus_write_info (sc_size c))"
  "\<lambda>c. case sc_args c of (a1, a2, a3, a4) \<Rightarrow>
     smbus_read (sc_env c) zero_params [name (smbus_read_info (sc_size c)), a1, a2, a3]
       (smbus_read_info (sc_size c))"
  "\<lambda>c k. case sc_vals c of (bus, slave, r, v) \<Rightarrow> (sc_size c, slave_reg (sc_view c) k r)"
  "\<lambda>c. case sc_vals c of (bus, slave, r, v) \<Rightarrow> (sc_size c, le_enc (size_bytes (sc_size c)) v)"
  "\<lambda>(sz, bs). ''0x'' @ HEX (2 * size_bytes sz) (unat (le_dec bs :: u64)) @ nl"
proof unfold_locales
  fix c :: "'a smbus_conf" and w :: "'a world"
  assume ok: "smbus_ok c"
  obtain a1 a2 a3 a4 where a: "sc_args c = (a1, a2, a3, a4)" by (cases "sc_args c")
  obtain bus slave r v where v: "sc_vals c = (bus, slave, r, v)" by (cases "sc_vals c")
  note args = ok [unfolded smbus_ok_def a v, simplified]
  show "\<exists>w'. (case sc_args c of (a1, a2, a3, a4) \<Rightarrow>
      smbus_write (sc_env c) zero_params [name (smbus_write_info (sc_size c)), a1, a2, a3, a4]
        (smbus_write_info (sc_size c))) w = Some (0, w') \<and>
      (case sc_vals c of (bus, slave, r, v) \<Rightarrow> (sc_size c, slave_reg (sc_view c) (kstate w') r)) =
      (case sc_vals c of (bus, slave, r, v) \<Rightarrow> (sc_size c, le_enc (size_bytes (sc_size c)) v)) \<and>
      stdout w' = stdout w \<and> stderr w' = stderr w"
    using smbus_write_run [of "sc_env c" "sc_view c" bus slave "sc_size c" a1 a2 a3 r a4 v zero_params _ w] args
    by (simp add: a v)
  show "\<exists>w'. (case sc_args c of (a1, a2, a3, a4) \<Rightarrow>
      smbus_read (sc_env c) zero_params [name (smbus_read_info (sc_size c)), a1, a2, a3]
        (smbus_read_info (sc_size c))) w = Some (0, w') \<and>
      (case sc_vals c of (bus, slave, r, v) \<Rightarrow> (sc_size c, slave_reg (sc_view c) (kstate w') r)) =
      (case sc_vals c of (bus, slave, r, v) \<Rightarrow> (sc_size c, slave_reg (sc_view c) (kstate w) r)) \<and>
      stdout w' = stdout w @ (case (case sc_vals c of (bus, slave, r, v) \<Rightarrow>
        (sc_size c, slave_reg (sc_view c) (kstate w) r)) of
        (sz, bs) \<Rightarrow> ''0x'' @ HEX (2 * size_bytes sz) (unat (le_dec bs :: u64)) @ nl) \<and>
      stderr w' = stderr w"
    using smbus_read_run [of "sc_env c" "sc_view c" bus slave "sc_size c" a1 a2 a3 r zero_params _ w] args
    by (simp add: a v)
qed

lemma less_0x100_ucast:
  assumes "(x :: u64) < 0x100"
  shows "ucast (ucast x :: u8) = x"
proof -
  have "unat x < 2 ^ 8" using assms by (simp add: word_less_nat_alt)
  then have "take_bit 8 x = x"
    by (intro word_unat_eq_iff [THEN iffD2]) (simp only: unsigned_take_bit_eq take_bit_nat_eq_self)
  then have "bit x k \<longleftrightarrow> k < 8 \<and> bit x k" for k
    by (metis bit_take_bit_iff)
  then show ?thesis
    by (intro bit_word_eqI) (auto simp: bit_ucast_iff)
qed

lemma parse_uint8_iff: "fst (parse_uint8 a w) = Some v \<longleftrightarrow> byte_arg a v"
proof
  assume "fst (parse_uint8 a w) = Some v"
  then have v: "snd (strtoull_end a 0) = ''''" "fst (strtoull_end a 0) < 0x100"
    "v = ucast (fst (strtoull_end a 0))"
    by (simp_all add: parse_uint8_def parse_uint8_base_Some)
  have "ucast v = fst (strtoull_end a 0)"
    using v(2) by (simp add: v(3) less_0x100_ucast)
  with v(1) show "byte_arg a v"
    by (simp add: byte_arg_strtoull prod_eq_iff)
qed (simp add: byte_arg_parse)

section \<open>An environment with one slave\<close>

text \<open>
  The state is the registers of the slave, for requests of protocol \<open>sz\<close> with \<open>n\<close> bytes; an I2C
  block read answers with the number of bytes that was asked for.
\<close>

definition sized :: "nat \<Rightarrow> u8 list \<Rightarrow> u8 list" where
  "sized n bs = take n (bs @ replicate n 0)"

lemma length_sized [simp]: "length (sized n bs) = n"
  by (simp add: sized_def)

lemma sized_same [simp]: "length bs = n \<Longrightarrow> sized n bs = bs"
  by (simp add: sized_def)

fun slave_kernel :: "int \<Rightarrow> nat \<Rightarrow> extcall \<Rightarrow> (u8 \<Rightarrow> u8 list) \<Rightarrow> sysret \<times> (u8 \<Rightarrow> u8 list)" where
  "slave_kernel sz n (Open p f) m = (\<lparr>ret = 3, err = 0, buf = (\<lambda>_. 0), str = '''', ents = []\<rparr>, m)"
| "slave_kernel sz n (Ioctl f req (Smbus_args rw c s d)) m =
     (if rw = I2C_SMBUS_READ
      then (let l = (if sz = I2C_SMBUS_I2C_BLOCK_DATA then unat (hd (the d)) else n)
            in (\<lparr>ret = 0, err = 0, buf = (\<lambda>i. frame sz (sized l (m c)) ! i), str = '''', ents = []\<rparr>, m))
      else (\<lparr>ret = 0, err = 0, buf = (\<lambda>_. 0), str = '''', ents = []\<rparr>,
        m(c := (case d of None \<Rightarrow> [] | Some bs \<Rightarrow> if sz = I2C_SMBUS_I2C_BLOCK_DATA then tl bs else bs))))"
| "slave_kernel sz n _ m = (\<lparr>ret = 0, err = 0, buf = (\<lambda>_. 0), str = '''', ents = []\<rparr>, m)"

definition slave_env :: "int \<Rightarrow> nat \<Rightarrow> (u8 \<Rightarrow> u8 list) env" where
  "slave_env sz n = \<lparr>kernel = slave_kernel sz n, strerror = (\<lambda>_. ''error''), getpagesize = 4096\<rparr>"

definition slave_example :: "nat \<Rightarrow> (u8 \<Rightarrow> u8 list) slave_view" where
  "slave_example n = \<lparr>adapter_fd = (\<lambda>m f. f = 3), attached = (\<lambda>m f. f = 3), slave_reg = (\<lambda>m c. sized n (m c))\<rparr>"

lemma unframe: "(if sz = I2C_SMBUS_I2C_BLOCK_DATA then tl (frame sz bs) else frame sz bs) = bs"
  by (simp add: frame_def)

lemma frame_request:
  "(sz = I2C_SMBUS_I2C_BLOCK_DATA \<Longrightarrow> length bs = m) \<Longrightarrow>
     map ((!) (frame sz bs)) [0..<length (request sz m)] = request sz m"
  by (simp add: frame_def request_def upt_rec)

lemma slave_env_slave: "smbus_slave (slave_env sz n) (slave_example n) bus slave sz n"
proof -
  have len: "unat (of_nat m :: u8) = m" if "m \<le> I2C_SMBUS_BLOCK_MAX" for m
    using that by (simp add: I2C_SMBUS_BLOCK_MAX_def unat_of_nat)
  have hd: "hd (request I2C_SMBUS_I2C_BLOCK_DATA m) = of_nat m" for m
    by (simp add: request_def)
  show ?thesis
    unfolding smbus_slave_def slave_env_def slave_example_def
    by (auto simp: I2C_SMBUS_READ_def I2C_SMBUS_WRITE_def unframe map_nth Let_def len hd frame_request)
qed

lemma smbus_call_defined:
  assumes "info \<in> set smbus_cmds" and "block_length_ok E" and "length (data junk) = DTYPE_SIZE"
    and "int (length argv) = min_args (the (params info))"
  shows "smbus_call E junk argv info w \<noteq> None"
  using assms(1)
proof (cases rule: smbus_table_cases)
  case (rd op)
  with assms show ?thesis
    using smbus_read_defined [of E junk info op argv w] by (simp add: smbus_call_def split: if_splits)
next
  case (wr op)
  with assms show ?thesis
    using smbus_write_defined [of E info op argv junk w] by (simp add: smbus_call_def split: if_splits)
next
  case (pcall op)
  with assms show ?thesis
    using smbus_process_call_defined [of E info op argv junk w] by (simp add: smbus_call_def)
next
  case (wrrd op)
  with assms show ?thesis
    using smbus_writeread_defined [of E info op argv w] by (simp add: smbus_call_def)
qed

section \<open>Properties\<close>

text \<open>
  C2: when the kernel honours the block length of the SMBus standard, no SMBus command of the table,
  called with the number of arguments its prerequisites demand, touches memory outside its buffers,
  hands the kernel a message longer than the buffer behind it, or uses a missing argument: the call
  returns, whatever the argument strings are.
\<close>
theorem smbus_memory_safe:
  assumes "info \<in> set smbus_cmds" and "block_length_ok E" and "length (data junk) = DTYPE_SIZE"
    and "int (length argv) = min_args (the (params info))"
  shows "smbus_call E junk argv info w \<noteq> None"
  using assms by (rule smbus_call_defined)

theorem smbus_memory_safe_witness:
  "smbus_call one_file_env zero_params [''smbus_read8'', ''0'', ''0x50'', ''junk''] (smbus_read_info SIZE8)
     (init_world (\<lambda>_. 0, 0)) \<noteq> None"
proof -
  have "block_length_ok one_file_env"
    by (simp add: block_length_ok_def one_file_env_def)
  moreover have "length (data zero_params) = DTYPE_SIZE" by (simp add: zero_params_def)
  moreover have "int (length [''smbus_read8'', ''0'', ''0x50'', ''junk'']) =
      min_args (the (params (smbus_read_info SIZE8)))"
    by (simp add: smbus_read_info_def smbus_table)
  ultimately show ?thesis
    using smbus_memory_safe [OF smbus_info_in_table(1)] by blast
qed

text \<open>
  C4: the entry points declare their parameter block without initialising it, and no command of the
  table ever looks at an uninitialised part of it: return code, output and calls do not depend on
  what was on the stack.
\<close>
theorem smbus_no_uninitialised_use:
  assumes "info \<in> set smbus_cmds"
  shows "smbus_call E junk argv info w = smbus_call E junk' argv info w"
  using assms
proof (cases rule: smbus_table_cases)
  case (rd op)
  then show ?thesis using smbus_read_agree by (simp add: smbus_call_def)
next
  case (wr op)
  then show ?thesis using smbus_write_agree(1) by (simp add: smbus_call_def)
next
  case (pcall op)
  then show ?thesis using smbus_write_agree(2) by (simp add: smbus_call_def)
qed (simp add: smbus_call_def)

theorem smbus_no_uninitialised_use_witness:
  "smbus_call one_file_env zero_params [''smbus_write16'', ''0'', ''0x50'', ''1'', ''2''] (smbus_write_info SIZE16)
     (init_world (\<lambda>_. 0, 0)) =
   smbus_call one_file_env (zero_params\<lparr>reg := 9, len := 77, data := []\<rparr>)
     [''smbus_write16'', ''0'', ''0x50'', ''1'', ''2''] (smbus_write_info SIZE16) (init_world (\<lambda>_. 0, 0))"
  by (rule smbus_no_uninitialised_use [OF smbus_info_in_table(2)])

text \<open>
  C6: on an adapter that behaves as documented (\<open>smbus_slave\<close>: in particular a block read returns the
  number of bytes that was asked for), the value written to a register by \<open>smbus_write8\<close>, 16, 32
  or 64 (the value argument reduced to the width) is the value the read command of the same width
  prints for that register afterwards.
\<close>
theorem smbus_read_back:
  assumes "smbus_slave E V bus slave (io_protocol sz) (size_bytes sz)"
    and "byte_arg a1 bus" and "byte_arg a2 slave" and "byte_arg a3 r" and "value_arg sz a4 v"
  shows "\<exists>w1 w2.
    smbus_write E zero_params [name (smbus_write_info sz), a1, a2, a3, a4] (smbus_write_info sz) w = Some (0, w1) \<and>
    smbus_read E zero_params [name (smbus_read_info sz), a1, a2, a3] (smbus_read_info sz)
      (init_world (kstate w1)) = Some (0, w2) \<and>
    stdout w2 = ''0x'' @ HEX (2 * size_bytes sz) (unat (take_bit (8 * size_bytes sz) v)) @ nl \<and> stderr w2 = ''''"
proof -
  let ?c = "\<lparr>sc_env = E, sc_view = V, sc_size = sz, sc_args = (a1, a2, a3, a4), sc_vals = (bus, slave, r, v)\<rparr>"
  have "smbus_ok ?c" using assms by (simp add: smbus_ok_def)
  then show ?thesis
    using smbus.read_back [of ?c w] by (simp add: le_dec_enc_size)
qed

theorem smbus_read_back_witness:
  "\<exists>w1 w2.
    smbus_write (slave_env I2C_SMBUS_WORD_DATA 2) zero_params
      [name (smbus_write_info SIZE16), ''1'', ''0x50'', ''0x7'', ''0x1beef''] (smbus_write_info SIZE16)
      (init_world (\<lambda>_. [])) = Some (0, w1) \<and>
    smbus_read (slave_env I2C_SMBUS_WORD_DATA 2) zero_params
      [name (smbus_read_info SIZE16), ''1'', ''0x50'', ''0x7''] (smbus_read_info SIZE16)
      (init_world (kstate w1)) = Some (0, w2) \<and> stdout w2 = ''0xBEEF'' @ nl"
proof -
  have "byte_arg ''1'' 1" "byte_arg ''0x50'' 0x50" "byte_arg ''0x7'' 7" "value_arg SIZE16 ''0x1beef'' 0x1beef"
    by (simp_all add: byte_arg_strtoull value_arg_strtoull strto_eval LONG_MAX_def)
  then have "\<exists>w1 w2.
    smbus_write (slave_env I2C_SMBUS_WORD_DATA 2) zero_params
      [name (smbus_write_info SIZE16), ''1'', ''0x50'', ''0x7'', ''0x1beef''] (smbus_write_info SIZE16)
      (init_world (\<lambda>_. [])) = Some (0, w1) \<and>
    smbus_read (slave_env I2C_SMBUS_WORD_DATA 2) zero_params
      [name (smbus_read_info SIZE16), ''1'', ''0x50'', ''0x7''] (smbus_read_info SIZE16)
      (init_world (kstate w1)) = Some (0, w2) \<and>
    stdout w2 = ''0x'' @ HEX 4 (unat (take_bit 16 (0x1beef :: u64))) @ nl"
    using smbus_read_back [of "slave_env I2C_SMBUS_WORD_DATA 2" "slave_example 2" 1 "0x50" SIZE16 "''1''" "''0x50''"
        "''0x7''" 7 "''0x1beef''" "0x1beef" "init_world (\<lambda>_. [])"] slave_env_slave [of I2C_SMBUS_WORD_DATA 2]
    by auto
  moreover have "''0x'' @ HEX 4 (unat (take_bit 16 (0x1beef :: u64))) @ nl = ''0xBEEF'' @ nl"
    by (simp add: print_eval)
  ultimately show ?thesis by metis
qed


text \<open>
  C38: \<open>smbus_writeread\<close> leaks the descriptor: with a valid adapter, address and block of bytes, a
  read count that is not accepted as a number in 0 to 32 makes the command return -1 with the adapter
  still open.
\<close>
theorem smbus_writeread_leak:
  assumes "byte_arg a1 bus" and "byte_arg a2 slave"
    and "open_i2c_slave E bus slave w = (f, w1)" and "0 \<le> f"
    and "0 < length bs" and "length bs \<le> 32"
    and "\<nexists>n. byte_arg a4 n \<and> unat n \<le> 32"
    and "privdata info = Smbus_op (MAKE_SMBUS_OP SMBUS_WRITE_READ P_smbus_writeread_op)"
  shows "\<exists>w'. smbus_writeread E [a0, a1, a2, hex_bytes bs, a4] info w = Some (- 1, w') \<and>
    open_fds (trace w') = f # open_fds (trace w) \<and> stdout w' = stdout w"
proof -
  define op where "op = MAKE_SMBUS_OP SMBUS_WRITE_READ P_smbus_writeread_op"
  have op: "op_size op = SMBUS_WRITE_READ" "\<not> needs_reg op" by (simp_all add: op_def MAKE_SMBUS_OP_def needs_reg_def)
  let ?argv = "[a0, a1, a2, hex_bytes bs, a4]"
  have p: "smbus_prologue E ?argv zero_params op w =
      Some ((0, zero_params\<lparr>i2c_bus := bus, address := slave, fd := f\<rparr>), w1)"
    using op(2) byte_arg_parse [OF assms(1), of w] byte_arg_parse [OF assms(2), of w] assms(3,4)
    unfolding smbus_prologue_def needs_reg_def [symmetric] by simp
  obtain ps where q: "parse_io_width (hex_bytes bs) (zero_params\<lparr>i2c_bus := bus, address := slave, fd := f\<rparr>) op w1 =
      Some ((0, ps), w1)"
    using parse_block_hex [OF assms(5,6), of _ "hex_bytes bs" w1] op(1)
    by (auto simp: parse_io_width_def Let_def split: prod.splits)
  have w1: "open_fds (trace w1) = f # open_fds (trace w)" "stdout w1 = stdout w"
    using open_i2c_slave_fds [OF assms(3)] assms(4) by auto
  show ?thesis
  proof (cases a4 w1 rule: parse_uint8_cases)
    case bad
    then show ?thesis using p q w1 assms(8) by (simp add: smbus_writeread_def op_def [symmetric])
  next
    case (good n)
    then have "byte_arg a4 n" using parse_uint8_iff [of a4 w1 n] by simp
    with assms(7) have "I2C_SMBUS_BLOCK_MAX < unat n" by (auto simp: I2C_SMBUS_BLOCK_MAX_def)
    with good show ?thesis using p q w1 assms(8) by (simp add: smbus_writeread_def op_def [symmetric])
  qed
qed


theorem smbus_writeread_leak_witness:
  "\<exists>w'. smbus_writeread (slave_env I2C_SMBUS_BYTE_DATA 1) [''smbus_writeread'', ''0'', ''0x50'', hex_bytes [1, 2], ''33'']
      (MAKE_CMD_WITH_PARAMS ''smbus_writeread'' E_smbus_writeread
        (Smbus_op (MAKE_SMBUS_OP SMBUS_WRITE_READ P_smbus_writeread_op)) smbus_writeread_params)
      (init_world (\<lambda>_. [])) = Some (- 1, w') \<and> open_fds (trace w') = [3]"
proof -
  have args: "byte_arg ''0'' 0" "byte_arg ''0x50'' 0x50"
    by (simp_all add: byte_arg_strtoull strto_eval)
  have "byte_arg ''33'' n \<longleftrightarrow> n = 33" for n
  proof -
    have "fst (parse_uint8 ''33'' (init_world ())) = Some 33"
      unfolding parse_uint8_iff by (simp add: byte_arg_strtoull strto_eval)
    then show ?thesis using parse_uint8_iff [of "''33''" "init_world ()" n] by auto
  qed
  then have bad: "\<nexists>n. byte_arg ''33'' n \<and> unat n \<le> 32" by simp
  obtain w1 where o: "open_i2c_slave (slave_env I2C_SMBUS_BYTE_DATA 1) 0 0x50 (init_world (\<lambda>_. [])) = (3, w1)"
    by (simp add: open_i2c_slave_def slave_env_def rv_sys Let_def)
  show ?thesis
    using smbus_writeread_leak [OF args o _ _ _ bad, of "[1, 2]"
      "MAKE_CMD_WITH_PARAMS ''smbus_writeread'' E_smbus_writeread
        (Smbus_op (MAKE_SMBUS_OP SMBUS_WRITE_READ P_smbus_writeread_op)) smbus_writeread_params" "''smbus_writeread''"]
    by (simp add: MAKE_CMD_WITH_PARAMS_def) blast
qed

text \<open>
  C29: which strings are accepted as a byte argument (adapter, address, register, read count), stated
  over the grammar of numbers: those that denote a number from 0 to 255, as that number, but also the
  empty string, as 0, and the negative numbers above \<open>- 2 ^ 64\<close> that are 0 to 255 modulo
  \<open>2 ^ 64\<close>.  Every other string is refused after exactly one line, which starts with the argument,
  on the standard error stream.
\<close>
theorem smbus_byte_argument:
  "(parse_uint8 a w = (Some v, w) \<longleftrightarrow>
     (\<exists>i. int_text a i \<and> 0 \<le> i \<and> i < 256 \<and> v = word_of_int i) \<or>
     a = '''' \<and> v = 0 \<or>
     (\<exists>i. int_text a i \<and> - (2 ^ 64) < i \<and> i < 256 - 2 ^ 64 \<and> v = word_of_int i)) \<and>
   ((\<exists>u. parse_uint8 a w = (Some u, w)) \<or>
    parse_uint8 a w \<in>
     {(None, eprintf (a @ '': is LONG_MAX'' @ nl) w), (None, eprintf (a @ '': is followed by junk'' @ nl) w),
      (None, eprintf (a @ '': won't fit in a byte'' @ nl) w)})"
proof
  have "parse_uint8 a w = (Some v, w) \<longleftrightarrow> byte_arg a v"
    using byte_arg_parse [of a v w] parse_uint8_iff [of a w v] by auto
  then show "parse_uint8 a w = (Some v, w) \<longleftrightarrow>
     (\<exists>i. int_text a i \<and> 0 \<le> i \<and> i < 256 \<and> v = word_of_int i) \<or>
     a = '''' \<and> v = 0 \<or>
     (\<exists>i. int_text a i \<and> - (2 ^ 64) < i \<and> i < 256 - 2 ^ 64 \<and> v = word_of_int i)"
    unfolding byte_arg_def byte_text_def wrapped_byte_text_def .
  show "(\<exists>u. parse_uint8 a w = (Some u, w)) \<or>
    parse_uint8 a w \<in>
     {(None, eprintf (a @ '': is LONG_MAX'' @ nl) w), (None, eprintf (a @ '': is followed by junk'' @ nl) w),
      (None, eprintf (a @ '': won't fit in a byte'' @ nl) w)}"
    by (auto simp: parse_uint8_def parse_uint8_base_def ismaxortrailingjunk_def istrailingjunk_def Let_def
        split: prod.splits)
qed

text \<open>The two surprising inputs: nothing at all, and a number below \<open>- 2 ^ 63\<close>.\<close>

lemma smbus_byte_surprises:
  "parse_uint8 '''' w = (Some 0, w)" "parse_uint8 ''-18446744073709551615'' w = (Some 1, w)"
  by (rule byte_arg_parse, simp add: byte_arg_strtoull strto_eval)+

text \<open>
  C28: blocks round trip: the digits the block commands print for 1 to 32 bytes are parsed back, with
  or without a leading \<open>0x\<close>, to the same bytes at the front of the array and their number as the
  length.
\<close>
theorem smbus_block_round_trip:
  assumes "0 < length bs" and "length bs \<le> 32" and "op_size op = SMBUS_SIZE_BLOCK"
  shows "stdout (print_read_data SMBUS_SIZE_BLOCK (int (length bs)) bs w) = stdout w @ hex_bytes bs @ nl \<and>
    parse_io_width (hex_bytes bs) ps op w =
      Some ((0, ps\<lparr>data := bs @ replicate (34 - length bs) 0, len := int (length bs)\<rparr>), w) \<and>
    parse_io_width (''0x'' @ hex_bytes bs) ps op w =
      Some ((0, ps\<lparr>data := bs @ replicate (34 - length bs) 0, len := int (length bs)\<rparr>), w)"
proof -
  have "map (\<lambda>i. HEX 2 (unat (bs ! i))) [0..<length bs] = map (\<lambda>b. HEX 2 (unat b)) bs"
    by (intro nth_equalityI) simp_all
  then have "stdout (print_read_data SMBUS_SIZE_BLOCK (int (length bs)) bs w) = stdout w @ hex_bytes bs @ nl"
    using assms(2) by (simp add: print_read_data_def hex_bytes_def I2C_SMBUS_BLOCK_MAX_def Let_def)
  moreover have "parse_io_width arg ps op w =
      Some ((0, ps\<lparr>data := bs @ replicate (34 - length bs) 0, len := int (length bs)\<rparr>), w)"
    if "arg = hex_bytes bs \<or> arg = ''0x'' @ hex_bytes bs" for arg
    using parse_block_hex [OF assms(1,2) _ that, of "ps\<lparr>data := replicate DTYPE_SIZE 0\<rparr>" w] assms(3)
    by (simp add: parse_io_width_def Let_def DTYPE_SIZE_def I2C_SMBUS_BLOCK_MAX_def split: prod.splits)
  ultimately show ?thesis by blast
qed


theorem smbus_block_round_trip_witness:
  "parse_io_width ''0x00FF1A'' zero_params (MAKE_SMBUS_OP SMBUS_SIZE_BLOCK P_smbus_write_op) (init_world ()) =
     Some ((0, zero_params\<lparr>data := [0, 0xFF, 0x1A] @ replicate 31 0, len := 3\<rparr>), init_world ())"
proof -
  have "hex_bytes [0, 0xFF, 0x1A] = ''00FF1A''" by (simp add: hex_bytes_def print_eval)
  then show ?thesis
    using smbus_block_round_trip [of "[0, 0xFF, 0x1A]" "MAKE_SMBUS_OP SMBUS_SIZE_BLOCK P_smbus_write_op" "init_world ()" zero_params]
    by (simp add: MAKE_SMBUS_OP_def)
qed

text \<open>
  C37: a block read is as safe as the length the kernel reports: once the transaction succeeded, the
  copy into the 34-byte array is undefined behaviour exactly when that length exceeds 34; nothing
  in the program checks it.
\<close>
theorem smbus_block_overrun:
  assumes "op_size op = SMBUS_SIZE_BLOCK"
    and "rv (i2c_smbus_access E (fd ps) I2C_SMBUS_READ (reg ps) I2C_SMBUS_BLOCK_DATA (Some []) w) = 0"
  shows "smbus_read_op E ps op w = None \<longleftrightarrow>
    34 < unat (buf (res (i2c_smbus_access E (fd ps) I2C_SMBUS_READ (reg ps) I2C_SMBUS_BLOCK_DATA (Some []) w)) 0)"
  using assms
  by (simp add: smbus_read_op_def i2c_smbus_read_block_data_def Let_def copy_block DTYPE_SIZE_def
      I2C_SMBUS_BLOCK_MAX_def not_less)

theorem smbus_block_overrun_witness:
  "smbus_read_op \<lparr>kernel = (\<lambda>c k. (\<lparr>ret = 0, err = 0, buf = (\<lambda>_. 35), str = '''', ents = []\<rparr>, k)), strerror = (\<lambda>_. ''error''),
       getpagesize = 4096\<rparr> zero_params (MAKE_SMBUS_OP SMBUS_SIZE_BLOCK P_smbus_read_op) (init_world ()) = None"
  by (subst smbus_block_overrun) (simp_all add: MAKE_SMBUS_OP_def i2c_smbus_access_def rv_sys sys_kernel)

text \<open>
  A successful \<open>smbus_process_call\<close> prints the word it sent, whatever word the slave answered.
\<close>
theorem smbus_process_call_prints_sent:
  assumes "smbus_process_call_op E ps op w = Some (0, w')"
  shows "stdout w' = stdout w @ ''0x'' @ HEX 4 (unat (fixed 2 (data ps))) @ nl"
  using assms
  by (auto simp: smbus_process_call_op_def i2c_defs print_read_data_def Let_def split: if_splits)

theorem smbus_process_call_prints_sent_witness:
  "\<exists>w'. smbus_process_call_op \<lparr>kernel = (\<lambda>c k. (\<lparr>ret = 0, err = 0, buf = (\<lambda>_. 0xAA), str = '''', ents = []\<rparr>, k)),
       strerror = (\<lambda>_. ''error''), getpagesize = 4096\<rparr> zero_params
       (MAKE_SMBUS_OP SMBUS_PROC_CALL P_smbus_process_call_op) (init_world ()) = Some (0, w') \<and>
     stdout w' = ''0x0000'' @ nl"
  (is "\<exists>w'. ?run = _ \<and> _")
proof -
  obtain w' where run: "?run = Some (0, w')"
    by (simp add: smbus_process_call_op_def i2c_defs Let_def rv_sys)
  have "fixed 2 (data zero_params) = 0" "HEX 4 0 = ''0000''"
    by (simp_all add: fixed_def zero_params_def DTYPE_SIZE_def I2C_SMBUS_BLOCK_MAX_def print_eval)
  with smbus_process_call_prints_sent [OF run] run show ?thesis by auto
qed

text \<open>
  A value too large for \<^verbatim>\<open>unsigned long\<close> is not refused: the overflow check compares with
  \<^verbatim>\<open>LONG_MAX\<close>, the scanner returns \<^verbatim>\<open>ULONG_MAX\<close>, and all ones are written.
\<close>
theorem smbus_overflow_accepted:
  assumes "scan_number 0 a = Some (neg, m, '''')" and "2 ^ 64 \<le> m" and "op_size op = io_smbus_size sz"
  shows "parse_io_width a ps op w =
    Some ((0, ps\<lparr>data := replicate (size_bytes sz) 0xFF @ replicate (34 - size_bytes sz) 0\<rparr>), w)"
proof -
  have v: "value_arg sz a (- 1)"
    using assms(1,2) by (simp add: value_arg_strtoull strtoull_end_def LONG_MAX_def)
  have ones: "le_enc n (- 1 :: u64) = replicate n 0xFF" if "n \<le> 8" for n
  proof (rule nth_equalityI)
    fix i
    assume "i < length (le_enc n (- 1 :: u64))"
    then have "i < n" by simp
    have ff: "(0xFF :: u8) = - 1" by simp
    from \<open>i < n\<close> that show "le_enc n (- 1 :: u64) ! i = replicate n 0xFF ! i"
      unfolding ff by (intro bit_word_eqI) (simp add: bit_nth_le_enc)
  qed simp
  have "size_bytes sz \<le> 8" by (cases sz) simp_all
  then show ?thesis
    using parse_io_width_run [OF v assms(3), of ps w]
    by (simp add: set_fixed_def ones DTYPE_SIZE_def I2C_SMBUS_BLOCK_MAX_def)
qed

theorem smbus_overflow_accepted_witness:
  "parse_io_width ''0x10000000000000000'' zero_params (MAKE_SMBUS_OP SMBUS_SIZE_8 P_smbus_write_op) (init_world ()) =
     Some ((0, zero_params\<lparr>data := 0xFF # replicate 33 0\<rparr>), init_world ())"
proof -
  have "scan_number 0 ''0x10000000000000000'' = Some (False, 2 ^ 64, '''')"
    by (simp add: strto_eval)
  from smbus_overflow_accepted [OF this, of "MAKE_SMBUS_OP SMBUS_SIZE_8 P_smbus_write_op" SIZE8 zero_params "init_world ()"]
  show ?thesis by (simp add: MAKE_SMBUS_OP_def replicate_eval)
qed

text \<open>The device name of every adapter fits, with its NUL, the 15 bytes of the buffer it is printed to.\<close>
theorem smbus_devfile_fits: "length (devfile bus) + 1 \<le> 15"
proof -
  have "unat bus < 256" using unsigned_less [of bus, where ?'a = nat] by simp
  then have "length (dec_nat (unat bus)) \<le> 3"
    by (simp add: dec_nat_def nat_digits.simps)
  then show ?thesis by (simp add: devfile_def)
qed

end
