(* ===== verification/Platform.thy ===== *)
theory Platform
  imports Prelude
begin

text \<open>
  The byte orders of the hosts and the conversions of \<^verbatim>\<open>src/platform.h\<close>.  An object in memory is
  its byte image, which depends on the byte order \<open>bo\<close> of the host; the conversion macros swap the
  bytes on big-endian hosts and do nothing on the others.
\<close>

section \<open>Byte order\<close>

datatype byte_order = Big | Little

definition host_enc :: "byte_order \<Rightarrow> nat \<Rightarrow> 'a::len word \<Rightarrow> u8 list" where
  "host_enc bo n x = (case bo of Little \<Rightarrow> le_enc n x | Big \<Rightarrow> rev (le_enc n x))"

definition host_dec :: "byte_order \<Rightarrow> u8 list \<Rightarrow> 'a::len word" where
  "host_dec bo bs = (case bo of Little \<Rightarrow> le_dec bs | Big \<Rightarrow> le_dec (rev bs))"

interpretation host_u8: byte_image "host_enc bo 1 :: u8 \<Rightarrow> u8 list" "host_dec bo" 1 for bo
  by unfold_locales (simp_all add: host_enc_def host_dec_def codec split: byte_order.split)

interpretation host_u16: byte_image "host_enc bo 2 :: u16 \<Rightarrow> u8 list" "host_dec bo" 2 for bo
  by unfold_locales (simp_all add: host_enc_def host_dec_def codec split: byte_order.split)

interpretation host_u32: byte_image "host_enc bo 4 :: u32 \<Rightarrow> u8 list" "host_dec bo" 4 for bo
  by unfold_locales (simp_all add: host_enc_def host_dec_def codec split: byte_order.split)

interpretation host_u64: byte_image "host_enc bo 8 :: u64 \<Rightarrow> u8 list" "host_dec bo" 8 for bo
  by unfold_locales (simp_all add: host_enc_def host_dec_def codec split: byte_order.split)

section \<open>Conversions\<close>

text \<open>\<^verbatim>\<open>bswap_16\<close> and \<^verbatim>\<open>bswap_32\<close> of \<^verbatim>\<open>byteswap.h\<close> reverse the bytes.\<close>

definition bswap :: "nat \<Rightarrow> 'a::len word \<Rightarrow> 'a word" where
  "bswap n x = le_dec (rev (le_enc n x))"

definition le_to_host_8 :: "byte_order \<Rightarrow> u8 \<Rightarrow> u8" where
  "le_to_host_8 bo x = x"
definition le_to_host_16 :: "byte_order \<Rightarrow> u16 \<Rightarrow> u16" where
  "le_to_host_16 bo x = (case bo of Big \<Rightarrow> bswap 2 x | Little \<Rightarrow> x)"
definition le_to_host_32 :: "byte_order \<Rightarrow> u32 \<Rightarrow> u32" where
  "le_to_host_32 bo x = (case bo of Big \<Rightarrow> bswap 4 x | Little \<Rightarrow> x)"
definition host_to_le_8 :: "byte_order \<Rightarrow> u8 \<Rightarrow> u8" where
  "host_to_le_8 bo x = x"
definition host_to_le_16 :: "byte_order \<Rightarrow> u16 \<Rightarrow> u16" where
  "host_to_le_16 bo x = (case bo of Big \<Rightarrow> bswap 2 x | Little \<Rightarrow> x)"
definition host_to_le_32 :: "byte_order \<Rightarrow> u32 \<Rightarrow> u32" where
  "host_to_le_32 bo x = (case bo of Big \<Rightarrow> bswap 4 x | Little \<Rightarrow> x)"

lemmas le_to_host_defs = le_to_host_8_def le_to_host_16_def le_to_host_32_def
lemmas host_to_le_defs = host_to_le_8_def host_to_le_16_def host_to_le_32_def

lemma length_1: "length bs = 1 \<longleftrightarrow> (\<exists>b. bs = [b])"
  by (auto simp: One_nat_def length_Suc_conv)

text \<open>Whatever the byte order, an object filled with little-endian bytes holds their value after the conversion.\<close>

lemma le_to_host_image:
  "length bs = 1 \<Longrightarrow> le_to_host_8 bo (host_dec bo bs) = le_dec bs"
  "length bs = 2 \<Longrightarrow> le_to_host_16 bo (host_dec bo bs) = le_dec bs"
  "length bs = 4 \<Longrightarrow> le_to_host_32 bo (host_dec bo bs) = le_dec bs"
  by (auto simp: le_to_host_defs host_dec_def bswap_def codec length_1 split: byte_order.split)

lemma host_to_le_image:
  "host_enc bo 1 (host_to_le_8 bo x8) = le_enc 1 x8"
  "host_enc bo 2 (host_to_le_16 bo x16) = le_enc 2 x16"
  "host_enc bo 4 (host_to_le_32 bo x32) = le_enc 4 x32"
proof -
  have "rev (le_enc 1 x8) = le_enc 1 x8" using length_1 [of "le_enc 1 x8"] by auto
  then show "host_enc bo 1 (host_to_le_8 bo x8) = le_enc 1 x8"
    by (simp add: host_enc_def host_to_le_defs split: byte_order.split)
qed (simp_all add: host_enc_def host_to_le_defs bswap_def codec split: byte_order.split)

text \<open>Widening: the value of a narrow object and of its bytes in a 64-bit word.\<close>

lemma unat_le_dec_widen:
  assumes "8 * length bs \<le> LENGTH('a)" and "LENGTH('a) \<le> 64"
  shows "unat (le_dec bs :: 'a::len word) = unat (le_dec bs :: u64)"
proof -
  have "ucast (le_dec bs :: 'a word) = (le_dec bs :: u64)"
    using assms by (intro bit_word_eqI) (auto simp: bit_ucast_iff bit_le_dec)
  moreover have "unat (le_dec bs :: 'a word) < 2 ^ 64"
    using unsigned_less [of "le_dec bs :: 'a word", where ?'a = nat] power_increasing [OF assms(2), of "2 :: nat"]
    by linarith
  then have "unat (ucast (le_dec bs :: 'a word) :: u64) = unat (le_dec bs :: 'a word)"
    by (simp add: unsigned_ucast_eq take_bit_nat_eq_self)
  ultimately show ?thesis by simp
qed

lemma le_enc_ucast:
  assumes "8 * n \<le> LENGTH('a)"
  shows "le_enc n (ucast (x :: u64) :: 'a::len word) = le_enc n x"
proof (rule nth_equalityI)
  fix i
  assume "i < length (le_enc n (ucast x :: 'a word))"
  then have i: "i < n" by simp
  then have "8 * i + 8 \<le> LENGTH('a)" using assms by auto
  then show "le_enc n (ucast x :: 'a word) ! i = le_enc n x ! i"
    using i by (intro bit_word_eqI) (auto simp: bit_nth_le_enc bit_ucast_iff)
qed simp

end
