(* ===== verification/Pci_rw.thy ===== *)
theory Pci_rw
  imports Commands Device Platform
begin

text \<open>
  The PCI commands, \<^verbatim>\<open>src/pci_rw.c\<close>: a register of 1, 2 or 4 bytes of a device's
  configuration space through its sysfs or procfs file, and the list of devices.  The
  \<^verbatim>\<open>unsigned int\<close> coordinates are 32-bit words.
\<close>

section \<open>Opening a device\<close>

definition PROCFS_BASE_DIR :: string where
  "PROCFS_BASE_DIR = ''/proc/bus/pci''"

definition SYSFS_BASE_DIR :: string where
  "SYSFS_BASE_DIR = ''/sys/bus/pci/devices''"

definition device_name :: "u32 \<Rightarrow> u32 \<Rightarrow> u32 \<Rightarrow> u32 \<Rightarrow> string" where
  "device_name segment bus device func =
     hex 4 (unat segment) @ '':'' @ hex 2 (unat bus) @ '':'' @ hex 2 (unat device) @ ''.'' @ hex 1 (unat func)"

definition sysfs_name :: "u32 \<Rightarrow> u32 \<Rightarrow> u32 \<Rightarrow> u32 \<Rightarrow> string" where
  "sysfs_name segment bus device func = snprintf FILENAME_MAX
     (SYSFS_BASE_DIR @ ''/'' @ device_name segment bus device func @ ''/config'')"

definition procfs_name :: "u32 \<Rightarrow> u32 \<Rightarrow> u32 \<Rightarrow> u32 \<Rightarrow> string" where
  "procfs_name segment bus device func = snprintf FILENAME_MAX
     (if segment = 0
      then PROCFS_BASE_DIR @ ''/'' @ hex 2 (unat bus) @ ''/'' @ hex 2 (unat device) @ ''.'' @ hex 1 (unat func)
      else PROCFS_BASE_DIR @ ''/'' @ hex 4 (unat segment) @ '':'' @ hex 2 (unat bus) @ ''/'' @
             hex 2 (unat device) @ ''.'' @ hex 1 (unat func))"

definition open_device ::
    "'k env \<Rightarrow> u32 \<Rightarrow> u32 \<Rightarrow> u32 \<Rightarrow> u32 \<Rightarrow> u32 \<Rightarrow> 'k world \<Rightarrow> int \<times> 'k world" where
  "open_device E segment bus device func mode w =
     (let w = sys E (Open (sysfs_name segment bus device func) mode) w;
          fd = rv w;
          (fd, w) = (if fd < 0
                     then (let w = sys E (Open (procfs_name segment bus device func) mode) w in (rv w, w))
                     else (fd, w));
          w = (if fd < 0
               then eprintf (''Unable to open file to access PCI device '' @ [CHR 0x27] @
                      device_name segment bus device func @ [CHR 0x27] @ '': '' @ perr E w @ nl) w
               else w)
      in (fd, w))"

section \<open>Register access\<close>

text \<open>The macros \<^verbatim>\<open>DO_READ\<close> and \<^verbatim>\<open>DO_WRITE\<close>, for a register of \<open>n\<close> bytes.\<close>

definition pci_DO_READ :: "'k env \<Rightarrow> int \<Rightarrow> nat \<Rightarrow> 'k world \<Rightarrow> int \<times> 'k world" where
  "pci_DO_READ E fd n w =
     (let w = sys E (Read fd n) w in
      if rv w \<noteq> int n then (- 1, eprintf (''read(): '' @ perr E w @ nl) w)
      else (0, printf (''0x'' @ hex (2 * n) (unat (le_dec (rdbuf n w) :: u64)) @ nl) w))"

definition pci_DO_WRITE :: "'k env \<Rightarrow> int \<Rightarrow> nat \<Rightarrow> u64 \<Rightarrow> 'k world \<Rightarrow> int \<times> 'k world" where
  "pci_DO_WRITE E fd n ldata w =
     (let w = sys E (Write fd (le_enc n ldata)) w in
      if rv w \<noteq> int n then (- 1, eprintf (''write(): '' @ perr E w @ nl) w)
      else (0, w))"

text \<open>
  \<^verbatim>\<open>DO_READ\<close> and \<^verbatim>\<open>DO_WRITE\<close> as written, on a host of either byte order: the object is
  filled from the file and converted, or converted and stored.
\<close>

fun pci_loaded :: "byte_order \<Rightarrow> IO_SIZE \<Rightarrow> u8 list \<Rightarrow> nat" where
  "pci_loaded bo SIZE8 bs = unat (le_to_host_8 bo (host_dec bo bs))"
| "pci_loaded bo SIZE16 bs = unat (le_to_host_16 bo (host_dec bo bs))"
| "pci_loaded bo SIZE32 bs = unat (le_to_host_32 bo (host_dec bo bs))"
| "pci_loaded bo SIZE64 bs = 0"

fun pci_stored :: "byte_order \<Rightarrow> IO_SIZE \<Rightarrow> u64 \<Rightarrow> u8 list" where
  "pci_stored bo SIZE8 ldata = host_enc bo 1 (host_to_le_8 bo (ucast ldata))"
| "pci_stored bo SIZE16 ldata = host_enc bo 2 (host_to_le_16 bo (ucast ldata))"
| "pci_stored bo SIZE32 ldata = host_enc bo 4 (host_to_le_32 bo (ucast ldata))"
| "pci_stored bo SIZE64 ldata = []"

definition pci_DO_READ_host :: "byte_order \<Rightarrow> 'k env \<Rightarrow> int \<Rightarrow> IO_SIZE \<Rightarrow> 'k world \<Rightarrow> int \<times> 'k world" where
  "pci_DO_READ_host bo E fd sz w =
     (let n = size_bytes sz; w = sys E (Read fd n) w in
      if rv w \<noteq> int n then (- 1, eprintf (''read(): '' @ perr E w @ nl) w)
      else (0, printf (''0x'' @ hex (n * 2) (pci_loaded bo sz (rdbuf n w)) @ nl) w))"

definition pci_DO_WRITE_host ::
    "byte_order \<Rightarrow> 'k env \<Rightarrow> int \<Rightarrow> IO_SIZE \<Rightarrow> u64 \<Rightarrow> 'k world \<Rightarrow> int \<times> 'k world" where
  "pci_DO_WRITE_host bo E fd sz ldata w =
     (let n = size_bytes sz; w = sys E (Write fd (pci_stored bo sz ldata)) w in
      if rv w \<noteq> int n then (- 1, eprintf (''write(): '' @ perr E w @ nl) w)
      else (0, w))"

text \<open>The optional segment: present when there is one argument more than \<open>n\<close> words.\<close>

definition segment_arg :: "nat \<Rightarrow> string list \<Rightarrow> (u32 \<times> nat) option" where
  "segment_arg n argv =
     (if n < length argv then do { a \<leftarrow> argp argv 1; Some (word_of_int (strtol a 0), 2) }
      else Some (0, 1))"

definition pci_read_x ::
    "'k env \<Rightarrow> string list \<Rightarrow> cmd_info \<Rightarrow> 'k world \<Rightarrow> ('k, int) result" where
  "pci_read_x E argv info w = do {
     (seg, arg) \<leftarrow> segment_arg 5 argv;
     a_bus \<leftarrow> argp argv arg;
     a_dev \<leftarrow> argp argv (arg + 1);
     a_func \<leftarrow> argp argv (arg + 2);
     a_reg \<leftarrow> argp argv (arg + 3);
     let bus = (word_of_int (strtol a_bus 0) :: u32);
     let dev = (ucast (strtoul a_dev 0) :: u32);
     let func = (ucast (strtoul a_func 0) :: u32);
     let reg = (ucast (strtoul a_reg 0) :: u32);
     let (fd, w) = open_device E seg bus dev func O_RDONLY w;
     if fd < 0 then Some (- 1, w)
     else do {
       let w = sys E (Lseek fd (int (unat reg))) w;
       if rv w < 0 then
         Some (- 1, eprintf (''lseek('' @ dec_nat (unat reg) @ ''): '' @ perr E w @ nl) w)
       else
         (case get_command_size info of
            Some SIZE8 \<Rightarrow> (case pci_DO_READ E fd 1 w of (rc, w) \<Rightarrow>
              if rc < 0 then Some (- 1, w) else Some (0, sys E (Close fd) w))
          | Some SIZE16 \<Rightarrow> (case pci_DO_READ E fd 2 w of (rc, w) \<Rightarrow>
              if rc < 0 then Some (- 1, w) else Some (0, sys E (Close fd) w))
          | Some SIZE32 \<Rightarrow> (case pci_DO_READ E fd 4 w of (rc, w) \<Rightarrow>
              if rc < 0 then Some (- 1, w) else Some (0, sys E (Close fd) w))
          | _ \<Rightarrow> Some (- 1, eprintf (''invalid pci_read entry'' @ nl) w))
     }
   }"

definition pci_write_x ::
    "'k env \<Rightarrow> string list \<Rightarrow> cmd_info \<Rightarrow> 'k world \<Rightarrow> ('k, int) result" where
  "pci_write_x E argv info w = do {
     (seg, arg) \<leftarrow> segment_arg 6 argv;
     a_bus \<leftarrow> argp argv arg;
     a_dev \<leftarrow> argp argv (arg + 1);
     a_func \<leftarrow> argp argv (arg + 2);
     a_reg \<leftarrow> argp argv (arg + 3);
     a_data \<leftarrow> argp argv (arg + 4);
     let bus = (word_of_int (strtol a_bus 0) :: u32);
     let dev = (ucast (strtoul a_dev 0) :: u32);
     let func = (ucast (strtoul a_func 0) :: u32);
     let reg = (ucast (strtoul a_reg 0) :: u32);
     let ldata = strtoul a_data 0;
     let (fd, w) = open_device E seg bus dev func O_WRONLY w;
     if fd < 0 then Some (- 1, w)
     else do {
       let w = sys E (Lseek fd (int (unat reg))) w;
       if rv w < 0 then
         Some (- 1, eprintf (''lseek('' @ dec_nat (unat reg) @ ''): '' @ perr E w @ nl) w)
       else
         (case get_command_size info of
            Some SIZE8 \<Rightarrow> (case pci_DO_WRITE E fd 1 ldata w of (rc, w) \<Rightarrow>
              if rc < 0 then Some (- 1, w) else Some (0, sys E (Close fd) w))
          | Some SIZE16 \<Rightarrow> (case pci_DO_WRITE E fd 2 ldata w of (rc, w) \<Rightarrow>
              if rc < 0 then Some (- 1, w) else Some (0, sys E (Close fd) w))
          | Some SIZE32 \<Rightarrow> (case pci_DO_WRITE E fd 4 ldata w of (rc, w) \<Rightarrow>
              if rc < 0 then Some (- 1, w) else Some (0, sys E (Close fd) w))
          | _ \<Rightarrow> Some (- 1, eprintf (''invalid pci_read entry'' @ nl) w))
     }
   }"

section \<open>Listing the devices\<close>

text \<open>
  The conversion \<^verbatim>\<open>%nx\<close> of \<^verbatim>\<open>sscanf\<close>: white space is skipped, at most \<open>n\<close>
  characters are taken, the longest prefix of a number is consumed; a lone \<open>0x\<close> is a matching
  failure.  \<open>scan_lit\<close> matches an ordinary character of the format.
\<close>

definition scan_x :: "nat \<Rightarrow> string \<Rightarrow> (u32 \<times> string) option" where
  "scan_x n s =
     (let s = dropWhile isspace s;
          field = take n s;
          (neg, f1) = scan_sign field;
          (b, f2) = scan_base 16 f1
      in if f2 = [] \<or> \<not> is_digit 16 (hd f2) \<or>
            (f2 = f1 \<and> 2 \<le> length f1 \<and> f1 ! 0 = CHR ''0'' \<and> (f1 ! 1 = CHR ''x'' \<or> f1 ! 1 = CHR ''X''))
         then None
         else (let (m, rest) = scan_digits 16 0 f2;
                   v = (if 2 ^ 64 \<le> m then - 1 else if neg then - of_nat m else of_nat m :: u64)
               in Some (ucast v, drop (length field - length rest) s)))"

fun scan_lit :: "char \<Rightarrow> string \<Rightarrow> string option" where
  "scan_lit c [] = None"
| "scan_lit c (d # s) = (if c = d then Some s else None)"

text \<open>\<^verbatim>\<open>"%04x:%02x:%02x.%x"\<close>, \<^verbatim>\<open>"%02x"\<close> and \<^verbatim>\<open>"%02x.%x"\<close>: the values when all are assigned.\<close>

definition scan_sysfs_name :: "string \<Rightarrow> (u32 \<times> u32 \<times> u32 \<times> u32) option" where
  "scan_sysfs_name s = do {
     (seg, s) \<leftarrow> scan_x 4 s;
     s \<leftarrow> scan_lit (CHR '':'') s;
     (bus, s) \<leftarrow> scan_x 2 s;
     s \<leftarrow> scan_lit (CHR '':'') s;
     (dev, s) \<leftarrow> scan_x 2 s;
     s \<leftarrow> scan_lit (CHR ''.'') s;
     (fun', s) \<leftarrow> scan_x (length s) s;
     Some (seg, bus, dev, fun')
   }"

definition scan_bus_name :: "string \<Rightarrow> u32 option" where
  "scan_bus_name s = map_option fst (scan_x 2 s)"

definition scan_procfs_name :: "string \<Rightarrow> (u32 \<times> u32) option" where
  "scan_procfs_name s = do {
     (dev, s) \<leftarrow> scan_x 2 s;
     s \<leftarrow> scan_lit (CHR ''.'') s;
     (fun', s) \<leftarrow> scan_x (length s) s;
     Some (dev, fun')
   }"

definition device_line :: "u32 \<Rightarrow> u32 \<Rightarrow> u32 \<Rightarrow> string" where
  "device_line bus dev fun' = dec_int (sint bus) @ '' '' @ dec_int (sint dev) @ '' '' @ dec_int (sint fun') @ nl"

fun list_sysfs_entries :: "(string \<times> bool) list \<Rightarrow> 'k world \<Rightarrow> 'k world" where
  "list_sysfs_entries [] w = w"
| "list_sysfs_entries ((d_name, is_dir) # es) w =
     list_sysfs_entries es
       (case scan_sysfs_name d_name of
          Some (seg, bus, dev, fun') \<Rightarrow> printf (device_line bus dev fun') w
        | None \<Rightarrow> w)"

definition pci_list_sysfs :: "'k env \<Rightarrow> 'k world \<Rightarrow> int \<times> 'k world" where
  "pci_list_sysfs E w =
     (let w = sys E (Opendir SYSFS_BASE_DIR) w; dir = rv w in
      if dir < 0 then (- 1, eprintf (''opendir('' @ SYSFS_BASE_DIR @ ''): '' @ perr E w @ nl) w)
      else (0, sys E (Closedir dir) (list_sysfs_entries (ents (res w)) w)))"

fun list_subdir :: "u32 \<Rightarrow> (string \<times> bool) list \<Rightarrow> 'k world \<Rightarrow> 'k world" where
  "list_subdir bus [] w = w"
| "list_subdir bus ((d_name, is_dir) # es) w =
     list_subdir bus es
       (case scan_procfs_name d_name of
          Some (dev, fun') \<Rightarrow> printf (device_line bus dev fun') w
        | None \<Rightarrow> w)"

fun list_procfs_entries :: "'k env \<Rightarrow> (string \<times> bool) list \<Rightarrow> 'k world \<Rightarrow> int \<times> 'k world" where
  "list_procfs_entries E [] w = (0, w)"
| "list_procfs_entries E ((d_name, is_dir) # es) w =
     (case scan_bus_name d_name of
        Some bus \<Rightarrow>
          if is_dir then
            (let sub = snprintf 1024 (PROCFS_BASE_DIR @ ''/'' @ d_name);
                 w = sys E (Opendir sub) w
             in if rv w < 0 then (- 1, eprintf (''opendir('' @ sub @ ''): '' @ perr E w @ nl) w)
                else list_procfs_entries E es (list_subdir bus (ents (res w)) w))
          else list_procfs_entries E es w
      | None \<Rightarrow> list_procfs_entries E es w)"

definition pci_list_procfs :: "'k env \<Rightarrow> 'k world \<Rightarrow> int \<times> 'k world" where
  "pci_list_procfs E w =
     (let w = sys E (Opendir PROCFS_BASE_DIR) w in
      if rv w < 0 then (- 1, eprintf (''opendir('' @ PROCFS_BASE_DIR @ ''): '' @ perr E w @ nl) w)
      else list_procfs_entries E (ents (res w)) w)"

definition pci_list :: "'k env \<Rightarrow> 'k world \<Rightarrow> ('k, int) result" where
  "pci_list E w =
     (let (ret, w) = pci_list_sysfs E w in
      if ret < 0 then Some (pci_list_procfs E w) else Some (ret, w))"

section \<open>Command table\<close>

definition pci_rd_params :: prereq_params where
  "pci_rd_params = VAR_ARGS 5 6 ''[segment] <bus> <dev> <func> <reg>'' 0"
definition pci_wr_params :: prereq_params where
  "pci_wr_params = VAR_ARGS 6 7 ''[segment] <bus> <dev> <func> <reg> <data>'' 0"

definition MAKE_PCI_RW_CMD_PAIR :: "IO_SIZE \<Rightarrow> cmd_info list" where
  "MAKE_PCI_RW_CMD_PAIR sz =
    [MAKE_CMD_WITH_PARAMS_SIZE (''pci_read'' @ size_suffix sz) E_pci_read_x NULL pci_rd_params sz,
     MAKE_CMD_WITH_PARAMS_SIZE (''pci_write'' @ size_suffix sz) E_pci_write_x NULL pci_wr_params sz]"

definition pci_cmds :: "cmd_info list" where
  "pci_cmds = MAKE_PCI_RW_CMD_PAIR SIZE8 @ MAKE_PCI_RW_CMD_PAIR SIZE16 @ MAKE_PCI_RW_CMD_PAIR SIZE32 @
     [MAKE_CMD ''pci_list'' E_pci_list NULL]"

definition PCI_group :: cmd_group where
  "PCI_group = \<lparr>group_name = ''PCI'', description = Some ''commands to access PCI registers'',
     commands = pci_cmds\<rparr>"

lemmas pci_params_defs = pci_rd_params_def pci_wr_params_def

section \<open>Opening\<close>

lemma open_device_cases:
  obtains (sysfs) "open_device E seg bus dev func mode w =
      (rv (sys E (Open (sysfs_name seg bus dev func) mode) w), sys E (Open (sysfs_name seg bus dev func) mode) w)"
      "0 \<le> rv (sys E (Open (sysfs_name seg bus dev func) mode) w)"
    | (procfs) w1 where "w1 = sys E (Open (procfs_name seg bus dev func) mode)
        (sys E (Open (sysfs_name seg bus dev func) mode) w)" "rv (sys E (Open (sysfs_name seg bus dev func) mode) w) < 0"
      "0 \<le> rv w1" "open_device E seg bus dev func mode w = (rv w1, w1)"
    | (failed) f msg w1 where "w1 = sys E (Open (procfs_name seg bus dev func) mode)
        (sys E (Open (sysfs_name seg bus dev func) mode) w)" "rv (sys E (Open (sysfs_name seg bus dev func) mode) w) < 0"
      "open_device E seg bus dev func mode w = (f, eprintf msg w1)" "f < 0" "rv w1 < 0"
proof -
  let ?w1 = "sys E (Open (sysfs_name seg bus dev func) mode) w"
  let ?w2 = "sys E (Open (procfs_name seg bus dev func) mode) ?w1"
  consider "0 \<le> rv ?w1" | "rv ?w1 < 0" "0 \<le> rv ?w2" | "rv ?w1 < 0" "rv ?w2 < 0" by linarith
  then show ?thesis
    by cases (simp_all add: open_device_def Let_def that)
qed

section \<open>Register access\<close>

definition pci_info_ok :: "IO_SIZE \<Rightarrow> cmd_info \<Rightarrow> bool" where
  "pci_info_ok sz info \<longleftrightarrow> get_command_size info = Some sz \<and> sz \<noteq> SIZE64"

text \<open>The command line of an access: an optional segment, then bus, device, function and register.\<close>

fun pci_argv :: "string \<Rightarrow> string option \<Rightarrow> string \<times> string \<times> string \<times> string \<Rightarrow> string list \<Rightarrow> string list" where
  "pci_argv cmd seg (b, d, f, r) rest =
     cmd # (case seg of None \<Rightarrow> [] | Some s \<Rightarrow> [s]) @ [b, d, f, r] @ rest"

fun pci_segment :: "string option \<Rightarrow> u32" where
  "pci_segment None = 0"
| "pci_segment (Some s) = word_of_int (strtol s 0)"

fun pci_path :: "string option \<Rightarrow> string \<times> string \<times> string \<times> string \<Rightarrow> string" where
  "pci_path seg (b, d, f, r) =
     sysfs_name (pci_segment seg) (word_of_int (strtol b 0)) (ucast (strtoul d 0)) (ucast (strtoul f 0))"

fun pci_reg :: "string \<times> string \<times> string \<times> string \<Rightarrow> int" where
  "pci_reg (b, d, f, r) = int (unat (ucast (strtoul r 0) :: u32))"

lemma open_device_run:
  assumes "register_file E V (sysfs_name seg bus dev func) n"
  shows "\<exists>fd w'. open_device E seg bus dev func mode w = (fd, w') \<and> \<not> fd < 0 \<and>
    fd_pos V (kstate w') fd = Some (sysfs_name seg bus dev func, 0) \<and> fd_mode V (kstate w') fd = mode AND O_ACCMODE \<and>
    register V (kstate w') = register V (kstate w) \<and> stdout w' = stdout w \<and> stderr w' = stderr w"
  by (simp add: open_device_def Let_def register_file_ops [OF assms])

lemma size_cases: "pci_info_ok sz info \<Longrightarrow>
    sz = SIZE8 \<and> get_command_size info = Some SIZE8 \<or> sz = SIZE16 \<and> get_command_size info = Some SIZE16 \<or>
    sz = SIZE32 \<and> get_command_size info = Some SIZE32"
  by (cases sz) (simp_all add: pci_info_ok_def)

lemma pci_reg_nonneg [simp]: "0 \<le> pci_reg a"
  by (cases a) simp

text \<open>The whole access, once the device is open at its configuration file.\<close>

lemma pci_read_run:
  assumes "register_file E V (pci_path seg a) (size_bytes sz)" and "pci_info_ok sz info"
  shows "\<exists>w'. pci_read_x E (pci_argv cmd seg a []) info w = Some (0, w') \<and>
    register V (kstate w') = register V (kstate w) \<and>
    stdout w' = stdout w @ ''0x'' @ hex (2 * size_bytes sz)
      (unat (le_dec (register V (kstate w) (pci_path seg a) (pci_reg a)) :: u64)) @ nl \<and> stderr w' = stderr w"
proof -
  obtain b d f r where a: "a = (b, d, f, r)" by (cases a)
  let ?open = "\<lambda>mode. open_device E (pci_segment seg) (word_of_int (strtol b 0)) (ucast (strtoul d 0)) (ucast (strtoul f 0)) mode"
  obtain fd w1 where o: "?open O_RDONLY w = (fd, w1)" "\<not> fd < 0" "fd_pos V (kstate w1) fd = Some (pci_path seg a, 0)"
    "fd_mode V (kstate w1) fd = O_RDONLY AND O_ACCMODE"
    "register V (kstate w1) = register V (kstate w)" "stdout w1 = stdout w" "stderr w1 = stderr w"
    using open_device_run [of E V _ _ _ _ "size_bytes sz"] assms(1) unfolding a pci_path.simps by blast
  note seek = register_file_Lseek [OF assms(1) o(3) pci_reg_nonneg [of a]]
  have "readable (fd_mode V (kstate (sys E (Lseek fd (pci_reg a)) w1)) fd)" by (simp add: seek(3) o(4))
  note rd = register_file_Read [OF assms(1) seek(2) this] register_file_Close [OF assms(1)]
  from size_cases [OF assms(2)] show ?thesis
    using o seek rd
    by (cases seg; elim disjE) (auto simp: a pci_read_x_def segment_arg_def pci_DO_READ_def Let_def)
qed

lemma pci_write_run:
  assumes "register_file E V (pci_path seg a) (size_bytes sz)" and "pci_info_ok sz info"
  shows "\<exists>w'. pci_write_x E (pci_argv cmd seg a [v]) info w = Some (0, w') \<and>
    register V (kstate w') (pci_path seg a) (pci_reg a) = le_enc (size_bytes sz) (strtoul v 0) \<and>
    stdout w' = stdout w \<and> stderr w' = stderr w"
proof -
  obtain b d f r where a: "a = (b, d, f, r)" by (cases a)
  let ?open = "\<lambda>mode. open_device E (pci_segment seg) (word_of_int (strtol b 0)) (ucast (strtoul d 0)) (ucast (strtoul f 0)) mode"
  obtain fd w1 where o: "?open O_WRONLY w = (fd, w1)" "\<not> fd < 0" "fd_pos V (kstate w1) fd = Some (pci_path seg a, 0)"
    "fd_mode V (kstate w1) fd = O_WRONLY AND O_ACCMODE"
    "register V (kstate w1) = register V (kstate w)" "stdout w1 = stdout w" "stderr w1 = stderr w"
    using open_device_run [of E V _ _ _ _ "size_bytes sz"] assms(1) unfolding a pci_path.simps by blast
  note seek = register_file_Lseek [OF assms(1) o(3) pci_reg_nonneg [of a]]
  have "writable (fd_mode V (kstate (sys E (Lseek fd (pci_reg a)) w1)) fd)" by (simp add: seek(3) o(4))
  note wr = register_file_Write [OF assms(1) seek(2) this, of "le_enc (size_bytes sz) (strtoul v 0)", simplified]
    register_file_Close [OF assms(1)]
  from size_cases [OF assms(2)] show ?thesis
    using o seek wr
    by (cases seg; elim disjE) (auto simp: a pci_write_x_def segment_arg_def pci_DO_WRITE_def Let_def)
qed


type_synonym 'k pci_conf =
  "'k env \<times> 'k regview \<times> IO_SIZE \<times> string option \<times> (string \<times> string \<times> string \<times> string) \<times> string"

definition pci_ok :: "'k pci_conf \<Rightarrow> bool" where
  "pci_ok c = (case c of (E, V, sz, seg, a, v) \<Rightarrow>
     register_file E V (pci_path seg a) (size_bytes sz) \<and> sz \<noteq> SIZE64)"

definition pci_read_info :: "IO_SIZE \<Rightarrow> cmd_info" where
  "pci_read_info sz = MAKE_PCI_RW_CMD_PAIR sz ! 0"

definition pci_write_info :: "IO_SIZE \<Rightarrow> cmd_info" where
  "pci_write_info sz = MAKE_PCI_RW_CMD_PAIR sz ! 1"

lemma pci_infos:
  "pci_info_ok sz (pci_read_info sz) \<longleftrightarrow> sz \<noteq> SIZE64" "pci_info_ok sz (pci_write_info sz) \<longleftrightarrow> sz \<noteq> SIZE64"
  by (simp_all add: pci_info_ok_def pci_read_info_def pci_write_info_def MAKE_PCI_RW_CMD_PAIR_def make_cmd_defs
      get_command_size_def)

interpretation pci: register_commands
  pci_ok
  "\<lambda>(E, V, sz, seg, a, v). pci_write_x E (pci_argv (name (pci_write_info sz)) seg a [v]) (pci_write_info sz)"
  "\<lambda>(E, V, sz, seg, a, v). pci_read_x E (pci_argv (name (pci_read_info sz)) seg a []) (pci_read_info sz)"
  "\<lambda>(E, V, sz, seg, a, v) k. (sz, register V k (pci_path seg a) (pci_reg a))"
  "\<lambda>(E, V, sz, seg, a, v). (sz, le_enc (size_bytes sz) (strtoul v 0))"
  "\<lambda>(sz, bs). ''0x'' @ hex (2 * size_bytes sz) (unat (le_dec bs :: u64)) @ nl"
proof (unfold_locales, goal_cases)
  case (1 c w)
  obtain E V sz seg a v where c: "c = (E, V, sz, seg, a, v)" by (cases c)
  show ?case
    using 1 pci_write_run [of E V seg a sz "pci_write_info sz" _ v w] by (simp add: pci_ok_def c pci_infos)
next
  case (2 c w)
  obtain E V sz seg a v where c: "c = (E, V, sz, seg, a, v)" by (cases c)
  show ?case
    using 2 pci_read_run [of E V seg a sz "pci_read_info sz" "name (pci_read_info sz)" w] by (auto simp: pci_ok_def c pci_infos)
qed

section \<open>Descriptors\<close>

text \<open>The opened descriptor is closed on success only.\<close>

lemma open_device_fds:
  assumes "open_device E seg bus dev func mode w = (fd, w1)" and "0 \<le> fd"
  shows "open_fds (trace w1) = fd # open_fds (trace w)"
  using assms
  by (cases rule: open_device_cases [of E seg bus dev func mode w, case_names sysfs procfs failed]) (auto simp: rv_def)

lemma pci_DO_READ_fds:
  "pci_DO_READ E fd n w = (rc, w') \<Longrightarrow> open_fds (trace w') = open_fds (trace w) \<and> (rc = 0 \<or> rc = - 1)"
  "pci_DO_WRITE E fd n v w = (rc, w') \<Longrightarrow> open_fds (trace w') = open_fds (trace w) \<and> (rc = 0 \<or> rc = - 1)"
  by (auto simp: pci_DO_READ_def pci_DO_WRITE_def Let_def split: if_splits)

lemma pci_read_leak_fds:
  assumes "pci_read_x E (pci_argv cmd seg (b, d, f, r) []) info w = Some (rc, w')"
    and "open_device E (pci_segment seg) (word_of_int (strtol b 0)) (ucast (strtoul d 0)) (ucast (strtoul f 0)) O_RDONLY w =
      (fd, w1)" and "0 \<le> fd"
  shows "open_fds (trace w') = (if rc = 0 then open_fds (trace w) else fd # open_fds (trace w))"
  using assms open_device_fds [OF assms(2,3)]
  by (cases seg)
    (auto simp: pci_read_x_def segment_arg_def Let_def
      split: if_splits option.splits IO_SIZE.splits prod.splits dest!: pci_DO_READ_fds)

lemma pci_write_leak_fds:
  assumes "pci_write_x E (pci_argv cmd seg (b, d, f, r) [v]) info w = Some (rc, w')"
    and "open_device E (pci_segment seg) (word_of_int (strtol b 0)) (ucast (strtoul d 0)) (ucast (strtoul f 0)) O_WRONLY w =
      (fd, w1)" and "0 \<le> fd"
  shows "open_fds (trace w') = (if rc = 0 then open_fds (trace w) else fd # open_fds (trace w))"
  using assms open_device_fds [OF assms(2,3)]
  by (cases seg)
    (auto simp: pci_write_x_def segment_arg_def Let_def
      split: if_splits option.splits IO_SIZE.splits prod.splits dest!: pci_DO_READ_fds)

section \<open>Device names\<close>

lemma nat_digits_length: "0 < k \<Longrightarrow> n < 16 ^ k \<Longrightarrow> length (nat_digits 16 n) \<le> k"
proof (induction k arbitrary: n)
  case (Suc k)
  show ?case
  proof (cases "n < 16")
    case True
    then show ?thesis by (simp add: nat_digits.simps)
  next
    case False
    then have "0 < k" using Suc.prems by (cases k) auto
    moreover have "n div 16 < 16 ^ k" using Suc.prems(2) by (simp add: less_mult_imp_div_less mult.commute)
    ultimately have "length (nat_digits 16 (n div 16)) \<le> k" by (rule Suc.IH)
    with False show ?thesis by (subst nat_digits.simps) simp
  qed
qed simp

lemma length_hex: "0 < k \<Longrightarrow> n < 16 ^ k \<Longrightarrow> length (hex k n) = k"
  using nat_digits_length [of k n] by (simp add: hex_def pad0_def)

lemma hex_is_digit: "c \<in> set (hex k n) \<Longrightarrow> is_digit 16 c"
proof -
  have "is_digit 16 (CHR ''0'')" by (simp add: is_digit_def digit_val_def)
  then show "c \<in> set (hex k n) \<Longrightarrow> is_digit 16 c"
    unfolding hex_def pad0_digits using nat_digits_less [of 16] by auto
qed

lemma hex_neq_Nil [simp]: "hex k n \<noteq> []"
  by (simp add: hex_def)

lemma scan_x_hex:
  assumes "v < 2 ^ 32" and "n = length (hex k v)"
  shows "scan_x n (hex k v @ rest) = Some (of_nat v, rest)"
proof -
  obtain c cs where h: "hex k v = c # cs" by (cases "hex k v") auto
  have c: "is_digit 16 c" using hex_is_digit [of c k v] h by simp
  have "scan_digits 16 0 (hex k v) = (v, [])"
    using scan_padded [of 16 "[]" k False v] by (simp add: hex_def)
  moreover have nox: "\<not> (2 \<le> length (hex k v) \<and> (hex k v ! 1 = CHR ''x'' \<or> hex k v ! 1 = CHR ''X''))"
  proof
    assume "2 \<le> length (hex k v) \<and> (hex k v ! 1 = CHR ''x'' \<or> hex k v ! 1 = CHR ''X'')"
    then have "is_digit 16 (CHR ''x'') \<or> is_digit 16 (CHR ''X'')"
      using hex_is_digit [of "hex k v ! 1" k v] by (auto simp: nth_mem)
    then show False by (simp add: is_digit_def digit_val_def)
  qed
  moreover have "scan_sign (hex k v) = (False, hex k v)"
    using digit_no_sign [OF c] h by simp
  moreover have "dropWhile isspace (hex k v @ rest) = hex k v @ rest"
    using digit_not_space [OF c] h by simp
  moreover have "scan_base 16 (hex k v) = (16, hex k v)"
    using nox by auto
  moreover have "ucast (of_nat v :: u64) = (of_nat v :: u32)"
    using assms(1) by (intro word_unat_eq_iff [THEN iffD2])
      (simp add: unsigned_ucast_eq unat_of_nat take_bit_nat_eq_self_iff)
  ultimately show ?thesis
    using assms c h by (simp add: scan_x_def Let_def)
qed


text \<open>A device: segment, bus, device and function numbers within the ranges of their fields.\<close>

type_synonym pci_device = "nat \<times> nat \<times> nat \<times> nat"

definition device_ok :: "pci_device \<Rightarrow> bool" where
  "device_ok p = (case p of (seg, bus, dev, fun') \<Rightarrow> seg < 16 ^ 4 \<and> bus < 16 ^ 2 \<and> dev < 16 ^ 2 \<and> fun' < 2 ^ 31)"

fun device_entry :: "pci_device \<Rightarrow> string" where
  "device_entry (seg, bus, dev, fun') = device_name (of_nat seg) (of_nat bus) (of_nat dev) (of_nat fun')"

fun device_text :: "pci_device \<Rightarrow> string" where
  "device_text (seg, bus, dev, fun') = dec_nat bus @ '' '' @ dec_nat dev @ '' '' @ dec_nat fun' @ nl"

lemma sint_of_nat: "n < 2 ^ 31 \<Longrightarrow> sint (of_nat n :: u32) = int n"
  by (simp add: signed_of_nat signed_take_bit_int_eq_self)

lemma unat_of_nat32: "n < 2 ^ 32 \<Longrightarrow> unat (of_nat n :: u32) = n"
  by (simp add: unat_of_nat)

lemma scan_device_entry:
  assumes "device_ok p"
  shows "\<exists>seg bus dev fun'. scan_sysfs_name (device_entry p) = Some (seg, bus, dev, fun') \<and>
    device_line bus dev fun' = device_text p"
proof -
  obtain seg bus dev fun' where p: "p = (seg, bus, dev, fun')" by (cases p)
  have r: "seg < 16 ^ 4" "bus < 16 ^ 2" "dev < 16 ^ 2" "fun' < 2 ^ 31"
    using assms by (simp_all add: device_ok_def p)
  have l: "length (hex 4 seg) = 4" "length (hex 2 bus) = 2" "length (hex 2 dev) = 2"
    using r length_hex [of 4] length_hex [of 2] by simp_all
  have u: "seg < 2 ^ 32" "bus < 2 ^ 32" "dev < 2 ^ 32" "fun' < 2 ^ 32" using r by simp_all
  note x = scan_x_hex [OF u(1) l(1) [symmetric]] scan_x_hex [OF u(2) l(2) [symmetric]]
    scan_x_hex [OF u(3) l(3) [symmetric]] scan_x_hex [OF u(4) refl, of 1 "[]", simplified]
  have "scan_sysfs_name (device_entry p) = Some (of_nat seg, of_nat bus, of_nat dev, of_nat fun')"
    using u unat_of_nat32 by (simp add: p device_name_def scan_sysfs_name_def x)
  moreover have "device_line (of_nat bus) (of_nat dev) (of_nat fun') = device_text p"
    using r by (simp add: p device_line_def sint_of_nat dec_int_def)
  ultimately show ?thesis by blast
qed

text \<open>
  What a directory holds: devices and other names.  A name without a colon, such as the entries
  \<^verbatim>\<open>.\<close> and \<^verbatim>\<open>..\<close> that every directory has, is not the name of a device.
\<close>

datatype dir_entry = Device_entry pci_device | Other_entry string

fun entry_ok :: "dir_entry \<Rightarrow> bool" where
  "entry_ok (Device_entry p) = device_ok p"
| "entry_ok (Other_entry n) = (CHR '':'' \<notin> set n)"

fun entry_name :: "dir_entry \<Rightarrow> string" where
  "entry_name (Device_entry p) = device_entry p"
| "entry_name (Other_entry n) = n"

fun entry_text :: "dir_entry \<Rightarrow> string" where
  "entry_text (Device_entry p) = device_text p"
| "entry_text (Other_entry n) = ''''"

lemma scan_x_rest: "scan_x n s = Some (v, rest) \<Longrightarrow> set rest \<subseteq> set s"
  by (auto simp: scan_x_def Let_def split: prod.splits if_splits dest!: in_set_dropD set_dropWhileD)

lemma scan_other_entry:
  assumes "CHR '':'' \<notin> set n"
  shows "scan_sysfs_name n = None"
proof -
  have "scan_lit (CHR '':'') rest = None" if "scan_x 4 n = Some (v, rest)" for v rest
    using scan_x_rest [OF that] assms by (cases rest) auto
  then show ?thesis by (auto simp: scan_sysfs_name_def split: bind_splits)
qed

lemma list_sysfs_devices:
  "map fst ds = map entry_name es \<Longrightarrow> \<forall>e \<in> set es. entry_ok e \<Longrightarrow>
     list_sysfs_entries ds w = printf (concat (map entry_text es)) w"
proof (induction es arbitrary: ds w)
  case Nil
  then show ?case by (simp add: printf_def)
next
  case (Cons e es)
  then obtain n is_dir ds' where ds: "ds = (n, is_dir) # ds'" "n = entry_name e" "map fst ds' = map entry_name es"
    by (cases ds) auto
  note IH = Cons.IH [OF ds(3)]
  show ?case
  proof (cases e)
    case (Device_entry p)
    then obtain seg bus dev fun' where
      "scan_sysfs_name n = Some (seg, bus, dev, fun')" "device_line bus dev fun' = device_text p"
      using scan_device_entry [of p] Cons.prems ds(2) by auto
    with IH Cons.prems Device_entry show ?thesis by (simp add: ds(1) printf_def)
  next
    case (Other_entry m)
    then have "scan_sysfs_name n = None" using scan_other_entry Cons.prems ds(2) by simp
    with IH Cons.prems Other_entry show ?thesis by (simp add: ds(1))
  qed
qed

interpretation pci: addressed_register
  pci_ok
  "\<lambda>(E, V, sz, seg, a, v). pci_write_x E (pci_argv (name (pci_write_info sz)) seg a [v]) (pci_write_info sz)"
  "\<lambda>(E, V, sz, seg, a, v). pci_read_x E (pci_argv (name (pci_read_info sz)) seg a []) (pci_read_info sz)"
  "\<lambda>(E, V, sz, seg, a, v) k. (sz, register V k (pci_path seg a) (pci_reg a))"
  "\<lambda>(E, V, sz, seg, a, v). (sz, le_enc (size_bytes sz) (strtoul v 0))"
  "\<lambda>(sz, bs). ''0x'' @ hex (2 * size_bytes sz) (unat (le_dec bs :: u64)) @ nl"
  "\<lambda>d (E, V, sz, seg, a, v). (E, V, sz, seg, a, d)"
  by unfold_locales (auto simp: pci_ok_def)

lemma pci_loaded_le: "sz \<noteq> SIZE64 \<Longrightarrow> length bs = size_bytes sz \<Longrightarrow> pci_loaded bo sz bs = unat (le_dec bs :: u64)"
  using unat_le_dec_widen [of bs, where ?'a = 8] unat_le_dec_widen [of bs, where ?'a = 16]
    unat_le_dec_widen [of bs, where ?'a = 32]
  by (cases sz) (simp_all add: le_to_host_image)

lemma pci_stored_le: "sz \<noteq> SIZE64 \<Longrightarrow> pci_stored bo sz ldata = le_enc (size_bytes sz) ldata"
  by (cases sz) (simp_all add: host_to_le_image le_enc_ucast)

section \<open>Properties\<close>

text \<open>
  C7: scripts of PCI write and read commands of one width on one register, with or without a segment
  argument, refine the abstract register: what can happen is exactly the behaviour of a variable that
  holds the last value written, reduced to the width of the register.
\<close>
theorem pci_scripts:
  assumes "register_file E V (pci_path seg a) (size_bytes sz)" and "sz \<noteq> SIZE64"
  shows "(\<exists>k'. script
      (\<lambda>v. pci_write_x E (pci_argv (name (pci_write_info sz)) seg a [v]) (pci_write_info sz))
      (pci_read_x E (pci_argv (name (pci_read_info sz)) seg a []) (pci_read_info sz)) k evs k') \<longleftrightarrow>
    evs = register_script (\<lambda>v. take_bit (8 * size_bytes sz) (strtoul v 0))
      (\<lambda>x. ''0x'' @ hex (2 * size_bytes sz) (unat x) @ nl) (le_dec (register V k (pci_path seg a) (pci_reg a))) (map fst evs)"
proof -
  have "pci_ok (E, V, sz, seg, a, '''')" using assms by (simp add: pci_ok_def)
  note iff = pci.script_iff [OF this, of k evs, simplified prod.case]
  show ?thesis
    unfolding iff
    by (subst register_script_sim [where R = "\<lambda>p u. fst p = sz \<and> u = le_dec (snd p)"]) (auto simp: le_dec_enc_size)
qed

theorem pci_scripts_witness:
  "\<exists>k'. script
     (\<lambda>v. pci_write_x one_file_env (pci_argv (name (pci_write_info SIZE16)) None (''0'', ''0x1f'', ''3'', ''0x40'') [v])
        (pci_write_info SIZE16))
     (pci_read_x one_file_env (pci_argv (name (pci_read_info SIZE16)) None (''0'', ''0x1f'', ''3'', ''0x40'') [])
        (pci_read_info SIZE16))
     (\<lambda>_. 7, 0) [(Rd, 0, ''0x0707'' @ nl), (Wr ''0x12345'', 0, ''''), (Rd, 0, ''0x2345'' @ nl)] k'"
proof -
  have v: "unat (take_bit 16 (strtoul ''0x12345'' 0)) = 0x2345" by (simp add: strto_eval)
  have h: "hex 4 0x2345 = ''2345''" "hex 4 0x707 = ''0707''" by (simp_all add: print_eval)
  have m: "le_dec (register (one_file_view (pci_path None (''0'', ''0x1f'', ''3'', ''0x40'')) 2) (\<lambda>_. 7, 0)
      (pci_path None (''0'', ''0x1f'', ''3'', ''0x40'')) (pci_reg (''0'', ''0x1f'', ''3'', ''0x40''))) = (0x707 :: u64)"
    by (simp add: one_file_view_def upt_rec One_nat_def)
  show ?thesis
    using m v h
    by (subst pci_scripts [of one_file_env "one_file_view (pci_path None (''0'', ''0x1f'', ''3'', ''0x40'')) 2"])
      (auto simp: one_file_register_file)
qed

text \<open>
  C30: a device is opened through its sysfs file; only when that fails is the procfs file tried, and
  a message is printed exactly when both fail.  No other call is made.
\<close>
theorem pci_open_fallback:
  assumes "open_device E seg bus dev func mode w = (fd, w')"
  shows "(\<exists>r. trace w' = (Open (sysfs_name seg bus dev func) mode, r) # trace w \<and> 0 \<le> ret r \<and> fd = ret r \<and>
      stderr w' = stderr w) \<or>
    (\<exists>r1 r2. trace w' = (Open (procfs_name seg bus dev func) mode, r2) #
        (Open (sysfs_name seg bus dev func) mode, r1) # trace w \<and> ret r1 < 0 \<and> fd = ret r2 \<and>
      (0 \<le> fd \<longleftrightarrow> stderr w' = stderr w))"
proof -
  let ?w1 = "sys E (Open (sysfs_name seg bus dev func) mode) w"
  let ?w2 = "sys E (Open (procfs_name seg bus dev func) mode) ?w1"
  consider "0 \<le> rv ?w1" | "rv ?w1 < 0" "0 \<le> rv ?w2" | "rv ?w1 < 0" "rv ?w2 < 0" by linarith
  then show ?thesis
    using assms by cases (auto simp: open_device_def Let_def rv_def)
qed

theorem pci_open_fallback_witness:
  "\<exists>fd w'. open_device one_file_env 0 0 1 2 O_RDONLY (init_world (\<lambda>_. 0, 0)) = (fd, w') \<and>
     (\<exists>r. trace w' = [(Open (sysfs_name 0 0 1 2) O_RDONLY, r)] \<and> fd = ret r)"
proof -
  obtain fd w' where run: "open_device one_file_env 0 0 1 2 O_RDONLY (init_world (\<lambda>_. 0, 0)) = (fd, w')"
    and len: "length (trace w') = 1"
    by (simp add: open_device_def one_file_env_def rv_sys Let_def flag_defs)
  from pci_open_fallback [OF run] run len show ?thesis by auto
qed

text \<open>
  C39: a PCI access that opened its device and then fails (seek, transfer or an entry without a
  size) returns with the descriptor still open; a successful one closes it.
\<close>
theorem pci_leak:
  assumes "pci_read_x E (pci_argv cmd seg (b, d, f, r) []) info w = Some (rc, w') \<and> mode = O_RDONLY \<or>
      pci_write_x E (pci_argv cmd seg (b, d, f, r) [v]) info w = Some (rc, w') \<and> mode = O_WRONLY"
    and "open_device E (pci_segment seg) (word_of_int (strtol b 0)) (ucast (strtoul d 0)) (ucast (strtoul f 0))
      mode w = (fd, w1)" and "0 \<le> fd"
  shows "open_fds (trace w') = (if rc = 0 then open_fds (trace w) else fd # open_fds (trace w))"
  using assms pci_read_leak_fds pci_write_leak_fds by metis

theorem pci_leak_witness:
  "\<exists>w'. pci_read_x \<lparr>kernel = (\<lambda>c k. (\<lparr>ret = (case c of Open p m \<Rightarrow> 5 | _ \<Rightarrow> - 1), err = 22, buf = (\<lambda>_. 0),
        str = '''', ents = []\<rparr>, k)), strerror = (\<lambda>_. ''Invalid argument''), getpagesize = 4096\<rparr>
      (pci_argv ''pci_read8'' None (''0'', ''1'', ''2'', ''0x1000'') []) (pci_read_info SIZE8) (init_world ()) =
      Some (- 1, w') \<and> open_fds (trace w') = [5]"
  (is "\<exists>w'. pci_read_x ?E _ _ _ = _ \<and> _")
proof -
  let ?open = "open_device ?E (pci_segment None) (word_of_int (strtol ''0'' 0)) (ucast (strtoul ''1'' 0))
      (ucast (strtoul ''2'' 0)) O_RDONLY (init_world ())"
  obtain w1 where o: "?open = (5, w1)"
    by (simp add: open_device_def rv_sys Let_def)
  then obtain w' where run: "pci_read_x ?E (pci_argv ''pci_read8'' None (''0'', ''1'', ''2'', ''0x1000'') [])
      (pci_read_info SIZE8) (init_world ()) = Some (- 1, w')"
    by (simp add: pci_read_x_def segment_arg_def rv_sys Let_def)
  from pci_leak [OF disjI1 [OF conjI [OF run refl]] o] run show ?thesis by auto
qed

text \<open>
  C27: \<open>pci_list\<close> on a readable sysfs directory prints one line with bus, device and function for
  every device named in the directory (the names being those \<open>open_device\<close> builds), in the order
  of the directory, nothing for its other entries (names without a colon, among them
  \<^verbatim>\<open>.\<close> and \<^verbatim>\<open>..\<close>), and closes the directory stream.
\<close>
theorem pci_list_prints:
  assumes "0 \<le> rv (sys E (Opendir SYSFS_BASE_DIR) w)"
    and "map fst (ents (res (sys E (Opendir SYSFS_BASE_DIR) w))) = map entry_name es"
    and "\<forall>e \<in> set es. entry_ok e"
  shows "\<exists>w'. pci_list E w = Some (0, w') \<and> stdout w' = stdout w @ concat (map entry_text es) \<and>
    stderr w' = stderr w \<and> open_fds (trace w') = open_fds (trace w)"
  using assms list_sysfs_devices [OF assms(2,3), of "sys E (Opendir SYSFS_BASE_DIR) w"]
  by (simp add: pci_list_def pci_list_sysfs_def Let_def rv_def)

theorem pci_list_prints_witness:
  "\<exists>w'. pci_list \<lparr>kernel = (\<lambda>c k. (\<lparr>ret = 0, err = 0, buf = (\<lambda>_. 0), str = '''',
        ents = [(''.'', True), (''..'', True), (''0000:00:1f.3'', False), (''0001:02:00.0'', False)]\<rparr>, k)),
        strerror = (\<lambda>_. ''''), getpagesize = 4096\<rparr>
      (init_world ()) = Some (0, w') \<and>
    stdout w' = ''0 31 3'' @ nl @ ''2 0 0'' @ nl"
  (is "\<exists>w'. pci_list ?E _ = _ \<and> _")
proof -
  let ?es = "[Other_entry ''.'', Other_entry ''..'', Device_entry (0, 0, 31, 3), Device_entry (1, 2, 0, 0)]"
  have "map entry_name ?es = [''.'', ''..'', ''0000:00:1f.3'', ''0001:02:00.0'']"
    by (simp add: device_name_def print_eval)
  then have "map fst (ents (res (sys ?E (Opendir SYSFS_BASE_DIR) (init_world ())))) = map entry_name ?es"
    by (simp add: sys_kernel)
  moreover have "0 \<le> rv (sys ?E (Opendir SYSFS_BASE_DIR) (init_world ()))" by (simp add: rv_sys)
  moreover have "\<forall>e \<in> set ?es. entry_ok e" by (simp add: device_ok_def)
  moreover have "concat (map entry_text ?es) = ''0 31 3'' @ nl @ ''2 0 0'' @ nl"
    by (simp add: print_eval)
  ultimately show ?thesis
    using pci_list_prints [of ?E "init_world ()" ?es] by auto
qed

text \<open>
  C19: the conversions of \<^verbatim>\<open>platform.h\<close> make the PCI commands independent of the host: on hosts of
  either byte order the transfer of 1, 2 or 4 bytes behaves exactly as the little-endian one that the
  commands are modelled with.
\<close>
theorem pci_host_order:
  assumes "sz \<noteq> SIZE64"
  shows "pci_DO_READ_host bo E fd sz w = pci_DO_READ E fd (size_bytes sz) w \<and>
    pci_DO_WRITE_host bo E fd sz ldata w = pci_DO_WRITE E fd (size_bytes sz) ldata w"
  using pci_stored_le [OF assms] pci_loaded_le [OF assms]
  by (simp add: pci_DO_READ_host_def pci_DO_WRITE_host_def pci_DO_READ_def pci_DO_WRITE_def Let_def mult.commute)

theorem pci_host_order_witness:
  "pci_DO_WRITE_host Big one_file_env 3 SIZE16 0x1234 (init_world (\<lambda>_. 0, 0)) =
     pci_DO_WRITE_host Little one_file_env 3 SIZE16 0x1234 (init_world (\<lambda>_. 0, 0))"
  using pci_host_order [of SIZE16 Big one_file_env 3 "init_world (\<lambda>_. 0, 0)" "0x1234"]
    pci_host_order [of SIZE16 Little one_file_env 3 "init_world (\<lambda>_. 0, 0)" "0x1234"]
  by simp

end
