(* ===== verification/Io_rw.thy ===== *)
theory Io_rw
  imports Commands Device
begin

text \<open>
  The port commands, \<^verbatim>\<open>src/io_rw.c\<close>, in the x86 build: \<^verbatim>\<open>inb\<close>,
  \<^verbatim>\<open>inw\<close>, \<^verbatim>\<open>inl\<close> and their output counterparts of \<^verbatim>\<open>sys/io.h\<close> are
  the instructions \<open>Port_in\<close> and \<open>Port_out\<close>; their port argument is an
  \<^verbatim>\<open>unsigned short\<close>.  The commands run only after \<^verbatim>\<open>iopl(3)\<close>, which their
  prerequisites request.  For the other builds, the functions with the same names that go through
  \<^verbatim>\<open>/dev/port\<close> are modelled too.
\<close>

section \<open>Operations\<close>

definition io_DO_READ :: "'k env \<Rightarrow> u64 \<Rightarrow> nat \<Rightarrow> 'k world \<Rightarrow> 'k world" where
  "io_DO_READ E iobase n w =
     (let w = sys E (Port_in n (ucast iobase)) w
      in printf (''0x'' @ hex (2 * n) (unat (le_dec (rdbuf n w) :: u64)) @ nl) w)"

definition io_DO_WRITE :: "'k env \<Rightarrow> u64 \<Rightarrow> nat \<Rightarrow> u64 \<Rightarrow> 'k world \<Rightarrow> 'k world" where
  "io_DO_WRITE E iobase n ldata w = sys E (Port_out (ucast iobase) (le_enc n ldata)) w"

definition io_read_x :: "'k env \<Rightarrow> string list \<Rightarrow> cmd_info \<Rightarrow> 'k world \<Rightarrow> ('k, int) result" where
  "io_read_x E argv info w = do {
     a1 \<leftarrow> argp argv 1;
     let iobase = strtoul a1 0;
     (case get_command_size info of
        Some SIZE8 \<Rightarrow> Some (0, io_DO_READ E iobase 1 w)
      | Some SIZE16 \<Rightarrow> Some (0, io_DO_READ E iobase 2 w)
      | Some SIZE32 \<Rightarrow> Some (0, io_DO_READ E iobase 4 w)
      | _ \<Rightarrow> Some (- 1, eprintf (''invalid io_read entry'' @ nl) w))
   }"

definition io_write_x :: "'k env \<Rightarrow> string list \<Rightarrow> cmd_info \<Rightarrow> 'k world \<Rightarrow> ('k, int) result" where
  "io_write_x E argv info w = do {
     a1 \<leftarrow> argp argv 1;
     a2 \<leftarrow> argp argv 2;
     let iobase = strtoul a1 0;
     let ldata = strtoul a2 0;
     (case get_command_size info of
        Some SIZE8 \<Rightarrow> Some (0, io_DO_WRITE E iobase 1 ldata w)
      | Some SIZE16 \<Rightarrow> Some (0, io_DO_WRITE E iobase 2 ldata w)
      | Some SIZE32 \<Rightarrow> Some (0, io_DO_WRITE E iobase 4 ldata w)
      | _ \<Rightarrow> Some (- 1, eprintf (''invalid io_write entry'' @ nl) w))
   }"

section \<open>The /dev/port variant\<close>

definition dev_port :: string where
  "dev_port = ''/dev/port''"

text \<open>The status and the bytes that are in the caller's object afterwards: a short read fills a part of it.\<close>

definition io_in :: "'k env \<Rightarrow> int \<Rightarrow> u8 list \<Rightarrow> 'k world \<Rightarrow> (int \<times> u8 list) \<times> 'k world" where
  "io_in E iobase data w =
     (let w = sys E (Open dev_port O_RDONLY) w; fd = rv w in
      if fd < 0 then
        ((- 1, data), eprintf (''open(\"'' @ dev_port @ ''\"): '' @ perr E w @ nl) w)
      else
        (let w = sys E (Lseek fd iobase) w in
         if rv w = - 1 then
           ((- 1, data), sys E (Close fd) (eprintf (''lseek('' @ dec_int iobase @ ''): '' @ perr E w @ nl) w))
         else
           (let w = sys E (Read fd (length data)) w;
                n = min (length data) (nat (rv w))
            in ((rv w, rdbuf n w @ drop n data), w))))"

definition inb :: "'k env \<Rightarrow> int \<Rightarrow> 'k world \<Rightarrow> u8 \<times> 'k world" where
  "inb E iobase w = (case io_in E iobase (le_enc 1 (0xff :: u8)) w of ((rc, bs), w) \<Rightarrow> (le_dec bs, w))"

definition inw :: "'k env \<Rightarrow> int \<Rightarrow> 'k world \<Rightarrow> u16 \<times> 'k world" where
  "inw E iobase w = (case io_in E iobase (le_enc 2 (0xffff :: u16)) w of ((rc, bs), w) \<Rightarrow> (le_dec bs, w))"

definition inl :: "'k env \<Rightarrow> int \<Rightarrow> 'k world \<Rightarrow> u32 \<times> 'k world" where
  "inl E iobase w = (case io_in E iobase (le_enc 4 (0xffff :: u32)) w of ((rc, bs), w) \<Rightarrow> (le_dec bs, w))"

definition io_out :: "'k env \<Rightarrow> int \<Rightarrow> u8 list \<Rightarrow> 'k world \<Rightarrow> int \<times> 'k world" where
  "io_out E iobase data w =
     (let w = sys E (Open dev_port O_WRONLY) w; fd = rv w in
      if fd < 0 then
        (- 1, eprintf (''open(\"'' @ dev_port @ ''\"): '' @ perr E w @ nl) w)
      else
        (let w = sys E (Lseek fd iobase) w in
         if rv w = - 1 then
           (- 1, sys E (Close fd) (eprintf (''lseek('' @ dec_int iobase @ ''): '' @ perr E w @ nl) w))
         else (let w = sys E (Write fd data) w in (rv w, w))))"

definition outb :: "'k env \<Rightarrow> u8 \<Rightarrow> int \<Rightarrow> 'k world \<Rightarrow> 'k world" where
  "outb E val iobase w = snd (io_out E iobase (le_enc 1 val) w)"

definition outw :: "'k env \<Rightarrow> u16 \<Rightarrow> int \<Rightarrow> 'k world \<Rightarrow> 'k world" where
  "outw E val iobase w = snd (io_out E iobase (le_enc 2 val) w)"

definition outl :: "'k env \<Rightarrow> u32 \<Rightarrow> int \<Rightarrow> 'k world \<Rightarrow> 'k world" where
  "outl E val iobase w = snd (io_out E iobase (le_enc 4 val) w)"

section \<open>Command table\<close>

definition io_rd_params :: prereq_params where
  "io_rd_params = FIXED_ARGS 2 ''<io_addr>'' 3"
definition io_wr_params :: prereq_params where
  "io_wr_params = FIXED_ARGS 3 ''<io_addr> <data>'' 3"

definition MAKE_IO_RW_CMD_PAIR :: "IO_SIZE \<Rightarrow> cmd_info list" where
  "MAKE_IO_RW_CMD_PAIR sz =
    [MAKE_CMD_WITH_PARAMS_SIZE (''io_read'' @ size_suffix sz) E_io_read_x NULL io_rd_params sz,
     MAKE_CMD_WITH_PARAMS_SIZE (''io_write'' @ size_suffix sz) E_io_write_x NULL io_wr_params sz]"

definition io_cmds :: "cmd_info list" where
  "io_cmds = MAKE_IO_RW_CMD_PAIR SIZE8 @ MAKE_IO_RW_CMD_PAIR SIZE16 @ MAKE_IO_RW_CMD_PAIR SIZE32"

definition IO_group :: cmd_group where
  "IO_group = \<lparr>group_name = ''IO'',
     description = Some ''commands to access registers in the IO address space'', commands = io_cmds\<rparr>"

lemmas io_params_defs = io_rd_params_def io_wr_params_def

section \<open>Latching ports\<close>

text \<open>
  A port that latches: what was written to it with an access of \<open>n\<close> bytes is what such an access
  reads.  \<open>port_reg\<close> views the latch in a machine state.
\<close>

definition port_latch :: "'k env \<Rightarrow> ('k \<Rightarrow> u16 \<Rightarrow> u8 list) \<Rightarrow> u16 \<Rightarrow> nat \<Rightarrow> bool" where
  "port_latch E port_reg port n \<longleftrightarrow>
    (\<forall>k bs r k'. kernel E (Port_out port bs) k = (r, k') \<longrightarrow> length bs = n \<longrightarrow> port_reg k' port = bs) \<and>
    (\<forall>k r k'. kernel E (Port_in n port) k = (r, k') \<longrightarrow>
       map (buf r) [0..<n] = port_reg k port \<and> port_reg k' port = port_reg k port)"

lemma port_latch_out:
  assumes "port_latch E P port n" and "length bs = n"
  shows "P (kstate (sys E (Port_out port bs) w)) port = bs"
  using assms unfolding port_latch_def by (metis sys_kernel(1) prod.collapse)

lemma port_latch_in:
  assumes "port_latch E P port n"
  shows "rdbuf n (sys E (Port_in n port) w) = P (kstate w) port"
    and "P (kstate (sys E (Port_in n port) w)) port = P (kstate w) port"
  using assms unfolding port_latch_def by (metis rdbuf_def sys_kernel prod.collapse)+

definition io_read_info :: "IO_SIZE \<Rightarrow> cmd_info" where
  "io_read_info sz = MAKE_IO_RW_CMD_PAIR sz ! 0"

definition io_write_info :: "IO_SIZE \<Rightarrow> cmd_info" where
  "io_write_info sz = MAKE_IO_RW_CMD_PAIR sz ! 1"

lemma io_info_size:
  "get_command_size (io_read_info sz) = Some sz" "get_command_size (io_write_info sz) = Some sz"
  by (simp_all add: io_read_info_def io_write_info_def MAKE_IO_RW_CMD_PAIR_def make_cmd_defs get_command_size_def)

lemma io_write_run:
  assumes "port_latch E P (ucast (strtoul a 0)) (size_bytes sz)" and "sz \<noteq> SIZE64"
  shows "\<exists>w'. io_write_x E [cmd, a, v] (io_write_info sz) w = Some (0, w') \<and>
    P (kstate w') (ucast (strtoul a 0)) = le_enc (size_bytes sz) (strtoul v 0) \<and>
    stdout w' = stdout w \<and> stderr w' = stderr w"
  using port_latch_out [OF assms(1), of "le_enc (size_bytes sz) (strtoul v 0)" w] assms(2)
  by (cases sz) (simp_all add: io_write_x_def io_info_size io_DO_WRITE_def)

lemma io_read_run:
  assumes "port_latch E P (ucast (strtoul a 0)) (size_bytes sz)" and "sz \<noteq> SIZE64"
  shows "\<exists>w'. io_read_x E [cmd, a] (io_read_info sz) w = Some (0, w') \<and>
    P (kstate w') (ucast (strtoul a 0)) = P (kstate w) (ucast (strtoul a 0)) \<and>
    stdout w' = stdout w @ ''0x'' @ hex (2 * size_bytes sz) (unat (le_dec (P (kstate w) (ucast (strtoul a 0))) :: u64)) @ nl \<and>
    stderr w' = stderr w"
  using port_latch_in [OF assms(1), of w] assms(2)
  by (cases sz) (simp_all add: io_read_x_def io_info_size io_DO_READ_def Let_def)

type_synonym 'k io_conf = "'k env \<times> ('k \<Rightarrow> u16 \<Rightarrow> u8 list) \<times> IO_SIZE \<times> string \<times> string"

definition io_ok :: "'k io_conf \<Rightarrow> bool" where
  "io_ok c = (case c of (E, P, sz, a, v) \<Rightarrow>
     port_latch E P (ucast (strtoul a 0)) (size_bytes sz) \<and> sz \<noteq> SIZE64)"

interpretation io: register_commands
  io_ok
  "\<lambda>(E, P, sz, a, v). io_write_x E [name (io_write_info sz), a, v] (io_write_info sz)"
  "\<lambda>(E, P, sz, a, v). io_read_x E [name (io_read_info sz), a] (io_read_info sz)"
  "\<lambda>(E, P, sz, a, v) k. (sz, P k (ucast (strtoul a 0)))"
  "\<lambda>(E, P, sz, a, v). (sz, le_enc (size_bytes sz) (strtoul v 0))"
  "\<lambda>(sz, bs). ''0x'' @ hex (2 * size_bytes sz) (unat (le_dec bs :: u64)) @ nl"
proof (unfold_locales, goal_cases)
  case (1 c w)
  obtain E P sz a v where c: "c = (E, P, sz, a, v)" by (cases c)
  show ?case using 1 io_write_run [of E P a sz _ v w] by (simp add: io_ok_def c)
next
  case (2 c w)
  obtain E P sz a v where c: "c = (E, P, sz, a, v)" by (cases c)
  show ?case using 2 io_read_run [of E P a sz _ w] by (simp add: io_ok_def c)
qed

section \<open>An environment with latching ports\<close>

fun port_kernel :: "extcall \<Rightarrow> (u16 \<Rightarrow> u8 list) \<Rightarrow> sysret \<times> (u16 \<Rightarrow> u8 list)" where
  "port_kernel (Port_out p bs) m = (\<lparr>ret = 0, err = 0, buf = (\<lambda>_. 0), str = '''', ents = []\<rparr>, m(p := bs))"
| "port_kernel (Port_in n p) m =
     (\<lparr>ret = 0, err = 0, buf = (\<lambda>i. take n (m p @ replicate n 0) ! i), str = '''', ents = []\<rparr>, m)"
| "port_kernel _ m = (\<lparr>ret = 0, err = 0, buf = (\<lambda>_. 0), str = '''', ents = []\<rparr>, m)"

definition port_env :: "(u16 \<Rightarrow> u8 list) env" where
  "port_env = \<lparr>kernel = port_kernel, strerror = (\<lambda>_. ''error''), getpagesize = 4096\<rparr>"

lemma port_env_latch: "port_latch port_env (\<lambda>m p. take n (m p @ replicate n 0)) port n"
  by (auto simp: port_latch_def port_env_def intro!: nth_equalityI)

lemma io_fds:
  "io_read_x E argv info w = Some (rc, w') \<Longrightarrow> fds_kept w w'"
  "io_write_x E argv info w = Some (rc, w') \<Longrightarrow> fds_kept w w'"
  by (auto simp: io_read_x_def io_write_x_def io_DO_READ_def io_DO_WRITE_def Let_def
      split: bind_splits option.splits IO_SIZE.splits)

section \<open>Properties\<close>

text \<open>
  C33: on a port that latches, the value written by \<open>io_write8\<close>, 16 or 32, reduced to the width, is
  what the read command of that width prints; the port is the address argument reduced to 16 bits.
\<close>
theorem io_read_back:
  assumes "port_latch E P (ucast (strtoul a 0)) (size_bytes sz)" and "sz \<noteq> SIZE64"
  shows "\<exists>w1 w2. io_write_x E [name (io_write_info sz), a, v] (io_write_info sz) w = Some (0, w1) \<and>
    io_read_x E [name (io_read_info sz), a] (io_read_info sz) (init_world (kstate w1)) = Some (0, w2) \<and>
    stdout w2 = ''0x'' @ hex (2 * size_bytes sz) (unat (take_bit (8 * size_bytes sz) (strtoul v 0))) @ nl \<and>
    stderr w2 = ''''"
proof -
  have "io_ok (E, P, sz, a, v)" using assms by (simp add: io_ok_def)
  then show ?thesis
    using io.read_back [of "(E, P, sz, a, v)" w] by (simp add: le_dec_enc_size)
qed

theorem io_read_back_witness:
  "\<exists>w1 w2. io_write_x port_env [name (io_write_info SIZE8), ''0x80'', ''0x1ff''] (io_write_info SIZE8)
      (init_world (\<lambda>_. [])) = Some (0, w1) \<and>
    io_read_x port_env [name (io_read_info SIZE8), ''0x80''] (io_read_info SIZE8) (init_world (kstate w1)) =
      Some (0, w2) \<and> stdout w2 = ''0xff'' @ nl"
proof -
  have v: "unat (take_bit 8 (strtoul ''0x1ff'' 0)) = 0xff" by (simp add: strto_eval)
  have h: "hex 2 0xff = ''ff''" by (simp add: print_eval)
  have latch: "port_latch port_env (\<lambda>m p. take 1 (m p @ replicate 1 0)) (ucast (strtoul ''0x80'' 0)) (size_bytes SIZE8)"
    using port_env_latch [of 1] by simp
  from io_read_back [OF latch, of "''0x1ff''" "init_world (\<lambda>_. [])"] v h show ?thesis by auto
qed

text \<open>
  The /dev/port variant never closes the descriptor once the seek succeeded, and its 32-bit
  input returns \<open>0x0000ffff\<close>, not all ones, when the device cannot be opened.
\<close>
theorem dev_port_defects:
  "(0 \<le> rv (sys E (Open dev_port O_RDONLY) w) \<and>
    rv (sys E (Lseek (rv (sys E (Open dev_port O_RDONLY) w)) iobase) (sys E (Open dev_port O_RDONLY) w)) \<noteq> - 1 \<longrightarrow>
    open_fds (trace (snd (io_in E iobase data w))) = rv (sys E (Open dev_port O_RDONLY) w) # open_fds (trace w)) \<and>
   (rv (sys E (Open dev_port O_RDONLY) w) < 0 \<longrightarrow> fst (inl E iobase w) = 0xffff \<and> fst (inw E iobase w) = 0xffff \<and>
    fst (inb E iobase w) = 0xff)"
  by (auto simp: io_in_def inl_def inw_def inb_def Let_def rv_def u32_image.dec_enc u16_image.dec_enc u8_image.dec_enc)

theorem dev_port_defects_witness:
  "fst (inl \<lparr>kernel = (\<lambda>c k. (\<lparr>ret = - 1, err = 13, buf = (\<lambda>_. 0), str = '''', ents = []\<rparr>, k)),
     strerror = (\<lambda>_. ''Permission denied''), getpagesize = 4096\<rparr> 0x80 (init_world ())) = 0xffff"
  using dev_port_defects [of "\<lparr>kernel = (\<lambda>c k. (\<lparr>ret = - 1, err = 13, buf = (\<lambda>_. 0), str = '''', ents = []\<rparr>, k)),
     strerror = (\<lambda>_. ''Permission denied''), getpagesize = 4096\<rparr>" "init_world ()" "0x80"] by (simp add: rv_sys)

end
