(* ===== verification/Misc.thy ===== *)
theory Misc
  imports Commands
begin

text \<open>
  The miscellaneous commands, \<^verbatim>\<open>src/misc.c\<close> (x86 build with glibc): a busy loop that counts
  iterations per second, the time stamp counter, \<^verbatim>\<open>cpuid\<close> on a given processor, the list of
  processors, and running a program on a given processor.  A successful \<^verbatim>\<open>execvp\<close> does not
  return: an answer of at least 0 to \<open>Execvp\<close> ends the run of this program, and nothing it would do
  afterwards is modelled.
\<close>

section \<open>Processor affinity\<close>

text \<open>glibc's \<^verbatim>\<open>CPU_SET\<close> ignores a processor number outside the 1024 bits of the set.\<close>

definition CPU_SETSIZE :: int where
  "CPU_SETSIZE = 1024"

definition cpu_set_of :: "int \<Rightarrow> nat list" where
  "cpu_set_of cpu = (if 0 \<le> cpu \<and> cpu < CPU_SETSIZE then [nat cpu] else [])"

definition perror :: "'k env \<Rightarrow> string \<Rightarrow> 'k world \<Rightarrow> 'k world" where
  "perror E s w = eprintf (s @ '': '' @ perr E w @ nl) w"

definition set_cpu_affinity :: "'k env \<Rightarrow> int \<Rightarrow> 'k world \<Rightarrow> int \<times> 'k world" where
  "set_cpu_affinity E cpu w =
     (let w = sys E (Sched_setaffinity (cpu_set_of cpu)) w in
      if rv w < 0 then (- 1, perror E ''sched_setaffinity()'' w) else (0, w))"

section \<open>The busy loop\<close>

text \<open>
  \<^verbatim>\<open>struct timeval\<close>: two signed 64-bit fields.  The microseconds elapsed are computed in
  \<^verbatim>\<open>unsigned int\<close>.
\<close>

type_synonym timeval = "int \<times> int"

definition gettimeofday :: "'k env \<Rightarrow> 'k world \<Rightarrow> timeval \<times> 'k world" where
  "gettimeofday E w =
     (let w = sys E Gettimeofday w
      in ((sint (le_dec (take 8 (rdbuf 16 w)) :: u64), sint (le_dec (drop 8 (rdbuf 16 w)) :: u64)), w))"

definition elapsed :: "timeval \<Rightarrow> timeval \<Rightarrow> u32" where
  "elapsed t0 t1 = word_of_int ((fst t1 - fst t0) * 1000000) + word_of_int (snd t1 - snd t0)"

record busy_state =
  count :: u64
  printed :: int
  t0 :: timeval

text \<open>The body of the loop, and the loop for a number of iterations: \<open>None\<close> when it is still running.\<close>

definition busy_iteration :: "'k env \<Rightarrow> int \<Rightarrow> busy_state \<Rightarrow> 'k world \<Rightarrow> busy_state \<times> 'k world" where
  "busy_iteration E reps s w =
     (let s = s\<lparr>count := count s + 1\<rparr> in
      if count s mod 16384 = 0 then
        (let (t1, w) = gettimeofday E w in
         if elapsed (t0 s) t1 \<ge> 1000000 then
           (let w = printf (dec_nat (unat (count s)) @ nl) w;
                (t, w) = gettimeofday E w;
                s = s\<lparr>t0 := t, count := 0\<rparr>
            in (if reps \<noteq> - 1 then s\<lparr>printed := printed s + 1\<rparr> else s, w))
         else (s, w))
      else (s, w))"

fun busy_while :: "'k env \<Rightarrow> int \<Rightarrow> nat \<Rightarrow> busy_state \<Rightarrow> 'k world \<Rightarrow> (int \<times> 'k world) option" where
  "busy_while E reps fuel s w =
     (if printed s = reps then Some (0, w)
      else (case fuel of
              0 \<Rightarrow> None
            | Suc fuel \<Rightarrow> (case busy_iteration E reps s w of (s, w) \<Rightarrow> busy_while E reps fuel s w)))"

declare busy_while.simps [simp del]

definition busy_loop :: "nat \<Rightarrow> 'k env \<Rightarrow> string list \<Rightarrow> 'k world \<Rightarrow> ('k, int) result" where
  "busy_loop fuel E argv w = do {
     reps \<leftarrow> (if length argv = 2 then do { a1 \<leftarrow> argp argv 1; Some (atoi a1) } else Some (- 1));
     let (t, w) = gettimeofday E w;
     busy_while E reps fuel \<lparr>count = 0, printed = 0, t0 = t\<rparr> w
   }"

section \<open>The other commands\<close>

definition rdtsc :: "'k env \<Rightarrow> 'k world \<Rightarrow> ('k, int) result" where
  "rdtsc E w =
     (let w = sys E Rdtsc w;
          a = (le_dec (take 4 (rdbuf 8 w)) :: u32);
          d = (le_dec (drop 4 (rdbuf 8 w)) :: u32);
          tsc = (ucast a OR push_bit 32 (ucast d) :: u64)
      in Some (0, printf (''0x'' @ hex 16 (unat tsc) @ nl) w))"

text \<open>The function and index pass through \<^verbatim>\<open>int\<close> parameters: their low 32 bits are used.\<close>

definition cpuid_inline :: "'k env \<Rightarrow> int \<Rightarrow> u32 \<Rightarrow> u32 \<Rightarrow> 'k world \<Rightarrow> (int \<times> u32 list) \<times> 'k world" where
  "cpuid_inline E cpu function' index w =
     (case set_cpu_affinity E cpu w of (rc, w) \<Rightarrow>
        if rc < 0 then ((- 1, []), w)
        else (let w = sys E (Cpuid function' index) w
              in ((0, map (\<lambda>i. le_dec (take 4 (drop (4 * i) (rdbuf 16 w)))) [0..<4]), w)))"

definition cpuid :: "'k env \<Rightarrow> string list \<Rightarrow> 'k world \<Rightarrow> ('k, int) result" where
  "cpuid E argv w = do {
     a1 \<leftarrow> argp argv 1;
     a2 \<leftarrow> argp argv 2;
     let cpu = int_of_long (strtol a1 0);
     let function' = strtoul a2 0;
     index \<leftarrow> (if length argv = 4 then do { a3 \<leftarrow> argp argv 3; Some (strtoul a3 0) } else Some 0);
     (case cpuid_inline E cpu (ucast function') (ucast index) w of ((rc, data), w) \<Rightarrow>
        if rc < 0 then Some (- 1, eprintf (''Could not obtain cpuid result.'' @ nl) w)
        else Some (0, printf (''0x'' @ hex 8 (unat (data ! 0)) @ '' 0x'' @ hex 8 (unat (data ! 1)) @
               '' 0x'' @ hex 8 (unat (data ! 2)) @ '' 0x'' @ hex 8 (unat (data ! 3)) @ nl) w))
   }"

fun list_cpus :: "nat \<Rightarrow> nat \<Rightarrow> 'k world \<Rightarrow> 'k world" where
  "list_cpus i 0 w = w"
| "list_cpus i (Suc n) w = list_cpus (i + 1) n (printf (dec_nat i @ nl) w)"

definition cpu_list :: "'k env \<Rightarrow> 'k world \<Rightarrow> ('k, int) result" where
  "cpu_list E w =
     (let w = sys E Sysconf_nprocessors w; ncpus = int_of_long (rv w)
      in Some (0, list_cpus 0 (nat ncpus) w))"

definition runon :: "'k env \<Rightarrow> string list \<Rightarrow> 'k world \<Rightarrow> ('k, int) result" where
  "runon E argv w = do {
     let argv = tl argv;
     a0 \<leftarrow> argp argv 0;
     let cpu = strtoul a0 0;
     let argv = tl argv;
     (case set_cpu_affinity E (int_of_ulong cpu) w of (rc, w) \<Rightarrow>
        if rc < 0 then Some (- 1, w)
        else do {
          prog \<leftarrow> argp argv 0;
          let w = sys E (Execvp prog argv) w;
          if 0 \<le> rv w then Some (0, w) else Some (- 1, perror E ''exec'' w)
        })
   }"

section \<open>Command table\<close>

definition cpuid_params :: prereq_params where
  "cpuid_params = VAR_ARGS 3 4 ''<cpu> <function> [index]'' 0"
definition runon_params :: prereq_params where
  "runon_params = VAR_ARGS 3 INT_MAX ''<cpu> <cmd> [args]'' 0"

definition misc_cmds :: "cmd_info list" where
  "misc_cmds =
    [MAKE_CMD ''rdtsc'' E_rdtsc NULL,
     MAKE_CMD_WITH_PARAMS ''cpuid'' E_cpuid NULL cpuid_params,
     MAKE_CMD ''busy_loop'' E_busy_loop NULL,
     MAKE_CMD ''cpu_list'' E_cpu_list NULL,
     MAKE_CMD_WITH_PARAMS ''runon'' E_runon NULL runon_params]"

definition MISC_group :: cmd_group where
  "MISC_group = \<lparr>group_name = ''MISC'', description = None, commands = misc_cmds\<rparr>"

lemmas misc_params_defs = cpuid_params_def runon_params_def

section \<open>The busy loop and the clock\<close>

lemma gettimeofday_frame [simp]:
  "stdout (snd (gettimeofday E w)) = stdout w" "stderr (snd (gettimeofday E w)) = stderr w"
  by (simp_all add: gettimeofday_def Let_def)

lemma busy_iteration_endless: "printed (fst (busy_iteration E (- 1) s w)) = printed s"
  by (simp add: busy_iteration_def Let_def split: prod.splits)

lemma busy_while_endless: "printed s = 0 \<Longrightarrow> busy_while E (- 1) fuel s w = None"
proof (induction fuel arbitrary: s w)
  case 0
  then show ?case by (simp add: busy_while.simps)
next
  case (Suc fuel)
  show ?case
    using Suc.IH Suc.prems busy_iteration_endless [of E s w]
    by (subst busy_while.simps, cases "busy_iteration E (- 1) s w") simp
qed

text \<open>
  The clock as the loop relies on it: \<open>T\<close> views the microseconds in a machine state; a reading
  splits them into seconds and microseconds, and the clock moves on between two readings, by less
  than 36 minutes; the bound keeps the seconds within their 64 bits.
\<close>

definition timeval_at :: "nat \<Rightarrow> timeval" where
  "timeval_at n = (int (n div 1000000), int (n mod 1000000))"

definition clock :: "'k env \<Rightarrow> ('k \<Rightarrow> nat) \<Rightarrow> bool" where
  "clock E T \<longleftrightarrow> (\<forall>w. T (kstate w) < 2 ^ 80 \<longrightarrow> fst (gettimeofday E w) = timeval_at (T (kstate (snd (gettimeofday E w)))) \<and>
     T (kstate w) < T (kstate (snd (gettimeofday E w))) \<and>
     T (kstate (snd (gettimeofday E w))) \<le> T (kstate w) + 2 ^ 31)"

lemma elapsed_timeval_at:
  assumes "a \<le> b" and "b - a < 2 ^ 32"
  shows "elapsed (timeval_at a) (timeval_at b) \<ge> 1000000 \<longleftrightarrow> b - a \<ge> 1000000"
proof -
  have "int b - int a = (int (b div 1000000) - int (a div 1000000)) * 1000000 +
      (int (b mod 1000000) - int (a mod 1000000))"
    by (simp add: algebra_simps zdiv_int zmod_int)
  then have "elapsed (timeval_at a) (timeval_at b) = word_of_int (int b - int a)"
    by (simp add: elapsed_def timeval_at_def)
  also have "\<dots> = of_nat (b - a)"
    using assms(1) by (metis of_int_of_nat_eq of_nat_diff)
  finally show ?thesis
    using assms(2) by (simp add: word_le_nat_alt unat_of_nat)
qed

lemma mod_16384: "(x :: u64) mod 16384 = 0 \<longleftrightarrow> unat x mod 16384 = 0"
  by (simp add: word_unat_eq_iff unat_mod)

lemma unat_add_mod_16384: "unat ((x :: u64) + of_nat d) mod 16384 = (unat x + d) mod 16384"
proof -
  have "unat (x + of_nat d) = (unat x + d) mod 2 ^ 64"
    by (simp add: unat_word_ariths unat_of_nat mod_simps)
  then show ?thesis by (simp add: mod_mod_cancel)
qed

text \<open>The iterations between two readings of the clock only count.\<close>

lemma busy_while_count:
  "printed s \<noteq> reps \<Longrightarrow> unat (count s) mod 16384 + d \<le> 16383 \<Longrightarrow>
     busy_while E reps (fuel + d) s w = busy_while E reps fuel (s\<lparr>count := count s + of_nat d\<rparr>) w"
proof (induction d arbitrary: s)
  case 0
  then show ?case by simp
next
  case (Suc d)
  let ?s = "s\<lparr>count := count s + 1\<rparr>"
  have "unat (count s + of_nat 1) mod 16384 = (unat (count s) + 1) mod 16384"
    by (rule unat_add_mod_16384)
  also have "\<dots> = unat (count s) mod 16384 + 1"
    using Suc.prems(2) by (simp add: mod_Suc flip: Suc_eq_plus1)
  finally have m: "unat (count ?s) mod 16384 = unat (count s) mod 16384 + 1" by simp
  have "busy_while E reps (fuel + Suc d) s w = busy_while E reps (fuel + d) ?s w"
    using Suc.prems(1) m by (subst busy_while.simps) (simp add: busy_iteration_def mod_16384 Let_def)
  also have "\<dots> = busy_while E reps fuel (?s\<lparr>count := count ?s + of_nat d\<rparr>) w"
    using Suc.prems m by (intro Suc.IH) simp_all
  finally show ?case by (simp add: algebra_simps)
qed


text \<open>An iteration that reads the clock, in terms of the time.\<close>

lemma busy_check:
  assumes "clock E T" and "t0 s = timeval_at a" and "a \<le> T (kstate w)" and "T (kstate w) < a + 1000000"
    and "unat (count s) mod 16384 = 16383" and "reps \<noteq> - 1" and "T (kstate w) + 2 ^ 31 < 2 ^ 80"
  obtains (wait) w' where "busy_iteration E reps s w = (s\<lparr>count := count s + 1\<rparr>, w')"
      "T (kstate w) < T (kstate w')" "T (kstate w') < a + 1000000" "stdout w' = stdout w"
    | (print) b w' where "busy_iteration E reps s w =
        (s\<lparr>count := 0, printed := printed s + 1, t0 := timeval_at b\<rparr>, w')"
      "b = T (kstate w')" "b \<le> T (kstate w) + 2 ^ 32" "stdout w' = stdout w @ dec_nat (unat (count s + 1)) @ nl"
proof -
  let ?t1 = "fst (gettimeofday E w)" and ?w1 = "snd (gettimeofday E w)"
  let ?b = "T (kstate ?w1)"
  let ?w2 = "printf (dec_nat (unat (count s + 1)) @ nl) ?w1"
  have c: "fst (gettimeofday E v) = timeval_at (T (kstate (snd (gettimeofday E v)))) \<and>
      T (kstate v) < T (kstate (snd (gettimeofday E v))) \<and>
      T (kstate (snd (gettimeofday E v))) \<le> T (kstate v) + 2 ^ 31" if "T (kstate v) < 2 ^ 80" for v
    using assms(1) that unfolding clock_def by blast
  have w: "T (kstate w) < 2 ^ 80" using assms(7) by linarith
  note c1 = c [OF w, THEN conjunct1] and c2 = c [OF w, THEN conjunct2, THEN conjunct1]
    and c3 = c [OF w, THEN conjunct2, THEN conjunct2]
  have "T (kstate ?w2) < 2 ^ 80" using c3 assms(7) by simp
  note c4 = c [OF this]
  have "unat (count s + of_nat 1) mod 16384 = (unat (count s) + 1) mod 16384"
    by (rule unat_add_mod_16384)
  then have m: "(count s + 1) mod 16384 = 0"
    using assms(5) by (simp add: mod_16384 mod_Suc flip: Suc_eq_plus1)
  have e: "elapsed (t0 s) ?t1 \<ge> 1000000 \<longleftrightarrow> ?b - a \<ge> 1000000"
    unfolding assms(2) c1 using c2 c3 assms(3,4) by (intro elapsed_timeval_at) auto
  have it: "busy_iteration E reps s w =
      (if ?b - a \<ge> 1000000
       then (s\<lparr>count := 0, printed := printed s + 1, t0 := fst (gettimeofday E ?w2)\<rparr>, snd (gettimeofday E ?w2))
       else (s\<lparr>count := count s + 1\<rparr>, ?w1))"
    using m e assms(6) by (simp add: busy_iteration_def Let_def case_prod_beta)
  show ?thesis
  proof (cases "?b - a \<ge> 1000000")
    case True
    then show ?thesis
      using it c3 c4 by (intro print [of "T (kstate (snd (gettimeofday E ?w2)))" "snd (gettimeofday E ?w2)"]) simp_all
  next
    case False
    then show ?thesis
      using it c2 assms(3) by (intro wait [of ?w1]) auto
  qed
qed


text \<open>The iterations up to the one that looks at the clock only count.\<close>

lemma busy_while_to_check:
  assumes "printed s \<noteq> reps"
  obtains d s1 where "\<And>fuel. busy_while E reps (fuel + 1 + d) s w =
      (case busy_iteration E reps s1 w of (s2, w2) \<Rightarrow> busy_while E reps fuel s2 w2)"
    and "unat (count s1) mod 16384 = 16383" and "t0 s1 = t0 s" and "printed s1 = printed s"
proof -
  define d where "d = 16383 - unat (count s) mod 16384"
  define s1 where "s1 = s\<lparr>count := count s + of_nat d\<rparr>"
  have d: "unat (count s) mod 16384 + d = 16383"
    using mod_less_divisor [of 16384 "unat (count s)"] by (simp add: d_def)
  have step: "busy_while E reps (fuel + 1 + d) s w =
      (case busy_iteration E reps s1 w of (s2, w2) \<Rightarrow> busy_while E reps fuel s2 w2)" for fuel
  proof -
    have "busy_while E reps (fuel + 1 + d) s w = busy_while E reps (fuel + 1) s1 w"
      unfolding s1_def using assms d by (intro busy_while_count) simp_all
    also have "\<dots> = (case busy_iteration E reps s1 w of (s2, w2) \<Rightarrow> busy_while E reps fuel s2 w2)"
      using assms by (subst busy_while.simps) (simp add: s1_def flip: Suc_eq_plus1)
    finally show ?thesis .
  qed
  have "unat (count s1) mod 16384 = (unat (count s) + d) mod 16384"
    unfolding s1_def by (simp add: unat_add_mod_16384)
  also have "\<dots> = 16383" using d by (metis mod_add_left_eq mod_less numeral_less_iff semiring_norm(75,76,78,80,81))
  finally have "unat (count s1) mod 16384 = 16383" .
  with step show ?thesis by (rule that) (simp_all add: s1_def)
qed

text \<open>
  The loop returns: the measure counts the lines still to print and, within a line, the microseconds
  still to pass.
\<close>

lemma busy_while_returns:
  assumes "clock E T" and "reps \<noteq> - 1"
  shows "t0 s = timeval_at a \<Longrightarrow> a \<le> T (kstate w) \<Longrightarrow> T (kstate w) < a + 1000000 \<Longrightarrow> printed s \<le> reps \<Longrightarrow>
    a + 1000000 + nat (reps - printed s) * 2 ^ 33 \<le> 2 ^ 80 \<Longrightarrow>
    \<exists>fuel w' ns. busy_while E reps fuel s w = Some (0, w') \<and> length ns = nat (reps - printed s) \<and>
      stdout w' = stdout w @ concat (map (\<lambda>n. dec_nat n @ nl) ns)"
proof (induction "nat (reps - printed s) * 2000000 + (a + 1000000 - T (kstate w))"
    arbitrary: s a w rule: less_induct)
  case less
  show ?case
  proof (cases "printed s = reps")
    case True
    then have "busy_while E reps 0 s w = Some (0, w)" by (simp add: busy_while.simps)
    with True show ?thesis by (intro exI [of _ 0] exI [of _ w] exI [of _ "[]"]) simp
  next
    case False
    obtain d s1 where step: "\<And>fuel. busy_while E reps (fuel + 1 + d) s w =
        (case busy_iteration E reps s1 w of (s2, w2) \<Rightarrow> busy_while E reps fuel s2 w2)"
      and c: "unat (count s1) mod 16384 = 16383" and s1: "t0 s1 = t0 s" "printed s1 = printed s"
      using busy_while_to_check [OF False] by blast
    have t: "t0 s1 = timeval_at a" "printed s1 = printed s" using less.prems(1) s1 by simp_all
    have lines: "nat (reps - printed s) = nat (reps - (printed s + 1)) + 1" using False less.prems(4) by simp
    then have bound: "T (kstate w) + 2 ^ 31 < 2 ^ 80" using less.prems(3,5) by simp
    from assms(1) t(1) less.prems(2,3) c assms(2) bound show ?thesis
    proof (cases rule: busy_check)
      case (wait w2)
      let ?s2 = "s1\<lparr>count := count s1 + 1\<rparr>"
      have "\<exists>fuel w' ns. busy_while E reps fuel ?s2 w2 = Some (0, w') \<and> length ns = nat (reps - printed ?s2) \<and>
          stdout w' = stdout w2 @ concat (map (\<lambda>n. dec_nat n @ nl) ns)"
        using wait less.prems t by (intro less.hyps [of ?s2 a w2]) auto
      then obtain fuel w' ns where "busy_while E reps fuel ?s2 w2 = Some (0, w')"
        "length ns = nat (reps - printed s)" "stdout w' = stdout w2 @ concat (map (\<lambda>n. dec_nat n @ nl) ns)"
        using t by auto
      then show ?thesis
        using step [of fuel] wait
        by (intro exI [of _ "fuel + 1 + d"] exI [of _ w'] exI [of _ ns]) simp
    next
      case (print b w2)
      let ?s2 = "s1\<lparr>count := 0, printed := printed s1 + 1, t0 := timeval_at b\<rparr>"
      have "\<exists>fuel w' ns. busy_while E reps fuel ?s2 w2 = Some (0, w') \<and> length ns = nat (reps - printed ?s2) \<and>
          stdout w' = stdout w2 @ concat (map (\<lambda>n. dec_nat n @ nl) ns)"
        using print less.prems t False lines by (intro less.hyps [of ?s2 b w2]) auto
      then obtain fuel w' ns where "busy_while E reps fuel ?s2 w2 = Some (0, w')"
        "length ns = nat (reps - (printed s + 1))" "stdout w' = stdout w2 @ concat (map (\<lambda>n. dec_nat n @ nl) ns)"
        using t by auto
      then show ?thesis
        using step [of fuel] print False less.prems(4)
        by (intro exI [of _ "fuel + 1 + d"] exI [of _ w'] exI [of _ "unat (count s1 + 1) # ns"]) auto
    qed
  qed
qed


section \<open>An environment with a clock\<close>

definition clock_bytes :: "nat \<Rightarrow> u8 list" where
  "clock_bytes n = le_enc 8 (of_nat (n div 1000000) :: u64) @ le_enc 8 (of_nat (n mod 1000000) :: u64)"

text \<open>The state is the time in units of 300 milliseconds; it stays below \<open>2 ^ 62\<close> microseconds.\<close>

definition clock_env :: "nat env" where
  "clock_env = \<lparr>kernel = (\<lambda>c k. (\<lparr>ret = 0, err = 0, buf = (\<lambda>i. clock_bytes (300000 * (k + 1)) ! i), str = '''',
     ents = []\<rparr>, k + 1)), strerror = (\<lambda>_. ''''), getpagesize = 4096\<rparr>"


lemma sint_of_nat64: "n < 2 ^ 63 \<Longrightarrow> sint (of_nat n :: u64) = int n"
  by (simp add: signed_of_nat signed_take_bit_int_eq_self)

lemma clock_env_clock: "clock clock_env (\<lambda>k. 300000 * k)"
  unfolding clock_def
proof (intro allI impI conjI)
  fix w :: "nat world"
  assume bound: "300000 * kstate w < 2 ^ 80"
  let ?w = "snd (gettimeofday clock_env w)"
  have k: "kstate ?w = kstate w + 1"
    by (simp add: gettimeofday_def Let_def sys_kernel clock_env_def)
  have "rdbuf 16 (sys clock_env Gettimeofday w) = clock_bytes (300000 * (kstate w + 1))"
    by (simp add: rdbuf_sys clock_env_def) (rule nth_equalityI; simp add: clock_bytes_def)
  then have bytes: "take 8 (rdbuf 16 (sys clock_env Gettimeofday w)) =
      le_enc 8 (of_nat (300000 * (kstate w + 1) div 1000000) :: u64)"
    "drop 8 (rdbuf 16 (sys clock_env Gettimeofday w)) =
      le_enc 8 (of_nat (300000 * (kstate w + 1) mod 1000000) :: u64)"
    by (simp_all add: clock_bytes_def)
  have small: "300000 * (kstate w + 1) div 1000000 < 2 ^ 63" "300000 * (kstate w + 1) mod 1000000 < 2 ^ 63"
    using bound by auto
  show "fst (gettimeofday clock_env w) = timeval_at (300000 * kstate ?w)"
    unfolding k using sint_of_nat64 [OF small(1)] sint_of_nat64 [OF small(2)]
    by (simp add: gettimeofday_def Let_def bytes u64_image.dec_enc timeval_at_def)
  show "300000 * kstate w < 300000 * kstate ?w" "300000 * kstate ?w \<le> 300000 * kstate w + 2 ^ 31"
    by (simp_all add: k)
qed

lemma list_cpus_text: "stdout (list_cpus i n w) = stdout w @ concat (map (\<lambda>j. dec_nat j @ nl) [i..<i + n])"
proof (induction n arbitrary: i w)
  case (Suc n)
  have "[i..<i + Suc n] = i # [i + 1..<i + 1 + n]" by (simp add: upt_conv_Cons One_nat_def del: upt_Suc)
  with Suc.IH [of "i + 1"] show ?case by simp
qed simp

lemma gettimeofday_fds: "gettimeofday E w = (t, w') \<Longrightarrow> fds_kept w w'"
  by (auto simp: gettimeofday_def Let_def)

lemma busy_iteration_fds: "busy_iteration E reps s w = (s', w') \<Longrightarrow> fds_kept w w'"
  by (auto simp: busy_iteration_def Let_def split: prod.splits if_splits
      dest!: gettimeofday_fds intro: fds_kept_trans)

lemma busy_while_fds: "busy_while E reps fuel s w = Some (rc, w') \<Longrightarrow> fds_kept w w'"
proof (induction fuel arbitrary: s w)
  case 0
  then show ?case by (simp add: busy_while.simps split: if_splits)
next
  case (Suc fuel)
  obtain s1 w1 where i: "busy_iteration E reps s w = (s1, w1)" by (cases "busy_iteration E reps s w")
  from Suc.prems have "w' = w \<or> busy_while E reps fuel s1 w1 = Some (rc, w')"
    by (subst (asm) busy_while.simps) (auto simp: i split: if_splits)
  with Suc.IH busy_iteration_fds [OF i] show ?case by (auto intro: fds_kept_trans)
qed

lemma list_cpus_fds: "fds_kept w w0 \<Longrightarrow> fds_kept w (list_cpus i n w0)"
  by (induction n arbitrary: i w0) simp_all

lemma set_cpu_affinity_fds: "set_cpu_affinity E cpu w = (rc, w') \<Longrightarrow> fds_kept w w'"
  by (auto simp: set_cpu_affinity_def Let_def perror_def split: if_splits)

lemma misc_fds:
  "rdtsc E w = Some (rc, w') \<Longrightarrow> fds_kept w w'"
  "cpuid E argv w = Some (rc, w') \<Longrightarrow> fds_kept w w'"
  "busy_loop fuel E argv w = Some (rc, w') \<Longrightarrow> fds_kept w w'"
  "cpu_list E w = Some (rc, w') \<Longrightarrow> fds_kept w w'"
  "runon E argv w = Some (rc, w') \<Longrightarrow> fds_kept w w'"
proof -
  show "rdtsc E w = Some (rc, w') \<Longrightarrow> fds_kept w w'"
    by (auto simp: rdtsc_def Let_def)
  show "cpuid E argv w = Some (rc, w') \<Longrightarrow> fds_kept w w'"
    by (auto simp: cpuid_def cpuid_inline_def Let_def split: bind_splits prod.splits if_splits
        dest!: set_cpu_affinity_fds)
  show "busy_loop fuel E argv w = Some (rc, w') \<Longrightarrow> fds_kept w w'"
    by (auto simp: busy_loop_def Let_def split: bind_splits prod.splits if_splits
        dest!: gettimeofday_fds busy_while_fds intro: fds_kept_trans)
  show "cpu_list E w = Some (rc, w') \<Longrightarrow> fds_kept w w'"
    by (auto simp: cpu_list_def Let_def list_cpus_fds)
  show "runon E argv w = Some (rc, w') \<Longrightarrow> fds_kept w w'"
    by (auto simp: runon_def Let_def perror_def split: bind_splits prod.splits if_splits
        dest!: set_cpu_affinity_fds)
qed

text \<open>
  The processors a processor argument of \<open>runon\<close> denotes: its number modulo two to the 32, when
  glibc's set has a member of that number.
\<close>

definition runon_set :: "string \<Rightarrow> nat list" where
  "runon_set cpu = (let c = unat (strtoul cpu 0) mod 2 ^ 32 in if c < 1024 then [c] else [])"

lemma cpu_set_runon: "cpu_set_of (int_of_ulong (strtoul cpu 0)) = runon_set cpu"
proof -
  let ?c = "unat (strtoul cpu 0) mod 2 ^ 32" and ?i = "int_of_ulong (strtoul cpu 0)"
  have "?i = (if ?c < 2 ^ 31 then int ?c else int ?c - 2 ^ 32)"
    by (rule int_of_ulong_signed)
  moreover have "?c < 2 ^ 32" by simp
  ultimately have "0 \<le> ?i \<and> ?i < 1024 \<longleftrightarrow> ?c < 1024" and "?c < 1024 \<Longrightarrow> ?i = int ?c" by auto
  then show ?thesis
    by (cases "?c < 1024") (auto simp: cpu_set_of_def CPU_SETSIZE_def runon_set_def)
qed

section \<open>Properties\<close>

text \<open>
  C22: \<open>busy_loop\<close> without a repetition count never returns: after any number of iterations it is
  still running, whatever the clock says.
\<close>
theorem busy_loop_endless:
  assumes "length argv \<noteq> 2"
  shows "busy_loop fuel E argv w = None"
  using assms by (simp add: busy_loop_def busy_while_endless split: prod.splits)

theorem busy_loop_endless_witness: "busy_loop 100000 clock_env [''busy_loop''] (init_world 0) = None"
  by (rule busy_loop_endless) simp

text \<open>
  C21: with a positive repetition count, \<open>busy_loop\<close> returns 0 after finitely many iterations on
  every machine whose clock moves on, and has printed exactly that many numbers, one on a line.
\<close>
theorem busy_loop_returns:
  assumes "clock E T" and "T (kstate w) < 2 ^ 70" and "0 < atoi a"
  shows "\<exists>fuel w' ns. busy_loop fuel E [cmd, a] w = Some (0, w') \<and> length ns = nat (atoi a) \<and>
    stdout w' = stdout w @ concat (map (\<lambda>n. dec_nat n @ nl) ns)"
proof -
  let ?t = "fst (gettimeofday E w)" and ?w = "snd (gettimeofday E w)"
  let ?s = "\<lparr>count = 0, printed = 0, t0 = ?t\<rparr>"
  have "T (kstate w) < 2 ^ 80" using assms(2) by simp
  then have c: "?t = timeval_at (T (kstate ?w))" "T (kstate ?w) \<le> T (kstate w) + 2 ^ 31"
    using assms(1) unfolding clock_def by blast+
  have "nat (atoi a) < 2 ^ 31"
    using int_of_long_range [of "strtol a 10"] assms(3) by (simp add: atoi_def)
  then have "T (kstate ?w) + 1000000 + nat (atoi a - printed ?s) * 2 ^ 33 \<le> 2 ^ 80"
    using c(2) assms(2) by simp
  then have "\<exists>fuel w' ns. busy_while E (atoi a) fuel ?s ?w = Some (0, w') \<and> length ns = nat (atoi a - printed ?s) \<and>
      stdout w' = stdout ?w @ concat (map (\<lambda>n. dec_nat n @ nl) ns)"
    using assms(3) c(1) by (intro busy_while_returns [OF assms(1), of "atoi a" ?s "T (kstate ?w)"]) simp_all
  then show ?thesis
    by (simp add: busy_loop_def case_prod_beta)
qed

theorem busy_loop_returns_witness:
  "\<exists>fuel w' ns. busy_loop fuel clock_env [''busy_loop'', ''2''] (init_world 0) = Some (0, w') \<and> length ns = 2 \<and>
     stdout w' = concat (map (\<lambda>n. dec_nat n @ nl) ns)"
proof -
  have "atoi ''2'' = 2" by (simp add: atoi_def strtol_def int_of_long_id strto_eval LONG_MAX_def)
  then show ?thesis
    using busy_loop_returns [OF clock_env_clock, of "init_world 0" "''2''" "''busy_loop''"] by simp
qed

text \<open>
  \<open>cpu_list\<close> prints the numbers from 0 up to the number of processors the system reports, one on
  a line, and nothing when the system reports an error; it returns 0 in either case.
\<close>
theorem cpu_list_prints:
  assumes "rv (sys E Sysconf_nprocessors w) < 2 ^ 31" and "- (2 ^ 31) \<le> rv (sys E Sysconf_nprocessors w)"
  shows "\<exists>w'. cpu_list E w = Some (0, w') \<and>
    stdout w' = stdout w @ concat (map (\<lambda>j. dec_nat j @ nl) [0..<nat (rv (sys E Sysconf_nprocessors w))])"
  using int_of_long_id [OF assms(2,1)] by (simp add: cpu_list_def Let_def list_cpus_text)

theorem cpu_list_prints_witness:
  "\<exists>w'. cpu_list \<lparr>kernel = (\<lambda>c k. (\<lparr>ret = 3, err = 0, buf = (\<lambda>_. 0), str = '''', ents = []\<rparr>, k)),
      strerror = (\<lambda>_. ''''), getpagesize = 4096\<rparr> (init_world ()) = Some (0, w') \<and>
    stdout w' = ''0'' @ nl @ ''1'' @ nl @ ''2'' @ nl"
proof -
  let ?E = "\<lparr>kernel = (\<lambda>c k. (\<lparr>ret = 3, err = 0, buf = (\<lambda>_. 0), str = '''', ents = []\<rparr>, k)),
      strerror = (\<lambda>_. ''''), getpagesize = 4096\<rparr>"
  have "rv (sys ?E Sysconf_nprocessors (init_world ())) = 3" by (simp add: rv_sys)
  moreover have "[0..<3] = [0, 1, 2 :: nat]" by code_simp
  ultimately show ?thesis
    using cpu_list_prints [of ?E "init_world ()"] by (simp add: print_eval)
qed

text \<open>
  C34: in the build with glibc, \<open>runon\<close> executes the program with its own arguments only after the
  affinity was set; when that fails nothing is executed and -1 is returned.  This holds of every
  processor argument, with the limits of the code: the number is reduced to 32 bits, and it selects
  exactly the processor of that number below 1024, the size of glibc's set; from 1024 on the set passed
  to the kernel is empty.  (The processor sets of the klibc build hold less, as its own theory shows,
  and \<^verbatim>\<open>src/TODO.txt\<close> asks for \<open>runon\<close> to be made safe for more than 64 processors.)
\<close>
theorem runon_order:
  "\<exists>rc w' r. runon E (cmd # cpu # prog # args) w = Some (rc, w') \<and>
    (ret r < 0 \<and> rc = - 1 \<and> trace w' = (Sched_setaffinity (runon_set cpu), r) # trace w \<or>
     0 \<le> ret r \<and> (\<exists>r'. (rc = 0 \<longleftrightarrow> 0 \<le> ret r') \<and>
       trace w' = (Execvp prog (prog # args), r') # (Sched_setaffinity (runon_set cpu), r) # trace w))"
  using cpu_set_runon [of cpu] by (auto simp: runon_def set_cpu_affinity_def perror_def Let_def rv_def)

theorem runon_order_witness:
  "\<exists>rc w' r r'. runon clock_env [''runon'', ''3'', ''ls'', ''-l''] (init_world 0) = Some (rc, w') \<and>
     trace w' = [(Execvp ''ls'' [''ls'', ''-l''], r'), (Sched_setaffinity [3], r)]"
proof -
  have u: "unat (strtoul ''3'' 0) = 3" by (simp add: strto_eval)
  have "runon_set ''3'' = [3]" by (simp add: runon_set_def u)
  then obtain rc w' r where run: "runon clock_env [''runon'', ''3'', ''ls'', ''-l''] (init_world 0) = Some (rc, w')"
    and r: "ret r < 0 \<and> rc = - 1 \<and> trace w' = [(Sched_setaffinity [3], r)] \<or>
     0 \<le> ret r \<and> (\<exists>r'. (rc = 0 \<longleftrightarrow> 0 \<le> ret r') \<and>
       trace w' = [(Execvp ''ls'' [''ls'', ''-l''], r'), (Sched_setaffinity [3], r)])"
    using runon_order [of clock_env "''runon''" "''3''" "''ls''" "[''-l'']" "init_world 0"] by auto
  have "rc = 0"
    using run by (auto simp: runon_def set_cpu_affinity_def clock_env_def rv_sys Let_def)
  with run r show ?thesis by auto
qed

end
