(* ===== verification/Registration.thy ===== *)
theory Registration
  imports Commands "HOL-Library.Multiset"
begin

text \<open>
  Registration of the command groups.  The constructors that \<^verbatim>\<open>REGISTER_CMD_GROUP\<close> of
  \<^verbatim>\<open>src/commands.h\<close> defines push each group on the list before \<^verbatim>\<open>main\<close> is entered, in
  an order the linker chooses; a registration order is a list of groups, and two orders of the same
  groups have the same multiset.
\<close>

definition registered :: "cmd_group list \<Rightarrow> cmd_group list" where
  "registered constructors = foldl (\<lambda>head grp. register_command_group grp head) [] constructors"

lemma registered_rev: "registered cs = rev cs"
proof -
  have "foldl (\<lambda>head grp. register_command_group grp head) acc cs = rev cs @ acc" for acc
    by (induction cs arbitrary: acc) (simp_all add: register_command_group_def)
  then show ?thesis by (simp add: registered_def)
qed

text \<open>
  Groups register themselves from constructors, in an order the linker chooses: with distinct names
  the order does not matter.
\<close>

lemma all_cmds_mset: "mset groups = mset groups' \<Longrightarrow> mset (all_cmds groups) = mset (all_cmds groups')"
proof -
  have "mset (all_cmds gs) = \<Sum>\<^sub># (image_mset (\<lambda>g. mset (commands g)) (mset gs))" for gs
    by (induction gs) simp_all
  then show "mset groups = mset groups' \<Longrightarrow> mset (all_cmds groups) = mset (all_cmds groups')" by simp
qed

lemma locate_command_order:
  assumes "distinct (map name (all_cmds groups))" and "mset groups' = mset groups"
  shows "locate_command cmd groups' = locate_command cmd groups"
proof -
  have m: "mset (all_cmds groups') = mset (all_cmds groups)"
    using assms(2) by (rule all_cmds_mset)
  then have "mset (map name (all_cmds groups')) = mset (map name (all_cmds groups))"
    by (metis mset_map)
  then have d: "distinct (map name (all_cmds groups'))"
    using assms(1) by (metis mset_eq_imp_distinct_iff)
  show ?thesis
  proof (cases "locate_command cmd groups'")
    case None
    with m show ?thesis
      by (metis locate_command_None mset_eq_setD)
  next
    case (Some info)
    then have "info \<in> set (all_cmds groups')" "name info = cmd" using locate_command_Some by blast+
    with Some m show ?thesis
      using locate_command_distinct [OF assms(1), of info] by (metis mset_eq_setD)
  qed
qed

end
