(* ===== verification/Links.thy ===== *)
theory Links
  imports Registration
begin

text \<open>
  The symbolic links of the commands, \<^verbatim>\<open>make_command_links\<close> and
  \<^verbatim>\<open>clean_command_links\<close> of \<^verbatim>\<open>src/commands.c\<close>, over a view of the directory entries:
  what the operating system documents of \<^verbatim>\<open>symlink\<close>, \<^verbatim>\<open>unlink\<close> and
  \<^verbatim>\<open>readlink\<close>, what making and cleaning do to the entries, and what a link runs.
\<close>

section \<open>The file system\<close>

text \<open>
  \<open>L k\<close> maps the path of each entry in a machine state to the target it links to:
  \<^verbatim>\<open>symlink\<close> makes an entry where there is none and fails otherwise, \<^verbatim>\<open>unlink\<close>
  removes an entry and fails with \<^verbatim>\<open>ENOENT\<close> where there is none.
\<close>

definition link_fs :: "'k env \<Rightarrow> ('k \<Rightarrow> string \<Rightarrow> string option) \<Rightarrow> bool" where
  "link_fs E L \<longleftrightarrow>
    (\<forall>k t p r k'. kernel E (Symlink t p) k = (r, k') \<longrightarrow>
       (if L k p = None then ret r = 0 \<and> L k' = (L k)(p \<mapsto> t) else ret r = - 1 \<and> L k' = L k)) \<and>
    (\<forall>k p r k'. kernel E (Unlink p) k = (r, k') \<longrightarrow>
       (if L k p = None then ret r = - 1 \<and> err r = ENOENT else ret r = 0) \<and> L k' = (L k)(p := None)) \<and>
    (\<forall>k p n r k'. kernel E (Readlink p n) k = (r, k') \<longrightarrow> L k' = L k)"

text \<open>The program's binary is \<open>bin\<close> in the directory \<open>dir\<close>.\<close>

definition exe_at :: "'k env \<Rightarrow> string \<Rightarrow> string \<Rightarrow> bool" where
  "exe_at E dir bin \<longleftrightarrow> CHR ''/'' \<notin> set bin \<and> length (dir @ ''/'' @ bin) < FILENAME_MAX \<and>
    (\<forall>k r k'. kernel E (Readlink ''/proc/self/exe'' FILENAME_MAX) k = (r, k') \<longrightarrow>
       ret r = int (length (dir @ ''/'' @ bin)) \<and> str r = dir @ ''/'' @ bin)"

lemma link_fs_Symlink:
  assumes "link_fs E L" and "L (kstate w) p = None"
  shows "rv (sys E (Symlink t p) w) = 0" and "L (kstate (sys E (Symlink t p) w)) = (L (kstate w))(p \<mapsto> t)"
  using assms unfolding link_fs_def by (metis rv_def sys_kernel prod.collapse)+

lemma link_fs_Unlink:
  assumes "link_fs E L"
  shows "\<not> (rv (sys E (Unlink p) w) < 0 \<and> errno (sys E (Unlink p) w) \<noteq> ENOENT)"
    and "L (kstate (sys E (Unlink p) w)) = (L (kstate w))(p := None)"
proof -
  obtain r k' where k: "kernel E (Unlink p) (kstate w) = (r, k')" by (cases "kernel E (Unlink p) (kstate w)")
  with assms have "(if L (kstate w) p = None then ret r = - 1 \<and> err r = ENOENT else ret r = 0) \<and>
      L k' = (L (kstate w))(p := None)"
    unfolding link_fs_def by blast
  with k show "\<not> (rv (sys E (Unlink p) w) < 0 \<and> errno (sys E (Unlink p) w) \<noteq> ENOENT)"
    "L (kstate (sys E (Unlink p) w)) = (L (kstate w))(p := None)"
    by (auto simp: rv_def sys_def split: if_splits)
qed

lemma link_fs_Readlink:
  assumes "link_fs E L"
  shows "L (kstate (sys E (Readlink p n) w)) = L (kstate w)"
  using assms unfolding link_fs_def by (metis sys_kernel(1) prod.collapse)

lemma before_last_append:
  assumes "c \<notin> set s"
  shows "before_last c (p @ c # s) = Some p"
proof -
  have "dropWhile (\<lambda>x. x \<noteq> c) (rev s @ c # rev p) = c # rev p"
    using assms by (subst dropWhile_append2) auto
  then show ?thesis by (simp add: before_last_def)
qed

lemma locate_path_of_binary_exe:
  assumes "exe_at E dir bin"
  shows "locate_path_of_binary E w = Some ((0, dir, bin), sys E (Readlink ''/proc/self/exe'' FILENAME_MAX) w)"
proof -
  obtain r k' where k: "kernel E (Readlink ''/proc/self/exe'' FILENAME_MAX) (kstate w) = (r, k')"
    by (cases "kernel E (Readlink ''/proc/self/exe'' FILENAME_MAX) (kstate w)")
  then have "ret r = int (length (dir @ ''/'' @ bin))" "str r = dir @ ''/'' @ bin"
    using assms unfolding exe_at_def by blast+
  moreover have "CHR ''/'' \<notin> set bin" "length (dir @ ''/'' @ bin) < FILENAME_MAX"
    using assms by (simp_all add: exe_at_def)
  ultimately show ?thesis
    using after_last_append [of "CHR ''/''" bin dir] before_last_append [of "CHR ''/''" bin dir]
    by (simp add: locate_path_of_binary_def Let_def rv_sys rdtxt_def sys_kernel k)
qed

section \<open>Making and cleaning\<close>

text \<open>The two nested loops run over the table of all commands.\<close>

lemma make_links_group_append:
  "make_links_group E path bin (cs @ cs') w = make_links_group E path bin cs' (make_links_group E path bin cs w)"
  by (induction cs arbitrary: w) (simp_all add: Let_def)

lemma make_links_all: "make_links E path bin groups w = make_links_group E path bin (all_cmds groups) w"
  by (induction groups arbitrary: w) (simp_all add: make_links_group_append)

lemma clean_links_group_append:
  "clean_links_group E path (cs @ cs') w = clean_links_group E path cs' (clean_links_group E path cs w)"
  by (induction cs arbitrary: w) (simp_all add: Let_def)

lemma clean_links_all: "clean_links E path groups w = clean_links_group E path (all_cmds groups) w"
  by (induction groups arbitrary: w) (simp_all add: clean_links_group_append)

lemma make_links_group_fs:
  assumes "link_fs E L" and "distinct (map (build_symlink_name path) cs)"
    and "\<forall>c \<in> set cs. L (kstate w) (build_symlink_name path c) = None"
  shows "L (kstate (make_links_group E path bin cs w)) =
      (\<lambda>p. if p \<in> build_symlink_name path ` set cs then Some bin else L (kstate w) p) \<and>
    stderr (make_links_group E path bin cs w) = stderr w"
  using assms(2,3)
proof (induction cs arbitrary: w)
  case (Cons c cs)
  let ?l = "build_symlink_name path c"
  let ?w = "sys E (Symlink bin ?l) (printf (''Creating link: '' @ ?l @ '' -> '' @ bin @ nl) w)"
  have l: "L (kstate (printf s w)) ?l = None" for s using Cons.prems by simp
  note sym = link_fs_Symlink [OF assms(1) l, of bin]
  have "\<forall>c \<in> set cs. L (kstate ?w) (build_symlink_name path c) = None"
    using Cons.prems by (auto simp: sym dest: rev_image_eqI)
  with Cons.IH [of ?w] Cons.prems have ih: "L (kstate (make_links_group E path bin cs ?w)) =
      (\<lambda>p. if p \<in> build_symlink_name path ` set cs then Some bin else L (kstate ?w) p)"
    "stderr (make_links_group E path bin cs ?w) = stderr w"
    by simp_all
  have "make_links_group E path bin (c # cs) w = make_links_group E path bin cs ?w"
    using sym(1) by (simp add: Let_def)
  with ih show ?case by (auto simp: fun_eq_iff sym(2))
qed simp

lemma clean_links_group_fs:
  assumes "link_fs E L"
  shows "L (kstate (clean_links_group E path cs w)) =
      (\<lambda>p. if p \<in> build_symlink_name path ` set cs then None else L (kstate w) p)"
    and "stderr (clean_links_group E path cs w) = stderr w"
  using link_fs_Unlink [OF assms]
  by (induction cs arbitrary: w) (auto simp: Let_def fun_eq_iff)

lemma build_symlink_name_short:
  assumes "length dir + length (name c) + 2 \<le> FILENAME_MAX"
  shows "build_symlink_name dir c = dir @ ''/'' @ name c"
  using assms by (simp add: build_symlink_name_def snprintf_def)

lemma make_command_links_fs:
  assumes "link_fs E L" and "exe_at E dir bin" and "distinct (map name (all_cmds groups))"
    and "\<And>c. c \<in> set (all_cmds groups) \<Longrightarrow> length dir + length (name c) + 2 \<le> FILENAME_MAX"
    and "\<And>c. c \<in> set (all_cmds groups) \<Longrightarrow> L (kstate w) (dir @ ''/'' @ name c) = None"
  shows "\<exists>w'. make_command_links E groups w = Some (0, w') \<and> stderr w' = stderr w \<and>
    L (kstate w') = (\<lambda>p. if p \<in> (\<lambda>c. dir @ ''/'' @ name c) ` set (all_cmds groups) then Some bin else L (kstate w) p)"
proof -
  let ?w = "sys E (Readlink ''/proc/self/exe'' FILENAME_MAX) w"
  have nm: "build_symlink_name dir c = dir @ ''/'' @ name c" if "c \<in> set (all_cmds groups)" for c
    using build_symlink_name_short assms(4) that by blast
  have "map (build_symlink_name dir) (all_cmds groups) = map (\<lambda>n. dir @ ''/'' @ n) (map name (all_cmds groups))"
    using nm by (simp add: comp_def)
  then have d: "distinct (map (build_symlink_name dir) (all_cmds groups))"
    using assms(3) by (simp add: distinct_map inj_on_def del: map_map)
  have a: "\<forall>c \<in> set (all_cmds groups). L (kstate ?w) (build_symlink_name dir c) = None"
    using nm assms(5) link_fs_Readlink [OF assms(1)] by simp
  have img: "build_symlink_name dir ` set (all_cmds groups) = (\<lambda>c. dir @ ''/'' @ name c) ` set (all_cmds groups)"
    using nm by (rule image_cong [OF refl])
  show ?thesis
    using make_links_group_fs [OF assms(1) d a, of bin]
    by (simp add: make_command_links_def locate_path_of_binary_exe [OF assms(2)] make_links_all img
        link_fs_Readlink [OF assms(1)] cong: if_cong)
qed

lemma clean_command_links_fs:
  assumes "link_fs E L" and "exe_at E dir bin"
    and "\<And>c. c \<in> set (all_cmds groups) \<Longrightarrow> length dir + length (name c) + 2 \<le> FILENAME_MAX"
  shows "\<exists>w'. clean_command_links E groups w = Some (0, w') \<and> stderr w' = stderr w \<and>
    L (kstate w') = (\<lambda>p. if p \<in> (\<lambda>c. dir @ ''/'' @ name c) ` set (all_cmds groups) then None else L (kstate w) p)"
proof -
  have img: "build_symlink_name dir ` set (all_cmds groups) = (\<lambda>c. dir @ ''/'' @ name c) ` set (all_cmds groups)"
    using build_symlink_name_short assms(3) by (intro image_cong [OF refl]) blast
  show ?thesis
    using clean_links_group_fs [OF assms(1)]
    by (simp add: clean_command_links_def locate_path_of_binary_exe [OF assms(2)] clean_links_all img
        link_fs_Readlink [OF assms(1)] cong: if_cong)
qed

section \<open>A file system\<close>

text \<open>The state is the map of the entries.\<close>

fun dir_kernel :: "string \<Rightarrow> string \<Rightarrow> extcall \<Rightarrow> (string \<Rightarrow> string option) \<Rightarrow> sysret \<times> (string \<Rightarrow> string option)" where
  "dir_kernel dir bin (Symlink t p) m =
     (if m p = None then (\<lparr>ret = 0, err = 0, buf = (\<lambda>_. 0), str = '''', ents = []\<rparr>, m(p \<mapsto> t))
      else (\<lparr>ret = - 1, err = 17, buf = (\<lambda>_. 0), str = '''', ents = []\<rparr>, m))"
| "dir_kernel dir bin (Unlink p) m =
     (\<lparr>ret = (if m p = None then - 1 else 0), err = ENOENT, buf = (\<lambda>_. 0), str = '''', ents = []\<rparr>, m(p := None))"
| "dir_kernel dir bin (Readlink p n) m =
     (\<lparr>ret = int (length (dir @ ''/'' @ bin)), err = 0, buf = (\<lambda>_. 0), str = dir @ ''/'' @ bin, ents = []\<rparr>, m)"
| "dir_kernel dir bin _ m = (\<lparr>ret = - 1, err = ENOENT, buf = (\<lambda>_. 0), str = '''', ents = []\<rparr>, m)"

definition dir_env :: "string \<Rightarrow> string \<Rightarrow> (string \<Rightarrow> string option) env" where
  "dir_env dir bin = \<lparr>kernel = dir_kernel dir bin, strerror = (\<lambda>_. ''error''), getpagesize = 4096\<rparr>"

lemma dir_env_link_fs: "link_fs (dir_env dir bin) id"
  by (auto simp: link_fs_def dir_env_def)

lemma dir_env_exe_at:
  assumes "CHR ''/'' \<notin> set bin" and "length dir + length bin + 1 < FILENAME_MAX"
  shows "exe_at (dir_env dir bin) dir bin"
  using assms by (auto simp: exe_at_def dir_env_def)

end
