(* ===== verification/Scom.thy ===== *)
theory Scom
  imports Commands Device Platform
begin

text \<open>
  The SCOM commands, \<^verbatim>\<open>src/scom.c\<close>, compiled for PowerPC only: registers of a chip through
  the debug file system of the kernel, and the chip and core numbers of a processor from sysfs and the
  device tree.  PowerPC hosts have either byte order, so the image of an object in memory depends on
  the parameter \<open>bo\<close>.  The functions leave objects on the stack uninitialised; their contents
  are the parameters \<open>stack\<close> (the array \<^verbatim>\<open>pir_str\<close>) and \<open>chip0\<close> (the variable
  \<^verbatim>\<open>chipid\<close>).
\<close>

section \<open>Registers\<close>

text \<open>
  The file offset of a register: the address without its high bit, times eight; the high bit, which
  marks an indirect address, becomes bit 62.
\<close>

definition scom_offset :: "u64 \<Rightarrow> u64" where
  "scom_offset scom =
     (let offset = push_bit 3 (scom AND (push_bit 63 1 - 1))
      in if scom AND push_bit 63 1 \<noteq> 0 then offset OR push_bit 62 1 else offset)"

definition scom_dev :: "int \<Rightarrow> string" where
  "scom_dev chip =
     snprintf 512 (''/sys/kernel/debug/powerpc/scom/'' @ hex 8 (unat (word_of_int chip :: u32)) @ ''/access'')"

definition scom_open_and_seek ::
    "'k env \<Rightarrow> int \<Rightarrow> u64 \<Rightarrow> u32 \<Rightarrow> 'k world \<Rightarrow> (int \<times> int) \<times> 'k world" where
  "scom_open_and_seek E chip scom mode w =
     (let offset = off_of_ulong (scom_offset scom);
          dev = scom_dev chip;
          w = sys E (Open dev mode) w;
          fd = rv w
      in if fd < 0 then
           ((- 1, fd), eprintf (''open(\"'' @ dev @ ''\"): '' @ perr E w @ nl) w)
         else
           (let w = sys E (Lseek fd offset) w in
            if rv w = - 1 then
              ((- 1, fd), sys E (Close fd) (eprintf (''lseek('' @ dec_int offset @ ''): '' @ perr E w @ nl) w))
            else ((0, fd), w)))"

definition rd_scom :: "byte_order \<Rightarrow> 'k env \<Rightarrow> string list \<Rightarrow> 'k world \<Rightarrow> ('k, int) result" where
  "rd_scom bo E argv w = do {
     a1 \<leftarrow> argp argv 1;
     a2 \<leftarrow> argp argv 2;
     let chip = int_of_long (strtol a1 0);
     let scom = strtoull a2 0;
     let ((rc, fd), w) = scom_open_and_seek E chip scom O_RDONLY w;
     if rc < 0 then Some (- 1, w)
     else do {
       let w = sys E (Read fd 8) w;
       if rv w \<noteq> 8 then
         Some (- 1, sys E (Close fd) (eprintf (''read(): '' @ perr E w @ nl) w))
       else do {
         let data = (host_dec bo (rdbuf 8 w) :: u64);
         let w = sys E (Close fd) w;
         Some (0, printf (''0x'' @ hex 16 (unat data) @ nl) w)
       }
     }
   }"

definition wr_scom :: "byte_order \<Rightarrow> 'k env \<Rightarrow> string list \<Rightarrow> 'k world \<Rightarrow> ('k, int) result" where
  "wr_scom bo E argv w = do {
     a1 \<leftarrow> argp argv 1;
     a2 \<leftarrow> argp argv 2;
     a3 \<leftarrow> argp argv 3;
     let chip = int_of_long (strtol a1 0);
     let scom = strtoull a2 0;
     let data = strtoull a3 0;
     let ((rc, fd), w) = scom_open_and_seek E chip scom O_WRONLY w;
     if rc < 0 then Some (- 1, w)
     else do {
       let w = sys E (Write fd (host_enc bo 8 data)) w;
       let (ret, w) = (if rv w \<noteq> 8 then (- 1, eprintf (''write(): '' @ perr E w @ nl) w) else (0, w));
       Some (ret, sys E (Close fd) w)
     }
   }"

section \<open>Processor numbers\<close>

text \<open>
  A character array as a string: \<open>None\<close> when it has no terminating NUL, so that passing it to a
  string function is undefined.
\<close>

definition c_string :: "u8 list \<Rightarrow> string option" where
  "c_string bs = (if 0 \<in> set bs then Some (map (\<lambda>b. char_of (unat b)) (takeWhile (\<lambda>b. b \<noteq> 0) bs)) else None)"

text \<open>\<open>stack\<close> overlaid with what \<^verbatim>\<open>read\<close> stored: the first \<open>n\<close> bytes.\<close>

definition overlay :: "u8 list \<Rightarrow> 'k world \<Rightarrow> u8 list" where
  "overlay stack w = (let n = min (length stack) (nat (rv w)) in rdbuf n w @ drop n stack)"

definition PIR_STR_SIZE :: nat where
  "PIR_STR_SIZE = 64"

definition pir_file :: "int \<Rightarrow> string" where
  "pir_file cpu = snprintf 512 (''/sys/devices/system/cpu/cpu'' @ dec_int cpu @ ''/pir'')"

definition cpu_to_pir ::
    "'k env \<Rightarrow> u8 list \<Rightarrow> int \<Rightarrow> 'k world \<Rightarrow> ('k, int \<times> u32) result" where
  "cpu_to_pir E stack cpu w =
     (let w = sys E (Open (pir_file cpu) O_RDONLY) w; fd = rv w in
      if fd < 0 then Some ((- 1, 0), eprintf (''open(\"'' @ pir_file cpu @ ''\"): '' @ perr E w @ nl) w)
      else
        (let w = sys E (Read fd PIR_STR_SIZE) w in
         if rv w < 0 then Some ((- 1, 0), sys E (Close fd) (eprintf (''read(): '' @ perr E w @ nl) w))
         else do {
           let pir_str = overlay stack w;
           let w = sys E (Close fd) w;
           s \<leftarrow> c_string pir_str;
           Some ((0, ucast (strtoul s 16)), w)
         }))"

definition chip_glob :: "u32 \<Rightarrow> string" where
  "chip_glob pir = snprintf 512 (''/proc/device-tree/cpus/*@'' @ hex 1 (unat pir) @ ''/ibm,chip-id'')"

definition pir_to_chipid ::
    "byte_order \<Rightarrow> 'k env \<Rightarrow> u32 \<Rightarrow> u32 \<Rightarrow> 'k world \<Rightarrow> (int \<times> u32) \<times> 'k world" where
  "pir_to_chipid bo E pir chip0 w =
     (let pir = pir AND NOT 7;
          cpu_glob_str = chip_glob pir;
          w = sys E (Glob cpu_glob_str) w
      in if rv w \<noteq> 0 then
           ((- 1, chip0), eprintf (''glob(\"'' @ cpu_glob_str @ ''\"): '' @ dec_int (rv w) @ nl) w)
         else
           (let path = rdtxt w;
                w = sys E (Open path O_RDONLY) w;
                fd = rv w
            in if fd < 0 then ((- 1, chip0), eprintf (''open(\"'' @ path @ ''\"): '' @ perr E w @ nl) w)
               else
                 (let w = sys E (Read fd 4) w in
                  if rv w < 0 then ((- 1, chip0), sys E (Close fd) (eprintf (''read(): '' @ perr E w @ nl) w))
                  else ((0, host_dec bo (overlay (host_enc bo 4 chip0) w)), sys E (Close fd) w))))"

definition cpu_to_chipid ::
    "byte_order \<Rightarrow> u8 list \<Rightarrow> u32 \<Rightarrow> 'k env \<Rightarrow> string list \<Rightarrow> 'k world \<Rightarrow> ('k, int) result" where
  "cpu_to_chipid bo stack chip0 E argv w = do {
     a1 \<leftarrow> argp argv 1;
     let cpu = int_of_ulong (strtoul a1 0);
     ((ret, pir), w) \<leftarrow> cpu_to_pir E stack cpu w;
     if ret < 0 then Some (ret, w)
     else
       (case pir_to_chipid bo E pir chip0 w of ((ret, chipid), w) \<Rightarrow>
          if ret < 0 then Some (ret, w)
          else Some (ret, printf (''0x'' @ hex 8 (unat chipid) @ nl) w))
   }"

definition cpu_to_ex :: "u8 list \<Rightarrow> 'k env \<Rightarrow> string list \<Rightarrow> 'k world \<Rightarrow> ('k, int) result" where
  "cpu_to_ex stack E argv w = do {
     a1 \<leftarrow> argp argv 1;
     let cpu = int_of_ulong (strtoul a1 0);
     ((ret, pir), w) \<leftarrow> cpu_to_pir E stack cpu w;
     if ret < 0 then Some (ret, w)
     else do {
       let ex = drop_bit 3 pir AND 0xf;
       Some (ret, printf (dec_nat (unat ex) @ nl) w)
     }
   }"

section \<open>Command table\<close>

definition scom_rd_params :: prereq_params where
  "scom_rd_params = FIXED_ARGS 3 ''<chipid> <scom>'' 0"
definition scom_wr_params :: prereq_params where
  "scom_wr_params = FIXED_ARGS 4 ''<chipid> <scom> <data>'' 0"
definition cpu_params :: prereq_params where
  "cpu_params = FIXED_ARGS 2 ''<cpu>'' 0"

definition scom_cmds :: "cmd_info list" where
  "scom_cmds =
    [MAKE_CMD_WITH_PARAMS ''getscom'' E_rd_scom NULL scom_rd_params,
     MAKE_CMD_WITH_PARAMS ''putscom'' E_wr_scom NULL scom_wr_params,
     MAKE_CMD_WITH_PARAMS ''cputochipid'' E_cpu_to_chipid NULL cpu_params,
     MAKE_CMD_WITH_PARAMS ''cputoex'' E_cpu_to_ex NULL cpu_params]"

definition SCOM_group :: cmd_group where
  "SCOM_group = \<lparr>group_name = ''SCOM'', description = Some ''commands to access SCOM registers'',
     commands = scom_cmds\<rparr>"

lemmas scom_params_defs = scom_rd_params_def scom_wr_params_def cpu_params_def

text \<open>The call through the entry point of a command of the group.\<close>

definition scom_call :: "byte_order \<Rightarrow> u8 list \<Rightarrow> u32 \<Rightarrow> 'k invoke" where
  "scom_call bo stack chip0 E argv info w =
     (case entry info of
        E_rd_scom \<Rightarrow> rd_scom bo E argv w
      | E_wr_scom \<Rightarrow> wr_scom bo E argv w
      | E_cpu_to_chipid \<Rightarrow> cpu_to_chipid bo stack chip0 E argv w
      | E_cpu_to_ex \<Rightarrow> cpu_to_ex stack E argv w
      | _ \<Rightarrow> None)"

section \<open>Descriptors\<close>

lemma cpu_to_pir_fds: "cpu_to_pir E stack cpu w = Some (r, w') \<Longrightarrow> fds_kept w w'"
  by (auto simp: fds_kept_def cpu_to_pir_def Let_def rv_def split: bind_splits if_splits)

lemma pir_to_chipid_fds: "pir_to_chipid bo E pir chip0 w = (r, w') \<Longrightarrow> fds_kept w w'"
  by (auto simp: fds_kept_def pir_to_chipid_def Let_def rv_def split: if_splits)

interpretation rd_scom_fds: fd_clean "rd_scom bo" for bo
  by unfold_locales
    (auto simp: rd_scom_def scom_open_and_seek_def Let_def rv_def split: bind_splits if_splits)

interpretation wr_scom_fds: fd_clean "wr_scom bo" for bo
  by unfold_locales
    (auto simp: wr_scom_def scom_open_and_seek_def Let_def rv_def split: bind_splits if_splits)

interpretation cpu_to_chipid_fds: fd_clean "cpu_to_chipid bo stack chip0" for bo stack chip0
  by unfold_locales
    (auto simp: cpu_to_chipid_def Let_def fds_kept_def dest!: cpu_to_pir_fds pir_to_chipid_fds
      split: bind_splits if_splits prod.splits)

interpretation cpu_to_ex_fds: fd_clean "cpu_to_ex stack" for stack
  by unfold_locales
    (auto simp: cpu_to_ex_def Let_def fds_kept_def dest!: cpu_to_pir_fds split: bind_splits if_splits prod.splits)

section \<open>Addresses\<close>

text \<open>The addresses the encoding is made for: bits 59 to 62 are clear.\<close>

definition scom_address_ok :: "u64 \<Rightarrow> bool" where
  "scom_address_ok scom \<longleftrightarrow> (\<forall>k \<in> {59, 60, 61, 62}. \<not> bit scom k)"

lemma bit_scom_offset:
  "bit (scom_offset scom) k \<longleftrightarrow>
     k < 64 \<and> (3 \<le> k \<and> k - 3 < 63 \<and> bit scom (k - 3) \<or> k = 62 \<and> bit scom 63)"
proof -
  have m: "push_bit 63 1 - 1 = (mask 63 :: u64)" by (simp add: mask_eq_exp_minus_1)
  have hi: "scom AND push_bit 63 1 \<noteq> 0 \<longleftrightarrow> bit scom 63"
    using and_exp_eq_0_iff_not_bit [of scom 63] by (simp add: push_bit_eq_mult)
  show ?thesis
    unfolding scom_offset_def m Let_def hi set_bit_eq_or [symmetric]
    by (auto simp: bit_set_bit_iff bit_push_bit_iff bit_and_iff bit_mask_iff)
qed


text \<open>The offset is a non-negative \<^verbatim>\<open>off64_t\<close> exactly when bit 60 of the address is clear.\<close>

lemma scom_offset_sign: "0 \<le> off_of_ulong (scom_offset scom) \<longleftrightarrow> \<not> bit scom 60"
  using bit_scom_offset [of scom 63]
  by (simp add: off_of_ulong_def sint_uint bit_uint_iff flip: not_less)

lemma scom_offset_less:
  assumes "\<not> bit scom 60"
  shows "unat (scom_offset scom) < 2 ^ 63"
proof -
  have "take_bit 63 (scom_offset scom) = scom_offset scom"
  proof (rule bit_word_eqI)
    fix k :: nat
    assume "k < LENGTH(64)"
    then have "k < 63 \<or> k = 63" by auto
    then show "bit (take_bit 63 (scom_offset scom)) k \<longleftrightarrow> bit (scom_offset scom) k"
      using assms by (auto simp: bit_take_bit_iff bit_scom_offset)
  qed
  then show ?thesis by (metis unsigned_take_bit_eq take_bit_nat_less_exp)
qed

text \<open>The value of the offset, and that no two addresses share one.\<close>

lemma scom_offset_inject:
  assumes "scom_address_ok a" and "scom_address_ok b"
  shows "scom_offset a = scom_offset b \<longleftrightarrow> a = b"
proof
  assume eq: "scom_offset a = scom_offset b"
  show "a = b"
  proof (rule bit_word_eqI)
    fix k :: nat
    assume "k < LENGTH(64)"
    then consider "k < 59" | "k \<in> {59, 60, 61, 62}" | "k = 63" by fastforce
    then show "bit a k \<longleftrightarrow> bit b k"
    proof cases
      case 1
      then show ?thesis
        using bit_scom_offset [of a "k + 3"] bit_scom_offset [of b "k + 3"] eq by auto
    next
      case 2
      then show ?thesis using assms unfolding scom_address_ok_def by blast
    next
      case 3
      then show ?thesis
        using bit_scom_offset [of a 62] bit_scom_offset [of b 62] eq assms by (auto simp: scom_address_ok_def)
    qed
  qed
qed simp

lemma scom_offset_value:
  assumes "scom_address_ok scom"
  shows "off_of_ulong (scom_offset scom) = int (unat scom mod 2 ^ 59) * 8 + (if bit scom 63 then 2 ^ 62 else 0)"
proof -
  let ?low = "push_bit 3 (take_bit 59 scom)"
  have ok: "\<not> bit scom 59" "\<not> bit scom 60" using assms by (simp_all add: scom_address_ok_def)
  have low: "unat ?low = unat scom mod 2 ^ 59 * 8"
  proof -
    have t: "unat (take_bit 59 scom) = unat scom mod 2 ^ 59"
      by (subst unsigned_take_bit_eq) (rule take_bit_eq_mod)
    have "unat scom mod 2 ^ 59 < 2 ^ 59" by simp
    then have "unat (take_bit 59 scom) * 8 < 2 ^ 64" unfolding t by simp
    then show ?thesis
      unfolding t [symmetric] by (simp add: push_bit_eq_mult unat_word_ariths mult.commute)
  qed
  have high: "n - 3 < 59" if "n < 64" "bit scom (n - 3)" for n
  proof (rule ccontr)
    assume "\<not> n - 3 < 59"
    with that(1) have "n - 3 = 59 \<or> n - 3 = 60" by linarith
    with ok that(2) show False by metis
  qed
  define h :: u64 where "h = (if bit scom 63 then push_bit 62 1 else 0)"
  have h: "bit h n \<longleftrightarrow> n = 62 \<and> bit scom 63" for n
    unfolding h_def if_distrib [of "\<lambda>x. bit x n"] bit_push_bit_iff by (auto simp: bit_1_iff)
  have "scom_offset scom = ?low OR h"
    by (rule bit_word_eqI) (auto simp: bit_scom_offset bit_or_iff bit_push_bit_iff bit_take_bit_iff h intro: high)
  also have "\<dots> = ?low + h"
    by (rule disjunctive_add_eq_or [symmetric], rule bit_word_eqI)
      (auto simp: bit_and_iff bit_push_bit_iff bit_take_bit_iff h)
  finally have "unat (scom_offset scom) = (unat scom mod 2 ^ 59 * 8 + unat h) mod 2 ^ 64"
    by (simp only: unat_word_ariths low) simp
  moreover have "unat scom mod 2 ^ 59 < 2 ^ 59" by simp
  ultimately have "unat (scom_offset scom) = unat scom mod 2 ^ 59 * 8 + (if bit scom 63 then 2 ^ 62 else 0)"
    by (simp add: h_def)
  then show ?thesis
    using off_of_ulong_small [OF scom_offset_less [OF ok(2)]] by simp
qed
section \<open>Register access\<close>

abbreviation scom_path :: "string \<Rightarrow> string" where
  "scom_path chip \<equiv> scom_dev (int_of_long (strtol chip 0))"

definition scom_position :: "string \<Rightarrow> int" where
  "scom_position scom = int (unat (scom_offset (strtoull scom 0)))"

type_synonym 'k scom_conf = "byte_order \<times> 'k env \<times> 'k regview \<times> string \<times> string \<times> string"

definition scom_ok :: "'k scom_conf \<Rightarrow> bool" where
  "scom_ok c = (case c of (bo, E, V, chip, scom, data) \<Rightarrow>
     register_file E V (scom_path chip) 8 \<and> \<not> bit (strtoull scom 0) 60)"

lemma scom_open_and_seek_run:
  assumes "register_file E V (scom_dev chip) 8" and "\<not> bit scom 60"
  shows "\<exists>fd w'. scom_open_and_seek E chip scom mode w = ((0, fd), w') \<and>
    fd_pos V (kstate w') fd = Some (scom_dev chip, int (unat (scom_offset scom))) \<and>
    fd_mode V (kstate w') fd = mode AND O_ACCMODE \<and>
    register V (kstate w') = register V (kstate w) \<and> stdout w' = stdout w \<and> stderr w' = stderr w"
  using off_of_ulong_small [OF scom_offset_less [OF assms(2)]]
  by (simp add: scom_open_and_seek_def Let_def register_file_ops [OF assms(1)])

lemma rd_scom_run:
  assumes "register_file E V (scom_path chip) 8" and "\<not> bit (strtoull scom 0) 60"
  shows "\<exists>w'. rd_scom bo E [cmd, chip, scom] w = Some (0, w') \<and>
    register V (kstate w') = register V (kstate w) \<and>
    stdout w' = stdout w @ ''0x'' @
      hex 16 (unat (host_dec bo (register V (kstate w) (scom_path chip) (scom_position scom)) :: u64)) @ nl \<and>
    stderr w' = stderr w"
proof -
  obtain fd w1 where "scom_open_and_seek E (int_of_long (strtol chip 0)) (strtoull scom 0) O_RDONLY w =
      ((0, fd), w1)" "fd_pos V (kstate w1) fd = Some (scom_path chip, scom_position scom)"
    "fd_mode V (kstate w1) fd = O_RDONLY AND O_ACCMODE"
    "register V (kstate w1) = register V (kstate w)" "stdout w1 = stdout w" "stderr w1 = stderr w"
    using scom_open_and_seek_run [OF assms] unfolding scom_position_def by blast
  then show ?thesis
    by (simp add: rd_scom_def Let_def register_file_ops [OF assms(1)])
qed

lemma wr_scom_run:
  assumes "register_file E V (scom_path chip) 8" and "\<not> bit (strtoull scom 0) 60"
  shows "\<exists>w'. wr_scom bo E [cmd, chip, scom, data] w = Some (0, w') \<and>
    register V (kstate w') (scom_path chip) (scom_position scom) = host_enc bo 8 (strtoull data 0) \<and>
    stdout w' = stdout w \<and> stderr w' = stderr w"
proof -
  obtain fd w1 where "scom_open_and_seek E (int_of_long (strtol chip 0)) (strtoull scom 0) O_WRONLY w =
      ((0, fd), w1)" "fd_pos V (kstate w1) fd = Some (scom_path chip, scom_position scom)"
    "fd_mode V (kstate w1) fd = O_WRONLY AND O_ACCMODE"
    "register V (kstate w1) = register V (kstate w)" "stdout w1 = stdout w" "stderr w1 = stderr w"
    using scom_open_and_seek_run [OF assms] unfolding scom_position_def by blast
  then show ?thesis
    by (simp add: wr_scom_def Let_def register_file_ops [OF assms(1)] host_u64.length_enc)
qed

interpretation scom: register_commands
  scom_ok
  "\<lambda>(bo, E, V, chip, scom, data). wr_scom bo E [''putscom'', chip, scom, data]"
  "\<lambda>(bo, E, V, chip, scom, data). rd_scom bo E [''getscom'', chip, scom]"
  "\<lambda>(bo, E, V, chip, scom, data) k. (bo, register V k (scom_path chip) (scom_position scom))"
  "\<lambda>(bo, E, V, chip, scom, data). (bo, host_enc bo 8 (strtoull data 0))"
  "\<lambda>(bo, v). ''0x'' @ hex 16 (unat (host_dec bo v :: u64)) @ nl"
proof (unfold_locales, goal_cases)
  case (1 c w)
  then show ?case using wr_scom_run by (auto simp: scom_ok_def)
next
  case (2 c w)
  obtain bo E V chip m d where c: "c = (bo, E, V, chip, m, d)" by (cases c)
  show ?case
    using 2 rd_scom_run [of E V chip m bo "''getscom''" w] by (auto simp: scom_ok_def c)
qed

section \<open>Core numbers\<close>

text \<open>A file \<open>path\<close> of which a read of \<open>n\<close> bytes from the start delivers \<open>bs\<close>.\<close>

definition file_holds :: "'k env \<Rightarrow> string \<Rightarrow> nat \<Rightarrow> u8 list \<Rightarrow> bool" where
  "file_holds E path n bs \<longleftrightarrow> length bs \<le> n \<and>
     (\<forall>k r k' s k''. kernel E (Open path O_RDONLY) k = (r, k') \<longrightarrow> kernel E (Read (ret r) n) k' = (s, k'') \<longrightarrow>
        0 \<le> ret r \<and> ret s = int (length bs) \<and> map (buf s) [0..<length bs] = bs)"

lemma file_holds_read:
  assumes "file_holds E path n bs"
  shows "\<not> rv (sys E (Open path O_RDONLY) w) < 0"
    and "rv (sys E (Read (rv (sys E (Open path O_RDONLY) w)) n) (sys E (Open path O_RDONLY) w)) = int (length bs)"
    and "length arr = n \<Longrightarrow>
      overlay arr (sys E (Read (rv (sys E (Open path O_RDONLY) w)) n) (sys E (Open path O_RDONLY) w)) =
        bs @ drop (length bs) arr"
proof -
  let ?w1 = "sys E (Open path O_RDONLY) w"
  let ?w2 = "sys E (Read (rv ?w1) n) ?w1"
  have len: "length bs \<le> n" using assms by (simp add: file_holds_def)
  have "0 \<le> rv ?w1 \<and> rv ?w2 = int (length bs) \<and> map (buf (res ?w2)) [0..<length bs] = bs"
    using assms unfolding file_holds_def by (metis rv_def sys_kernel prod.collapse)
  then show "\<not> rv ?w1 < 0" "rv ?w2 = int (length bs)"
    "length arr = n \<Longrightarrow> overlay arr ?w2 = bs @ drop (length bs) arr"
    using len by (auto simp: overlay_def Let_def rdbuf_def min_def)
qed

text \<open>What sysfs shows for a processor: the register in hexadecimal, and a newline.\<close>

definition pir_text :: "u32 \<Rightarrow> string" where
  "pir_text pir = hex 1 (unat pir) @ nl"

definition pir_bytes :: "u32 \<Rightarrow> u8 list" where
  "pir_bytes pir = map (\<lambda>c. of_nat (of_char c)) (pir_text pir)"

lemma char_of_byte: "char_of (unat (of_nat (of_char c) :: u8)) = c"
  by (simp add: unat_of_nat take_bit_nat_def [symmetric])

lemma hex_digits:
  assumes "c \<in> set (hex v n)"
  shows "is_digit 16 c"
proof -
  obtain d where "d \<in> set (replicate (v - length (nat_digits 16 n)) 0 @ nat_digits 16 n)" "c = digit_char False d"
    using assms unfolding hex_def pad0_digits set_map by blast
  moreover from this have "d < 16" using nat_digits_less [of 16] by auto
  ultimately show ?thesis by simp
qed

lemma scan_number_hex:
  assumes "rest \<noteq> []" and "\<not> is_digit 16 (hd rest)" and "hd rest \<noteq> CHR ''x''" and "hd rest \<noteq> CHR ''X''"
  shows "scan_number 16 (hex v n @ rest) = Some (False, n, rest)"
proof -
  let ?s = "hex v n"
  have ne: "?s \<noteq> []" by (simp add: hex_def)
  have digits: "\<forall>c \<in> set ?s. is_digit 16 c" using hex_digits by blast
  obtain c cs where c: "?s = c # cs" using ne by (cases ?s) auto
  have dc: "is_digit 16 c" using digits c by simp
  have "scan_sign (dropWhile isspace (?s @ rest)) = (False, ?s @ rest)"
    using digit_not_space [OF dc] digit_no_sign [OF dc] by (simp add: c)
  moreover have "(?s @ rest) ! 1 \<noteq> CHR ''x'' \<and> (?s @ rest) ! 1 \<noteq> CHR ''X''"
  proof (cases cs)
    case Nil
    then show ?thesis using c assms by (cases rest) (auto simp: One_nat_def)
  next
    case (Cons d ds)
    then have "is_digit 16 d" using digits c by simp
    then show ?thesis using c Cons by (auto simp: One_nat_def is_digit_def digit_val_def)
  qed
  then have "scan_base 16 (?s @ rest) = (16, ?s @ rest)" by simp
  moreover have "scan_digits 16 0 (?s @ rest) = (n, rest)"
    using assms(2) scan_padded [of 16 rest v False n] by (simp add: hex_def)
  ultimately show ?thesis using c dc by (simp add: scan_number_def)
qed

lemma strtoul_pir_text: "ucast (strtoul (pir_text pir @ t) 16) = pir"
proof -
  have "scan_number 16 (hex 1 (unat pir) @ (nl @ t)) = Some (False, unat pir, nl @ t)"
    by (rule scan_number_hex) (simp_all add: nl_def is_digit_def digit_val_def)
  moreover have "unat pir < 2 ^ 64" using unsigned_less [of pir, where ?'a = nat] by simp
  moreover have "ucast (ucast pir :: u64) = pir" by (rule bit_word_eqI) (auto simp: bit_ucast_iff)
  ultimately show ?thesis
    by (simp add: strtoull_def strtoull_end_def pir_text_def)
qed

lemma c_string_pir:
  "c_string (pir_bytes pir @ rest) =
     (if 0 \<in> set rest then Some (pir_text pir @ map (\<lambda>b. char_of (unat b)) (takeWhile (\<lambda>b. b \<noteq> 0) rest)) else None)"
proof -
  have "(0 :: u8) \<notin> set (pir_bytes pir)"
  proof
    assume "(0 :: u8) \<in> set (pir_bytes pir)"
    then obtain c where c: "c \<in> set (pir_text pir)" "of_nat (of_char c) = (0 :: u8)"
      by (auto simp: pir_bytes_def)
    then have "of_char c = (0 :: nat)" using char_of_byte [of c] by auto
    then have "\<not> is_digit 16 c" "c \<notin> set nl" by (auto simp: is_digit_def digit_val_def nl_def)
    with c(1) show False using hex_digits by (auto simp: pir_text_def)
  qed
  then show ?thesis
    by (auto simp: c_string_def takeWhile_append pir_bytes_def char_of_byte comp_def)
qed

lemma cpu_to_pir_run:
  assumes "file_holds E (pir_file cpu) PIR_STR_SIZE (pir_bytes pir)" and "length stack = PIR_STR_SIZE"
  shows "if 0 \<in> set (drop (length (pir_bytes pir)) stack)
    then \<exists>w'. cpu_to_pir E stack cpu w = Some ((0, pir), w') \<and> stdout w' = stdout w \<and> stderr w' = stderr w
    else cpu_to_pir E stack cpu w = None"
  using file_holds_read(1,2) [OF assms(1)] file_holds_read(3) [OF assms]
  by (auto simp: cpu_to_pir_def Let_def c_string_pir strtoul_pir_text)



section \<open>A machine with files\<close>

text \<open>The files by path; the state is the path of the file opened last.\<close>

fun ppc_kernel :: "(string \<Rightarrow> u8 list) \<Rightarrow> string \<Rightarrow> extcall \<Rightarrow> string \<Rightarrow> sysret \<times> string" where
  "ppc_kernel F node (Open p f) k = (\<lparr>ret = 3, err = 0, buf = (\<lambda>_. 0), str = '''', ents = []\<rparr>, p)"
| "ppc_kernel F node (Read fd n) k =
     (\<lparr>ret = int (min n (length (F k))), err = 0, buf = (\<lambda>i. F k ! i), str = '''', ents = []\<rparr>, k)"
| "ppc_kernel F node (Glob p) k = (\<lparr>ret = 0, err = 0, buf = (\<lambda>_. 0), str = node, ents = []\<rparr>, k)"
| "ppc_kernel F node _ k = (\<lparr>ret = 0, err = 0, buf = (\<lambda>_. 0), str = '''', ents = []\<rparr>, k)"

definition ppc_env :: "(string \<Rightarrow> u8 list) \<Rightarrow> string \<Rightarrow> string env" where
  "ppc_env F node = \<lparr>kernel = ppc_kernel F node, strerror = (\<lambda>_. ''error''), getpagesize = 4096\<rparr>"

lemma ppc_file_holds: "length (F path) \<le> n \<Longrightarrow> file_holds (ppc_env F node) path n (F path)"
  by (auto simp: file_holds_def ppc_env_def min_def intro: nth_equalityI)


section \<open>Properties\<close>

text \<open>
  C17: the encoding of register addresses as file offsets: an offset is non-negative exactly when bit
  60 of the address is clear; an address whose bits 59 to 62 are clear has the offset eight times
  its low 59 bits, plus \<open>2 ^ 62\<close> when its high bit (indirect access) is set, and two such addresses
  have the same offset only when they are equal, so every register is reached at a place of its own.
\<close>
theorem scom_address_offset:
  assumes "scom_address_ok scom" and "scom_address_ok scom'"
  shows "(0 \<le> off_of_ulong (scom_offset any) \<longleftrightarrow> \<not> bit any 60) \<and>
    off_of_ulong (scom_offset scom) = int (unat scom mod 2 ^ 59) * 8 + (if bit scom 63 then 2 ^ 62 else 0) \<and>
    (scom_offset scom = scom_offset scom' \<longleftrightarrow> scom = scom')"
  using scom_offset_sign scom_offset_value [OF assms(1)] scom_offset_inject [OF assms] by blast

theorem scom_address_offset_witness:
  "off_of_ulong (scom_offset 0x8000000000020010) = 0x4000000000100080 \<and>
   scom_offset 0x8000000000020010 \<noteq> scom_offset 0x20010"
  using scom_address_offset [of "0x8000000000020010" "0x20010"] by (simp add: scom_address_ok_def One_nat_def)

text \<open>
  C18: on a kernel whose SCOM file of the chip behaves as a register file of 8-byte registers, the
  64-bit value written by \<open>putscom\<close> is the value \<open>getscom\<close> of the same chip and address prints,
  on hosts of either byte order, for every address whose bit 60 is clear (with bit 60 set the file
  offset would be negative).
\<close>
theorem scom_read_back:
  assumes "register_file E V (scom_path chip) 8" and "\<not> bit (strtoull scom 0) 60"
  shows "\<exists>w1 w2. wr_scom bo E [''putscom'', chip, scom, data] w = Some (0, w1) \<and>
    rd_scom bo E [''getscom'', chip, scom] (init_world (kstate w1)) = Some (0, w2) \<and>
    stdout w2 = ''0x'' @ hex 16 (unat (strtoull data 0)) @ nl \<and> strtoull (stdout w2) 0 = strtoull data 0"
proof -
  have "scom_ok (bo, E, V, chip, scom, data)" using assms by (simp add: scom_ok_def)
  from scom.read_back [OF this, of w] obtain w1 w2 where
    "wr_scom bo E [''putscom'', chip, scom, data] w = Some (0, w1)"
    "rd_scom bo E [''getscom'', chip, scom] (init_world (kstate w1)) = Some (0, w2)"
    and out: "stdout w2 = ''0x'' @ hex 16 (unat (strtoull data 0)) @ nl"
    by (auto simp: host_u64.dec_enc)
  moreover have "strtoull (stdout w2) 0 = strtoull data 0"
    unfolding out by (rule strtoull_printed)
  ultimately show ?thesis by blast
qed

theorem scom_read_back_witness:
  "\<exists>w1 w2. wr_scom Big one_file_env [''putscom'', ''8'', ''0x20010'', ''0x1234''] (init_world (\<lambda>_. 0, 0)) = Some (0, w1) \<and>
     rd_scom Big one_file_env [''getscom'', ''8'', ''0x20010''] (init_world (kstate w1)) = Some (0, w2) \<and>
     strtoull (stdout w2) 0 = 0x1234"
proof -
  have "strtoull ''0x20010'' 0 = 0x20010" and "strtoull ''0x1234'' 0 = 0x1234"
    by (simp_all add: strto_eval)
  then show ?thesis
    using scom_read_back [OF one_file_register_file, of "''0x20010''" Big "''8''" "''0x1234''" "init_world (\<lambda>_. 0, 0)"]
    by fastforce
qed

text \<open>
  C35: \<open>cputoex\<close> prints the core number, bits 3 to 6 of the processor identification register that
  sysfs shows, provided a NUL happens to follow in the uninitialised array the text was read into; when
  none does, the array is not a string and scanning it is undefined.
\<close>
theorem cputoex_prints:
  assumes "file_holds E (pir_file (int_of_ulong (strtoul a 0))) PIR_STR_SIZE (pir_bytes pir)"
    and "length stack = PIR_STR_SIZE"
  shows "if 0 \<in> set (drop (length (pir_bytes pir)) stack)
    then \<exists>w'. cpu_to_ex stack E [cmd, a] w = Some (0, w') \<and>
      stdout w' = stdout w @ dec_nat (unat pir div 8 mod 16) @ nl \<and> stderr w' = stderr w
    else cpu_to_ex stack E [cmd, a] w = None"
proof -
  have "drop_bit 3 pir AND 0xf = take_bit 4 (drop_bit 3 pir)"
    by (simp add: take_bit_eq_mask mask_eq_exp_minus_1)
  moreover have "unat pir < 2 ^ 32" using unsigned_less [of pir, where ?'a = nat] by simp
  ultimately have "unat (drop_bit 3 pir AND 0xf) = unat pir div 8 mod 16"
    by (simp only: unsigned_take_bit_eq unsigned_drop_bit_eq) (simp add: take_bit_eq_mod drop_bit_eq_div)
  then show ?thesis
    using cpu_to_pir_run [OF assms, of w] by (auto simp: cpu_to_ex_def One_nat_def split: if_splits)
qed

theorem cputoex_prints_witness:
  "\<exists>w'. cpu_to_ex (replicate PIR_STR_SIZE 0) (ppc_env (\<lambda>_. pir_bytes 0x2a) '''') [''cputoex'', ''5''] (init_world '''') =
     Some (0, w') \<and> stdout w' = ''5'' @ nl"
proof -
  have b: "pir_bytes 0x2a = [0x32, 0x61, 0x0a]"
    by (simp add: pir_bytes_def pir_text_def nl_def print_eval)
  have "file_holds (ppc_env (\<lambda>_. pir_bytes 0x2a) '''') (pir_file (int_of_ulong (strtoul ''5'' 0))) PIR_STR_SIZE
      (pir_bytes 0x2a)"
    by (rule ppc_file_holds [of "\<lambda>_. pir_bytes 0x2a"]) (simp add: b PIR_STR_SIZE_def)
  moreover have "0 \<in> set (drop (length (pir_bytes 0x2a)) (replicate PIR_STR_SIZE (0 :: u8)))"
    by (simp add: b PIR_STR_SIZE_def)
  moreover have "dec_nat (unat (0x2a :: u32) div 8 mod 16) = ''5''" by (simp add: print_eval)
  ultimately show ?thesis
    using cputoex_prints [of "ppc_env (\<lambda>_. pir_bytes 0x2a) ''''" "''5''" "0x2a" "replicate PIR_STR_SIZE 0"
        "''cputoex''" "init_world ''''"]
    by auto
qed



end
