(* ===== verification/Klibc.thy ===== *)
theory Klibc
  imports Misc Logic
begin

text \<open>
  The processor sets of the klibc build, \<^verbatim>\<open>src/misc.c\<close>: where the library has no
  \<^verbatim>\<open>cpu_set_t\<close> the file defines its own, an array of 16 masks of 64 bits.  The set lives on
  the stack of \<open>set_cpu_affinity\<close>; its contents before \<^verbatim>\<open>CPU_ZERO\<close> are the parameter
  \<open>stack\<close>.  The theory relates this build to the one of glibc in \<open>Misc\<close>.
\<close>

section \<open>Sets\<close>

type_synonym cpu_set = "u64 list"

definition CPU_MASKS :: nat where
  "CPU_MASKS = 1024 div 64"

text \<open>\<^verbatim>\<open>sizeof(set)\<close> is the size of the pointer: only the first mask is cleared.\<close>

definition klibc_CPU_ZERO :: "cpu_set \<Rightarrow> cpu_set" where
  "klibc_CPU_ZERO s = s[0 := 0]"

text \<open>
  The processor number is converted to \<^verbatim>\<open>unsigned long\<close> for the division; an index outside the
  array is undefined, and so is a shift of the \<^verbatim>\<open>int\<close> 1 by 32 or more.
\<close>

definition klibc_CPU_SET :: "int \<Rightarrow> cpu_set \<Rightarrow> cpu_set option" where
  "klibc_CPU_SET cpu s =
     (let c = word_of_int cpu :: u64; i = unat (c div 64) in
      if i < length s then do {
        m \<leftarrow> int_bit (c mod 64);
        Some (s[i := s ! i OR m])
      } else None)"

text \<open>The processors in a set, as the kernel reads the masks.\<close>

definition cpus_of :: "cpu_set \<Rightarrow> nat list" where
  "cpus_of s = filter (\<lambda>n. bit (s ! (n div 64)) (n mod 64)) [0..<64 * length s]"

definition klibc_set_cpu_affinity :: "'k env \<Rightarrow> cpu_set \<Rightarrow> int \<Rightarrow> 'k world \<Rightarrow> ('k, int) result" where
  "klibc_set_cpu_affinity E stack cpu w = do {
     let cpuset = klibc_CPU_ZERO stack;
     cpuset \<leftarrow> klibc_CPU_SET cpu cpuset;
     let w = sys E (Sched_setaffinity (cpus_of cpuset)) w;
     if rv w < 0 then Some (- 1, perror E ''sched_setaffinity()'' w) else Some (0, w)
   }"

section \<open>What is set\<close>

lemma word_of_cpu:
  assumes "0 \<le> cpu" and "cpu < 1024"
  shows "unat (word_of_int cpu :: u64) = nat cpu"
  using assms by (simp add: unat_eq_nat_uint uint_word_of_int)

lemma klibc_CPU_SET_index:
  assumes "0 \<le> cpu" and "cpu < 1024"
  shows "unat ((word_of_int cpu :: u64) div 64) = nat cpu div 64"
    and "unat ((word_of_int cpu :: u64) mod 64) = nat cpu mod 64"
  using word_of_cpu [OF assms] by (simp_all add: unat_div unat_mod)

lemma klibc_CPU_SET_outside:
  assumes "cpu < 0 \<or> 1024 \<le> cpu" and "- (2 ^ 31) \<le> cpu" and "cpu < 2 ^ 31" and "length s = CPU_MASKS"
  shows "klibc_CPU_SET cpu s = None"
proof -
  have u: "uint (word_of_int cpu :: u64) = (if cpu < 0 then cpu + 2 ^ 64 else cpu)"
  proof (cases "cpu < 0")
    case True
    then have "cpu mod 2 ^ 64 = (cpu + 2 ^ 64) mod 2 ^ 64" by simp
    also have "\<dots> = cpu + 2 ^ 64" using True assms(2) by (intro mod_pos_pos_trivial) simp_all
    finally show ?thesis using True by (simp add: uint_word_of_int)
  next
    case False
    then show ?thesis using assms(3) by (simp add: uint_word_of_int)
  qed
  have "1024 \<le> uint (word_of_int cpu :: u64)" using assms(1,2) by (auto simp: u)
  then have "1024 \<le> unat (word_of_int cpu :: u64)" using nat_mono by fastforce
  then have "16 \<le> unat ((word_of_int cpu :: u64) div 64)" by (simp add: unat_div)
  then show ?thesis by (simp add: klibc_CPU_SET_def Let_def assms(4) CPU_MASKS_def)
qed

lemma klibc_CPU_SET_inside:
  assumes "0 \<le> cpu" and "cpu < 1024" and "length s = CPU_MASKS"
  shows "klibc_CPU_SET cpu s =
    map_option (\<lambda>m. s[nat cpu div 64 := s ! (nat cpu div 64) OR m]) (int_bit (word_of_int cpu mod 64))"
proof -
  have "nat cpu div 64 < 16" using assms(2) by linarith
  then show ?thesis
    using klibc_CPU_SET_index [OF assms(1,2)] assms(3)
    by (cases "int_bit (word_of_int cpu mod 64)") (simp_all add: klibc_CPU_SET_def Let_def CPU_MASKS_def)
qed

lemma int_bit_defined:
  assumes "0 \<le> cpu" and "cpu < 1024"
  shows "int_bit (word_of_int cpu mod 64) = None \<longleftrightarrow> 32 \<le> nat cpu mod 64"
    and "nat cpu mod 64 < 31 \<Longrightarrow> int_bit (word_of_int cpu mod 64) = Some (push_bit (nat cpu mod 64) 1)"
  using klibc_CPU_SET_index(2) [OF assms] int_bit_small [of "word_of_int cpu mod 64"]
  by (auto simp: int_bit_def word_less_nat_alt)

lemma nat_mod_64: "0 \<le> cpu \<Longrightarrow> int (nat cpu mod 64) = cpu mod 64"
  by (simp add: zmod_int)

lemma filter_upt_eq: "n < m \<Longrightarrow> filter (\<lambda>k. k = n) [0..<m] = [n]"
  by (induction m) (auto simp: less_Suc_eq filter_empty_conv)

lemma klibc_cpus:
  assumes "0 \<le> cpu" and "cpu < 1024" and "nat cpu mod 64 < 31" and "length stack = CPU_MASKS"
  shows "\<exists>s. klibc_CPU_SET cpu (klibc_CPU_ZERO stack) = Some s \<and>
    cpus_of s = filter (\<lambda>n. n = nat cpu \<or> 64 \<le> n \<and> bit (stack ! (n div 64)) (n mod 64)) [0..<1024]"
proof -
  let ?z = "klibc_CPU_ZERO stack" and ?i = "nat cpu div 64"
  let ?s = "?z[?i := ?z ! ?i OR push_bit (nat cpu mod 64) 1]"
  have len: "length ?z = CPU_MASKS" by (simp add: klibc_CPU_ZERO_def assms(4))
  have i: "?i < 16" using assms(2) by linarith
  have key: "bit (?s ! (n div 64)) (n mod 64) \<longleftrightarrow> n = nat cpu \<or> 64 \<le> n \<and> bit (stack ! (n div 64)) (n mod 64)"
    if "n < 1024" for n
  proof -
    have n: "n div 64 < 16" using that by linarith
    have z: "bit (?z ! (n div 64)) (n mod 64) \<longleftrightarrow> 64 \<le> n \<and> bit (stack ! (n div 64)) (n mod 64)"
      using n by (cases "n div 64 = 0") (auto simp: klibc_CPU_ZERO_def assms(4) CPU_MASKS_def nth_list_update)
    have "bit (push_bit (nat cpu mod 64) (1 :: u64)) (n mod 64) \<longleftrightarrow> n mod 64 = nat cpu mod 64"
      by (auto simp: bit_exp_iff)
    moreover have "n = nat cpu \<longleftrightarrow> n div 64 = ?i \<and> n mod 64 = nat cpu mod 64"
      by (metis div_mod_decomp)
    ultimately show ?thesis
      using z n i len by (auto simp: nth_list_update bit_or_iff CPU_MASKS_def)
  qed
  have "cpus_of ?s = filter (\<lambda>n. n = nat cpu \<or> 64 \<le> n \<and> bit (stack ! (n div 64)) (n mod 64)) [0..<1024]"
    unfolding cpus_of_def by (rule filter_cong) (simp add: len CPU_MASKS_def, rule key, simp)
  then show ?thesis
    using klibc_CPU_SET_inside [OF assms(1,2) len] int_bit_defined(2) [OF assms(1,2,3)] by simp
qed

lemma klibc_affinity_None:
  assumes "length stack = CPU_MASKS" and "- (2 ^ 31) \<le> cpu" and "cpu < 2 ^ 31"
  shows "klibc_set_cpu_affinity E stack cpu w = None \<longleftrightarrow> \<not> (0 \<le> cpu \<and> cpu < 1024 \<and> cpu mod 64 < 32)"
proof -
  have len: "length (klibc_CPU_ZERO stack) = CPU_MASKS" by (simp add: klibc_CPU_ZERO_def assms(1))
  have "klibc_set_cpu_affinity E stack cpu w = None \<longleftrightarrow> klibc_CPU_SET cpu (klibc_CPU_ZERO stack) = None"
    by (cases "klibc_CPU_SET cpu (klibc_CPU_ZERO stack)") (simp_all add: klibc_set_cpu_affinity_def Let_def)
  also have "\<dots> \<longleftrightarrow> \<not> (0 \<le> cpu \<and> cpu < 1024 \<and> cpu mod 64 < 32)"
  proof (cases "0 \<le> cpu \<and> cpu < 1024")
    case True
    then have "nat cpu mod 64 < 32 \<longleftrightarrow> cpu mod 64 < 32" using nat_mod_64 [of cpu] by linarith
    with True show ?thesis
      using klibc_CPU_SET_inside [OF _ _ len, of cpu] int_bit_defined(1) [of cpu] by (auto simp: not_less)
  next
    case False
    then show ?thesis using klibc_CPU_SET_outside [OF _ assms(2,3) len] by auto
  qed
  finally show ?thesis .
qed

section \<open>Properties\<close>

text \<open>
  C20: with the processor sets of the klibc build, setting the affinity is undefined exactly for
  processor numbers outside 0 to 1023 and for those whose position in their mask is 32 or more; for
  positions below 31 the set passed to the kernel has the requested processor and, in addition, every
  processor from 64 on whose bit happened to be set on the stack, since clearing the set clears its
  first mask only.  When the stack was clear there, the build behaves as the one with glibc.
\<close>
theorem klibc_affinity:
  assumes "length stack = CPU_MASKS" and "- (2 ^ 31) \<le> cpu" and "cpu < 2 ^ 31"
  shows "(klibc_set_cpu_affinity E stack cpu w = None \<longleftrightarrow> \<not> (0 \<le> cpu \<and> cpu < 1024 \<and> cpu mod 64 < 32)) \<and>
    (0 \<le> cpu \<and> cpu < 1024 \<and> cpu mod 64 < 31 \<longrightarrow>
      (\<exists>s. klibc_CPU_SET cpu (klibc_CPU_ZERO stack) = Some s \<and>
        set (cpus_of s) = insert (nat cpu) {n. 64 \<le> n \<and> n < 1024 \<and> bit (stack ! (n div 64)) (n mod 64)}) \<and>
      ((\<forall>n \<in> {64..<1024}. \<not> bit (stack ! (n div 64)) (n mod 64)) \<longrightarrow>
        klibc_set_cpu_affinity E stack cpu w = Some (set_cpu_affinity E cpu w)))"
proof -
  show ?thesis
  proof (intro conjI impI klibc_affinity_None [OF assms])
    assume c: "0 \<le> cpu \<and> cpu < 1024 \<and> cpu mod 64 < 31"
    then have "nat cpu mod 64 < 31" using nat_mod_64 [of cpu] by linarith
    then obtain s where s: "klibc_CPU_SET cpu (klibc_CPU_ZERO stack) = Some s"
      "cpus_of s = filter (\<lambda>n. n = nat cpu \<or> 64 \<le> n \<and> bit (stack ! (n div 64)) (n mod 64)) [0..<1024]"
      using klibc_cpus c assms(1) by blast
    then show "\<exists>s. klibc_CPU_SET cpu (klibc_CPU_ZERO stack) = Some s \<and>
        set (cpus_of s) = insert (nat cpu) {n. 64 \<le> n \<and> n < 1024 \<and> bit (stack ! (n div 64)) (n mod 64)}"
      using c by auto
    assume z: "\<forall>n \<in> {64..<1024}. \<not> bit (stack ! (n div 64)) (n mod 64)"
    have "cpus_of s = filter (\<lambda>n. n = nat cpu) [0..<1024]"
      unfolding s(2) using z by (intro filter_cong) auto
    also have "\<dots> = [nat cpu]" using c by (intro filter_upt_eq) linarith
    finally show "klibc_set_cpu_affinity E stack cpu w = Some (set_cpu_affinity E cpu w)"
      using c by (simp add: klibc_set_cpu_affinity_def s(1) set_cpu_affinity_def cpu_set_of_def CPU_SETSIZE_def Let_def)
  qed
qed

theorem klibc_affinity_witness:
  "klibc_set_cpu_affinity clock_env (replicate CPU_MASKS 0) 3 (init_world 0) =
     Some (set_cpu_affinity clock_env 3 (init_world 0)) \<and>
   klibc_set_cpu_affinity clock_env (replicate CPU_MASKS 0) 40 (init_world 0) = None"
  using klibc_affinity [of "replicate CPU_MASKS 0" 3 clock_env "init_world 0"]
    klibc_affinity [of "replicate CPU_MASKS 0" 40 clock_env "init_world 0"]
  by (auto simp: CPU_MASKS_def)

end
