(* ===== verification/Spec2Isabelle.thy ===== *)
theory Spec2Isabelle
  imports Logic Cmos_rw Msr Mmio_rw Smbus_facts Pci_rw Io_rw Misc Links Scom Klibc
begin

text \<open>
  Verification development for \<^verbatim>\<open>iotools\<close>, a command line program for Linux that reads and
  writes hardware registers: CMOS, I/O ports, memory-mapped registers, PCI configuration space, model
  specific registers, SMBus slaves, plus arithmetic and scheduling helpers for scripts.

  \<^bold>\<open>The program.\<close>  \<^verbatim>\<open>main\<close> (\<^verbatim>\<open>src/iotools.c\<close>) calls
  \<^verbatim>\<open>run_command\<close> (\<^verbatim>\<open>src/commands.c\<close>), which looks the command up in the groups that
  each source file registers from a constructor, checks the argument count and the I/O privilege, and
  calls the entry point.  The entry points parse their arguments, open a device file, transfer a value
  and print it.

  \<^bold>\<open>How it is modelled.\<close>  The theory \<open>Syscalls\<close> fixes the boundary: each system call and
  privileged instruction is a value of \<^typ>\<open>extcall\<close>, the machine's answers come from the
  \<open>kernel\<close> of an environment that is a parameter of every operation, the process is a
  \<open>world\<close> record (machine state, last answer, \<^verbatim>\<open>errno\<close>, output streams, memory
  mappings, call trace).
  An operation returns \<open>Some (rc, world')\<close>, or \<open>None\<close> where the C code has undefined
  behaviour.  \<open>Prelude\<close> holds the C integer conversions and the byte images of objects,
  \<open>CLib\<close> the number scanners and \<^verbatim>\<open>printf\<close> conversions with their round trips,
  \<open>Numerals\<close> the grammar of C integer constants, independent of the scanners, and the proof that
  \<^verbatim>\<open>strtoul\<close> reads a whole string exactly when the grammar has it.

  \<^descr> \<open>Commands\<close>: \<^verbatim>\<open>src/commands.h\<close>, \<^verbatim>\<open>src/commands.c\<close>,
  \<^verbatim>\<open>src/iotools.c\<close>; the tables' data types, lookup, prerequisites, dispatch, links, fallback.
  The locale \<open>entry_points\<close> is the contract between this layer and the components.
  \<open>Registration\<close> treats the order of the constructors, \<open>Links\<close> the symbolic links over a view
  of the file system.  The locale \<open>clean_entries\<close> is the contract towards the descriptor table.
  \<^descr> \<open>Logic\<close>: \<^verbatim>\<open>src/logic.c\<close>; \<open>Cmos_rw\<close>: \<^verbatim>\<open>src/cmos_rw.c\<close>;
  \<open>Msr\<close>: \<^verbatim>\<open>src/msr.c\<close>; \<open>Mmio_rw\<close>: \<^verbatim>\<open>src/mmio_rw.c\<close>; \<open>Pci_rw\<close>:
  \<^verbatim>\<open>src/pci_rw.c\<close>; \<open>Io_rw\<close>: \<^verbatim>\<open>src/io_rw.c\<close>; \<open>Misc\<close>:
  \<^verbatim>\<open>src/misc.c\<close>, with \<open>Klibc\<close> for the processor sets of the klibc build; \<open>Scom\<close>:
  \<^verbatim>\<open>src/scom.c\<close> (PowerPC builds); \<open>Platform\<close>: \<^verbatim>\<open>src/platform.h\<close>, the byte
  order of the host.
  \<^descr> \<open>I2c_dev\<close>: the wrappers of \<^verbatim>\<open>src/linux-i2c-dev.h\<close>; \<open>Smbus_rw\<close>: the model of
  \<^verbatim>\<open>src/smbus_rw.c\<close>; \<open>Smbus_facts\<close>: its properties, over slaves that answer a block
  read with as many bytes as were requested (\<open>smbus_slave\<close>).  The transfer buffers have their
  bounds: a message longer than its array is undefined.
  \<^descr> \<open>Device\<close>: what the register commands rely on of a device file (\<open>register_file\<close>, a
  hypothesis of the read-back theorems only: a descriptor can be read or written only in the access mode
  it was opened with) and the locale \<open>register_commands\<close> with the read-back
  guarantees, interpreted for CMOS, MSR, PCI, ports, memory, SMBus and SCOM commands.  Scripts of such commands, each
  run in its own process, are the inductive relation \<open>script\<close>; the locale \<open>addressed_register\<close>
  shows that they refine an abstract register, and is interpreted for MSR, PCI and memory commands.

  The names of definitions are those of the C functions; a suffix or prefix is added where several
  files use one name or HOL has it already.  The function pointer of a table entry is a value of
  \<open>entry_fn\<close>; \<open>call_entry\<close> below is the call through it.

  \<^bold>\<open>What is proved.\<close>  Functional behaviour of each command on success and failure; read-back
  round trips; no undefined behaviour of the whole program under stated bounds on its arguments
  (\<open>program_returns\<close>); no descriptor left open by the whole program but through four entry points
  (\<open>program_descriptors\<close>); memory safety of the mapping and SMBus code; dispatch, links and
  registration order; independence of the host's byte order; and, as theorems, the defects
  of the code that modelling showed: descriptors that stay open, a process call that prints the word
  it sent, a 32-bit truncation of the dump length, bit numbers of 32 and more, byte arguments that are
  empty or wrap around, processor numbers that are reduced to 32 bits.

  \<^bold>\<open>Fuel.\<close>  Only \<open>busy_loop\<close> may run forever; it takes the number of iterations it may
  make.  \<open>busy_loop_returns\<close> gives enough fuel for a given count under a clock that advances,
  \<open>busy_loop_endless\<close> shows that without a count no fuel is enough.  All other loops are structural
  or have a measure.

  \<^bold>\<open>Bounds.\<close>  The platform is LP64 and, except in \<open>Scom\<close> and \<open>pci_host_order\<close>, little endian; \<^verbatim>\<open>int\<close>
  values are integers in their range, other machine integers are words.  A dereference of a mapping
  faults unless the range is mapped with the protection it needs; misaligned dereferences, which the C
  standard leaves undefined, are taken as x86-64 executes them.  SCOM addresses are followed up to the
  file offset the program computes; what the kernel does with the offset is not modelled, so
  \<open>scom_address_offset\<close> is about the offsets alone.

  \<^bold>\<open>Not modelled.\<close>  Failures of the standard output streams (\<^verbatim>\<open>fwrite\<close> and
  \<^verbatim>\<open>printf\<close> are assumed to write); \<^verbatim>\<open>errno\<close> left by calls that succeed; concurrency
  with other processes, except through the arbitrary answers of the kernel; the warning that 32-bit
  builds print for 64-bit accesses; the \<^verbatim>\<open>I2C_FUNC\<close> constants and the retry, timeout and
  ten-bit requests of \<^verbatim>\<open>src/linux-i2c-dev.h\<close>, which the program does not use; the Makefile.
\<close>

section \<open>The entry points and the command table\<close>

text \<open>
  The call \<^verbatim>\<open>cmd_info->entry(argc, argv, cmd_info)\<close>: \<open>fuel\<close> bounds the iterations of
  \<open>busy_loop\<close>, \<open>junk\<close> is the uninitialised stack of the SMBus entry points.
\<close>

definition call_entry :: "nat \<Rightarrow> smbus_op_params \<Rightarrow> 'k invoke" where
  "call_entry fuel junk E argv info w =
     (case entry info of
        E_logic_op \<Rightarrow> logic_op argv info w
      | E_not \<Rightarrow> not_cmd argv w
      | E_shift \<Rightarrow> shift argv info w
      | E_cmos_rd \<Rightarrow> cmos_rd E argv w
      | E_cmos_wr \<Rightarrow> cmos_wr E argv w
      | E_io_read_x \<Rightarrow> io_read_x E argv info w
      | E_io_write_x \<Rightarrow> io_write_x E argv info w
      | E_mmio_read_x \<Rightarrow> mmio_read_x E argv info w
      | E_mmio_write_x \<Rightarrow> mmio_write_x E argv info w
      | E_mmio_dump \<Rightarrow> mmio_dump E argv info w
      | E_pci_read_x \<Rightarrow> pci_read_x E argv info w
      | E_pci_write_x \<Rightarrow> pci_write_x E argv info w
      | E_pci_list \<Rightarrow> pci_list E w
      | E_rd_msr \<Rightarrow> rd_msr E argv w
      | E_wr_msr \<Rightarrow> wr_msr E argv w
      | E_rdtsc \<Rightarrow> rdtsc E w
      | E_cpuid \<Rightarrow> cpuid E argv w
      | E_busy_loop \<Rightarrow> busy_loop fuel E argv w
      | E_cpu_list \<Rightarrow> cpu_list E w
      | E_runon \<Rightarrow> runon E argv w
      | E_smbus_read \<Rightarrow> smbus_call E junk argv info w
      | E_smbus_write \<Rightarrow> smbus_call E junk argv info w
      | E_smbus_process_call \<Rightarrow> smbus_call E junk argv info w
      | E_smbus_writeread \<Rightarrow> smbus_call E junk argv info w
      | E_rd_scom \<Rightarrow> None
      | E_wr_scom \<Rightarrow> None
      | E_cpu_to_chipid \<Rightarrow> None
      | E_cpu_to_ex \<Rightarrow> None)"

definition all_groups :: "cmd_group list" where
  "all_groups = [CMOS_group, IO_group, LOGIC_group, MISC_group, MMIO_group, MEM_group, MSR_group, PCI_group,
     SMBus_group]"

lemmas group_defs = CMOS_group_def IO_group_def LOGIC_group_def MISC_group_def MMIO_group_def MEM_group_def
  MSR_group_def PCI_group_def SMBus_group_def

lemma all_cmds_table:
  "all_cmds all_groups = cmos_cmds @ io_cmds @ logic_cmds @ misc_cmds @ mmio_cmds @ cacheable_mmio_cmds @
     msr_cmds @ pci_cmds @ smbus_cmds"
  by (simp add: all_groups_def group_defs)

lemmas cmds_defs = cmos_cmds_def io_cmds_def MAKE_IO_RW_CMD_PAIR_def logic_cmds_def misc_cmds_def
  mmio_cmds_defs msr_cmds_def pci_cmds_def MAKE_PCI_RW_CMD_PAIR_def smbus_cmds_def MAKE_SMBUS_RW_CMDS_def

lemma command_names: "map name (all_cmds all_groups) =
  [''cmos_read'', ''cmos_write'',
   ''io_read8'', ''io_write8'', ''io_read16'', ''io_write16'', ''io_read32'', ''io_write32'',
   ''or'', ''and'', ''xor'', ''shl'', ''shr'', ''not'', ''btr'', ''bts'',
   ''rdtsc'', ''cpuid'', ''busy_loop'', ''cpu_list'', ''runon'',
   ''mmio_read8'', ''mmio_write8'', ''mmio_read16'', ''mmio_write16'', ''mmio_read32'', ''mmio_write32'',
   ''mmio_read64'', ''mmio_write64'', ''mmio_dump'',
   ''mem_read8'', ''mem_write8'', ''mem_read16'', ''mem_write16'', ''mem_read32'', ''mem_write32'',
   ''mem_read64'', ''mem_write64'', ''mem_dump'',
   ''rdmsr'', ''wrmsr'',
   ''pci_read8'', ''pci_write8'', ''pci_read16'', ''pci_write16'', ''pci_read32'', ''pci_write32'', ''pci_list'',
   ''smbus_read8'', ''smbus_write8'', ''smbus_read16'', ''smbus_write16'', ''smbus_read32'', ''smbus_write32'',
   ''smbus_read64'', ''smbus_write64'', ''smbus_readblock'', ''smbus_writeblock'', ''smbus_receive_byte'',
   ''smbus_send_byte'', ''smbus_quick'', ''smbus_process_call'', ''smbus_block_process_call'', ''smbus_writeread'']"
  by (simp add: all_cmds_table cmds_defs make_cmd_defs)

lemma command_names_distinct: "distinct (map name (all_cmds all_groups))"
  unfolding command_names by simp

lemma command_names_plain:
  assumes "info \<in> set (all_cmds all_groups)"
  shows "CHR ''/'' \<notin> set (name info) \<and> length (name info) \<le> 24"
proof -
  have "list_all (\<lambda>n. CHR ''/'' \<notin> set n \<and> length n \<le> 24) (map name (all_cmds all_groups))"
    unfolding command_names by simp
  with assms show ?thesis by (simp add: list_all_iff)
qed


section \<open>Every entry point returns\<close>

text \<open>
  The runs on which no entry point is undefined: the machine keeps its documented bounds (the page
  size is a power of two, a block answer is at most 32 bytes), shift and bit numbers are within the
  width, a dump does not wrap, and the endless command is left out.
\<close>

definition benign :: "'k env \<Rightarrow> string list \<Rightarrow> cmd_info \<Rightarrow> bool" where
  "benign E argv info \<longleftrightarrow> page_ok E \<and> block_length_ok E \<and>
     (entry info = E_shift \<longrightarrow> strtoul (argv ! 2) 0 < 64) \<and>
     (privdata info = Logic_info BTS_OP \<or> privdata info = Logic_info BTR_OP \<longrightarrow> strtoull (argv ! 2) 0 < 32) \<and>
     (entry info = E_mmio_dump \<longrightarrow> unat (strtoul (argv ! 2) 0) + getpagesize E < 2 ^ 32) \<and>
     entry info \<noteq> E_busy_loop"

lemma int_args:
  "args_in_bounds info argv \<Longrightarrow> params info = Some p \<Longrightarrow> min_args p \<le> int (length argv) \<and> int (length argv) \<le> max_args p"
  by (simp add: args_in_bounds_def)

lemma logic_loop_defined:
  assumes "op = OR_OP \<or> op = AND_OP \<or> op = XOR_OP"
  shows "logic_loop op as x rc w \<noteq> None"
  using assms by (induction as arbitrary: x rc w) (auto simp: Let_def)

lemma logic_loop_bit_defined:
  assumes "op = BTS_OP \<or> op = BTR_OP" and "length argv = 3" and "strtoull (argv ! 2) 0 < 32"
  shows "logic_loop op (drop 2 argv) x rc w \<noteq> None"
proof -
  have "drop 2 argv = [argv ! 2]"
    using assms(2) by (simp add: list_eq_iff_nth_eq)
  with assms(1,3) show ?thesis by (auto simp: int_bit_def Let_def)
qed

lemma logic_table:
  assumes "info \<in> set logic_cmds"
  obtains (fold) op where "entry info = E_logic_op" "privdata info = Logic_info op"
      "op = OR_OP \<or> op = AND_OP \<or> op = XOR_OP" "params info = Some logic_op_params"
    | (bit) op where "entry info = E_logic_op" "privdata info = Logic_info op" "op = BTS_OP \<or> op = BTR_OP"
      "params info = Some bit_params"
    | (shift) op where "entry info = E_shift" "privdata info = Logic_info op" "params info = Some shift_params"
    | (invert) "entry info = E_not" "params info = Some not_params"
  using assms by (auto simp: logic_cmds_def MAKE_CMD_WITH_PARAMS_def)

lemmas bounds_simps = args_in_bounds_def VAR_ARGS_def FIXED_ARGS_def

lemma logic_entry_returns:
  assumes "info \<in> set logic_cmds" and "args_in_bounds info argv" and "benign E argv info"
  shows "call_entry fuel junk E argv info w \<noteq> None"
  using assms(1)
proof (cases rule: logic_table)
  case (fold op)
  then have "2 \<le> length argv" using assms(2) by (simp add: bounds_simps logic_op_params_def)
  with fold logic_loop_defined [of op] show ?thesis by (simp add: call_entry_def logic_op_def)
next
  case (bit op)
  then have "length argv = 3" "strtoull (argv ! 2) 0 < 32"
    using assms(2,3) by (auto simp: bounds_simps bit_params_def benign_def)
  with bit logic_loop_bit_defined [of op] show ?thesis by (simp add: call_entry_def logic_op_def)
next
  case (shift op)
  then have "length argv = 3" "strtoul (argv ! 2) 0 < 64"
    using assms(2,3) by (auto simp: bounds_simps shift_params_def benign_def)
  with shift show ?thesis by (cases op) (simp_all add: call_entry_def Logic.shift_def Let_def)
next
  case invert
  then have "length argv = 2" using assms(2) by (simp add: bounds_simps not_params_def)
  with invert show ?thesis by (simp add: call_entry_def not_cmd_def Let_def)
qed

lemma cmos_msr_entry_returns:
  assumes "info \<in> set cmos_cmds \<union> set msr_cmds" and "args_in_bounds info argv"
  shows "call_entry fuel junk E argv info w \<noteq> None"
  using assms
  by (auto simp: cmos_cmds_def msr_cmds_def MAKE_CMD_WITH_PARAMS_def bounds_simps cmos_params_defs msr_params_defs
      call_entry_def cmos_rd_def cmos_wr_def rd_msr_def wr_msr_def Let_def split: prod.splits)

lemma misc_entry_returns:
  assumes "info \<in> set misc_cmds" and "args_in_bounds info argv" and "entry info \<noteq> E_busy_loop"
  shows "call_entry fuel junk E argv info w \<noteq> None"
  using assms
  by (auto simp: misc_cmds_def make_cmd_defs args_in_bounds_def misc_params_defs
      call_entry_def rdtsc_def cpuid_def cpu_list_def runon_def Let_def split: prod.splits)


lemma io_table:
  assumes "info \<in> set io_cmds"
  shows "entry info = E_io_read_x \<and> params info = Some io_rd_params \<or>
    entry info = E_io_write_x \<and> params info = Some io_wr_params"
  using assms by (auto simp: io_cmds_def MAKE_IO_RW_CMD_PAIR_def MAKE_CMD_WITH_PARAMS_SIZE_def)

lemma io_entry_returns:
  assumes "info \<in> set io_cmds" and "args_in_bounds info argv"
  shows "call_entry fuel junk E argv info w \<noteq> None"
  using io_table [OF assms(1)] assms(2)
  by (auto simp: bounds_simps io_params_defs call_entry_def io_read_x_def io_write_x_def Let_def
      split: option.splits IO_SIZE.splits)

lemma mmio_table:
  assumes "info \<in> set mmio_cmds \<union> set cacheable_mmio_cmds"
  shows "(entry info = E_mmio_read_x \<and> params info = Some mmio_rd_params \<or>
      entry info = E_mmio_write_x \<and> params info = Some mmio_wr_params \<or>
      entry info = E_mmio_dump \<and> params info = Some dump_params) \<and>
    (\<exists>fl. flags_of info = Some fl \<and> fl AND O_ACCMODE = O_RDONLY)"
  using assms
  by (auto simp: mmio_cmds_defs MAKE_CMD_WITH_PARAMS_SIZE_def MAKE_CMD_WITH_PARAMS_def flags_of_def
      cacheable_access_def uncacheable_access_def flag_defs)

lemma mmio_entry_returns:
  assumes "info \<in> set mmio_cmds \<union> set cacheable_mmio_cmds" and "args_in_bounds info argv" and "benign E argv info"
  shows "call_entry fuel junk E argv info w \<noteq> None"
proof -
  obtain fl where fl: "flags_of info = Some fl" "fl AND O_ACCMODE = O_RDONLY" using mmio_table [OF assms(1)] by blast
  have page: "page_ok E" using assms(3) by (simp add: benign_def)
  consider "entry info = E_mmio_read_x" "params info = Some mmio_rd_params"
    | "entry info = E_mmio_write_x" "params info = Some mmio_wr_params"
    | "entry info = E_mmio_dump" "params info = Some dump_params"
    using mmio_table [OF assms(1)] by blast
  then show ?thesis
  proof cases
    case 1
    then show ?thesis
      using assms(2) mmio_read_x_defined [OF page fl(1) _ fl(2), of argv w]
      by (simp add: bounds_simps mmio_params_defs call_entry_def)
  next
    case 2
    then show ?thesis
      using assms(2) mmio_write_x_defined [OF page, of argv info w]
      by (simp add: bounds_simps mmio_params_defs call_entry_def)
  next
    case 3
    then show ?thesis
      using assms(2,3) mmio_dump_defined [OF page fl(1) _ _ fl(2), of argv w]
      by (simp add: bounds_simps mmio_params_defs call_entry_def benign_def)
  qed
qed

lemma pci_table:
  assumes "info \<in> set pci_cmds"
  shows "entry info = E_pci_read_x \<and> params info = Some pci_rd_params \<or>
    entry info = E_pci_write_x \<and> params info = Some pci_wr_params \<or> entry info = E_pci_list"
  using assms by (auto simp: pci_cmds_def MAKE_PCI_RW_CMD_PAIR_def MAKE_CMD_WITH_PARAMS_SIZE_def MAKE_CMD_def)

lemma pci_read_x_defined: "5 \<le> length argv \<Longrightarrow> length argv \<le> 6 \<Longrightarrow> pci_read_x E argv info w \<noteq> None"
  by (cases "length argv = 5")
    (auto simp: pci_read_x_def segment_arg_def Let_def split: prod.splits option.splits IO_SIZE.splits)

lemma pci_write_x_defined: "6 \<le> length argv \<Longrightarrow> length argv \<le> 7 \<Longrightarrow> pci_write_x E argv info w \<noteq> None"
  by (cases "length argv = 6")
    (auto simp: pci_write_x_def segment_arg_def Let_def split: prod.splits option.splits IO_SIZE.splits)

lemma pci_entry_returns:
  assumes "info \<in> set pci_cmds" and "args_in_bounds info argv"
  shows "call_entry fuel junk E argv info w \<noteq> None"
  using pci_table [OF assms(1)] assms(2) pci_read_x_defined [of argv E info w] pci_write_x_defined [of argv E info w]
  by (auto simp: bounds_simps pci_params_defs call_entry_def pci_list_def Let_def split: prod.splits)

lemma smbus_table_params:
  assumes "info \<in> set smbus_cmds"
  shows "\<exists>p. params info = Some p \<and> min_args p = max_args p"
  using assms by (auto simp: smbus_table)

lemma smbus_entry_returns:
  assumes "info \<in> set smbus_cmds" and "args_in_bounds info argv" and "benign E argv info"
    and "length (data junk) = DTYPE_SIZE"
  shows "call_entry fuel junk E argv info w \<noteq> None"
proof -
  have "int (length argv) = min_args (the (params info))"
    using assms(2) smbus_table_params [OF assms(1)] by (auto simp: args_in_bounds_def)
  moreover have "block_length_ok E" using assms(3) by (simp add: benign_def)
  ultimately have "smbus_call E junk argv info w \<noteq> None"
    using smbus_call_defined [OF assms(1)] assms(4) by blast
  moreover have "call_entry fuel junk E argv info w = smbus_call E junk argv info w"
    using assms(1) by (cases rule: smbus_table_cases) (simp_all add: call_entry_def)
  ultimately show ?thesis by simp
qed

lemma entry_point_returns:
  assumes "info \<in> set (all_cmds all_groups)" and "args_in_bounds info argv" and "benign E argv info"
    and "length (data junk) = DTYPE_SIZE"
  shows "call_entry fuel junk E argv info w \<noteq> None"
proof -
  have "entry info \<noteq> E_busy_loop" using assms(3) by (simp add: benign_def)
  with assms show ?thesis
    unfolding all_cmds_table set_append Un_iff
    using logic_entry_returns cmos_msr_entry_returns misc_entry_returns io_entry_returns mmio_entry_returns
      pci_entry_returns smbus_entry_returns
    by (metis UnCI)
qed

text \<open>
  The program: all entry points behind the groups in the order \<open>order\<close> of registration.
\<close>

definition program_benign ::
    "smbus_op_params \<Rightarrow> cmd_group list \<Rightarrow> 'k env \<Rightarrow> string list \<Rightarrow> cmd_info \<Rightarrow> bool" where
  "program_benign junk order E argv info \<longleftrightarrow>
     mset order = mset all_groups \<and> length (data junk) = DTYPE_SIZE \<and> benign E argv info"

lemma set_registered_cmds:
  assumes "mset order = mset all_groups"
  shows "set (all_cmds (registered order)) = set (all_cmds all_groups)"
  using all_cmds_mset [of "registered order" all_groups] assms
  by (metis mset_eq_setD mset_rev registered_rev)

lemma locate_command_registered:
  assumes "mset order = mset all_groups"
  shows "locate_command cmd (registered order) = locate_command cmd all_groups"
  using locate_command_order [OF command_names_distinct, of "registered order" cmd] assms
  by (simp add: registered_rev)

lemma selected_registered:
  assumes "mset order = mset all_groups"
  shows "selected (registered order) argv = selected all_groups argv"
  unfolding selected_def locate_command_registered [OF assms] by simp

interpretation program: entry_points "call_entry fuel junk" "registered order" "program_benign junk order"
  for fuel junk order
proof (unfold_locales, goal_cases)
  case (1 info argv E w)
  then have "info \<in> set (all_cmds all_groups)"
    using set_registered_cmds [of order] by (simp add: program_benign_def)
  with 1 show ?case using entry_point_returns by (auto simp: program_benign_def)
qed


section \<open>Descriptors\<close>

text \<open>The entry points with a path on which they return with a descriptor open.\<close>

definition may_leak :: "cmd_info \<Rightarrow> bool" where
  "may_leak info \<longleftrightarrow> entry info \<in> {E_smbus_writeread, E_pci_read_x, E_pci_write_x, E_pci_list}"

lemmas entry_fds =
  logic_fds io_fds misc_fds cmos_rd_fds.kept cmos_wr_fds.kept rd_msr_fds.kept wr_msr_fds.kept
  mmio_read_fds.kept [of _ "(argv, info)" for argv info, simplified]
  mmio_write_fds.kept [of _ "(argv, info)" for argv info, simplified]
  mmio_dump_fds.kept [of _ "(argv, info)" for argv info, simplified]
  smbus_read_fds.kept [of _ "(junk, argv, info)" for junk argv info, simplified]
  smbus_write_fds.kept [of _ "(junk, argv, info)" for junk argv info, simplified]
  smbus_process_call_fds.kept [of _ "(junk, argv, info)" for junk argv info, simplified]

interpretation program_fds: clean_entries "call_entry fuel junk" groups "\<lambda>info. \<not> may_leak info"
  for fuel junk groups
proof (unfold_locales, goal_cases)
  case (1 info E argv w rc w')
  then show ?case
    by (cases "entry info") (auto simp: call_entry_def smbus_call_def may_leak_def intro: entry_fds)
qed

section \<open>Port privilege\<close>

text \<open>In a trace (latest call first), every port access comes after a granted \<open>iopl(3)\<close>.\<close>

fun is_port :: "extcall \<Rightarrow> bool" where
  "is_port (Port_in n port) = True"
| "is_port (Port_out port bs) = True"
| "is_port _ = False"

fun ports_granted :: "(extcall \<times> sysret) list \<Rightarrow> bool" where
  "ports_granted [] = True"
| "ports_granted ((c, r) # t) =
     (ports_granted t \<and> (is_port c \<longrightarrow> list_ex (\<lambda>(c', r'). c' = Iopl 3 \<and> 0 \<le> ret r') t))"

section \<open>Properties of the program\<close>

text \<open>
  C9: whatever order the linker runs the registration constructors in, a command name is found
  exactly when it is the name of an entry of one of the tables, and it is that entry that is found:
  no command shadows another.
\<close>
theorem command_lookup:
  assumes "mset order = mset all_groups"
  shows "locate_command cmd (registered order) = Some info \<longleftrightarrow>
    info \<in> set (all_cmds all_groups) \<and> name info = cmd"
  unfolding locate_command_registered [OF assms]
  using locate_command_Some locate_command_distinct [OF command_names_distinct] by blast

theorem command_lookup_witness:
  "locate_command ''or'' (registered (rev all_groups)) =
     Some (MAKE_CMD_WITH_PARAMS ''or'' E_logic_op (Logic_info OR_OP) logic_op_params)"
proof -
  have "MAKE_CMD_WITH_PARAMS ''or'' E_logic_op (Logic_info OR_OP) logic_op_params \<in> set (all_cmds all_groups)"
    by (simp add: all_cmds_table logic_cmds_def)
  then show ?thesis
    using command_lookup [of "rev all_groups" "''or''"] by (simp add: MAKE_CMD_WITH_PARAMS_def)
qed

lemma selected_command:
  assumes "info \<in> set (all_cmds all_groups)"
  shows "selected all_groups (prog # name info # args) = Some (info, name info # args)"
  using locate_command_distinct [OF command_names_distinct assms] by (simp add: selected_def One_nat_def)

lemma selected_link:
  assumes "info \<in> set (all_cmds all_groups)" and "args = [] \<or> hd args \<notin> name ` set (all_cmds all_groups)"
    and "link = name info \<or> link = dir @ ''/'' @ name info"
  shows "selected all_groups (link # args) = Some (info, link # args)"
proof -
  have plain: "CHR ''/'' \<notin> set (name info)" using command_names_plain [OF assms(1)] by simp
  then have "(case after_last (CHR ''/'') link of None \<Rightarrow> link | Some s \<Rightarrow> s) = name info"
    using assms(3) after_last_append [OF plain, of dir] by (auto simp: after_last_def)
  moreover have "(if 1 < length (link # args) then locate_command ((link # args) ! 1) all_groups else None) = None"
    using assms(2) by (cases args) (auto simp: locate_command_None One_nat_def)
  moreover note locate_command_distinct [OF command_names_distinct assms(1)]
  ultimately show ?thesis unfolding selected_def list.sel by simp
qed

text \<open>
  C11: running \<open>iotools CMD ARGS\<close> and running the link of a command found through the search path
  (so that \<open>argv[0]\<close> is \<open>CMD\<close>) are the same run, and a link called by any path runs its
  command too, provided the first of \<open>ARGS\<close> is not itself the name of a command: that name would
  be tried first.
\<close>
theorem link_equivalence:
  assumes "mset order = mset all_groups" and "info \<in> set (all_cmds all_groups)"
    and "args = [] \<or> hd args \<notin> name ` set (all_cmds all_groups)"
  shows "run_command invoke E (registered order) (prog # name info # args) w =
      run_cmd_info invoke E (name info # args) info w \<and>
    run_command invoke E (registered order) (name info # args) w =
      run_cmd_info invoke E (name info # args) info w \<and>
    run_command invoke E (registered order) ((dir @ ''/'' @ name info) # args) w =
      run_cmd_info invoke E ((dir @ ''/'' @ name info) # args) info w"
  using selected_command [OF assms(2)] selected_link [OF assms(2,3)]
  by (simp add: run_command_selected selected_registered [OF assms(1)])

theorem link_equivalence_witness:
  "run_command (call_entry 0 zero_params) (dir_env ''/usr/bin'' ''iotools'') (registered all_groups)
       [''iotools'', ''or'', ''1'', ''2''] (init_world Map.empty) =
     run_command (call_entry 0 zero_params) (dir_env ''/usr/bin'' ''iotools'') (registered all_groups)
       [''or'', ''1'', ''2''] (init_world Map.empty)"
proof -
  let ?info = "MAKE_CMD_WITH_PARAMS ''or'' E_logic_op (Logic_info OR_OP) logic_op_params"
  have i: "?info \<in> set (all_cmds all_groups)" "name ?info = ''or''"
    by (simp_all add: all_cmds_table logic_cmds_def MAKE_CMD_WITH_PARAMS_def)
  have "''1'' \<notin> set (map name (all_cmds all_groups))"
    unfolding command_names by simp
  then have "''1'' \<notin> name ` set (all_cmds all_groups)" by simp
  then show ?thesis
    using link_equivalence [OF refl i(1), of "[''1'', ''2'']" "call_entry 0 zero_params"
        "dir_env ''/usr/bin'' ''iotools''" "''iotools''" "init_world Map.empty"] i(2)
    by simp
qed

text \<open>
  C13: a command called with too few or too many arguments ends the program with status 1 after its
  usage line on the error stream; no system call is made and nothing else is printed.
\<close>
theorem usage_error:
  assumes "mset order = mset all_groups" and "info \<in> set (all_cmds all_groups)" and "params info = Some p"
    and "int (length args) + 1 < min_args p \<or> max_args p < int (length args) + 1"
  shows "main_exit invoke E (registered order) (prog # name info # args) w =
    Some (1, eprintf (''usage: '' @ name info @ '' '' @ usage p @ nl) w)"
  using assms(3,4) selected_command [OF assms(2), of prog args]
  by (auto simp: main_exit_def run_command_selected selected_registered [OF assms(1)] run_cmd_info_def
      check_prereqs_def argp_def)

theorem usage_error_witness:
  "main_exit (call_entry 0 zero_params) (dir_env ''/usr/bin'' ''iotools'') (registered all_groups)
       [''iotools'', ''not''] (init_world Map.empty) =
     Some (1, eprintf (''usage: not <value>'' @ nl) (init_world Map.empty))"
proof -
  let ?info = "MAKE_CMD_WITH_PARAMS ''not'' E_not NULL not_params"
  have i: "?info \<in> set (all_cmds all_groups)" "name ?info = ''not''" "params ?info = Some not_params"
    by (simp_all add: all_cmds_table logic_cmds_def MAKE_CMD_WITH_PARAMS_def)
  then show ?thesis
    using usage_error [OF refl i(1,3), of "[]" "call_entry 0 zero_params"
        "dir_env ''/usr/bin'' ''iotools''" "''iotools''" "init_world Map.empty"]
    by (simp add: not_params_def FIXED_ARGS_def)
qed

text \<open>
  C1: the program returns: for every command line and every order in which the groups were
  registered, the run ends with status 0 or 1 and no undefined behaviour of C, under these conditions.
  Of the machine: the kernel reports an absolute path of the executable that is shorter than the buffer
  it is read into, or an error (\<open>exe_path_ok\<close>), the page size is a power of two of at most one GiB (\<open>page_ok\<close>)
  and a block the SMBus driver returns is at most 32 bytes long (\<open>block_length_ok\<close>; with a
  driver that breaks this bound the copy of the block overruns the array on the stack); all other answers of the kernel are
  arbitrary.  Of the command that is selected (\<open>benign\<close>): shift counts and bit numbers are within
  the width, a dump does not wrap, and it is not the command that loops by design.
\<close>
theorem program_returns:
  assumes "mset order = mset all_groups" and "argv \<noteq> []" and "exe_path_ok E"
    and "length (data junk) = DTYPE_SIZE"
    and "\<forall>info args. selected all_groups argv = Some (info, args) \<longrightarrow> benign E args info"
  shows "\<exists>status w'. main_exit (call_entry fuel junk) E (registered order) argv w = Some (status, w') \<and>
    (status = 0 \<or> status = 1)"
proof -
  have "run_command (call_entry fuel junk) E (registered order) argv w \<noteq> None"
    using assms by (intro program.run_command_returns iotools_fallback_defined)
      (auto simp: program_benign_def selected_registered)
  then show ?thesis by (auto simp: main_exit_def)
qed

theorem program_returns_witness:
  "\<exists>status w'. main_exit (call_entry 0 zero_params) (dir_env ''/usr/bin'' ''iotools'') (registered all_groups)
       [''iotools'', ''shl'', ''1'', ''4''] (init_world Map.empty) = Some (status, w') \<and> (status = 0 \<or> status = 1)"
proof -
  let ?E = "dir_env ''/usr/bin'' ''iotools''"
  let ?info = "MAKE_CMD_WITH_PARAMS ''shl'' E_shift (Logic_info SHL_OP) shift_params"
  have i: "?info \<in> set (all_cmds all_groups)" "name ?info = ''shl''"
    by (simp_all add: all_cmds_table logic_cmds_def MAKE_CMD_WITH_PARAMS_def)
  have "exe_path_ok ?E" by (simp add: exe_path_ok_def dir_env_def FILENAME_MAX_def)
  moreover have "page_ok ?E" unfolding page_ok_def by (rule exI [of _ 12]) (simp add: dir_env_def)
  moreover have "block_length_ok ?E" by (simp add: block_length_ok_def dir_env_def)
  moreover have "strtoul ''4'' 0 = 4" by (simp add: strto_eval)
  ultimately show ?thesis
    using program_returns [of all_groups "[''iotools'', ''shl'', ''1'', ''4'']" ?E zero_params 0 "init_world Map.empty"]
      selected_command [OF i(1), of "''iotools''" "[''1'', ''4'']"] i(2)
    by (auto simp: benign_def MAKE_CMD_WITH_PARAMS_def zero_params_def)
qed

text \<open>
  C10: \<open>--make-links\<close> and \<open>--clean-links\<close> are inverse: in a directory without entries of the
  commands' names, making gives each command a link to the binary, touches no other entry and reports
  no error; cleaning afterwards restores the directory exactly.
\<close>
theorem links_round_trip:
  assumes "mset order = mset all_groups" and "link_fs E L" and "exe_at E dir bin"
    and "length dir + 26 \<le> FILENAME_MAX"
    and "\<forall>info \<in> set (all_cmds all_groups). L (kstate w) (dir @ ''/'' @ name info) = None"
  shows "\<exists>w1 w2. make_command_links E (registered order) w = Some (0, w1) \<and>
    (\<forall>info \<in> set (all_cmds all_groups). L (kstate w1) (dir @ ''/'' @ name info) = Some bin) \<and>
    (\<forall>p. p \<notin> (\<lambda>info. dir @ ''/'' @ name info) ` set (all_cmds all_groups) \<longrightarrow> L (kstate w1) p = L (kstate w) p) \<and>
    clean_command_links E (registered order) w1 = Some (0, w2) \<and> L (kstate w2) = L (kstate w) \<and>
    stderr w2 = stderr w"
proof -
  note set = set_registered_cmds [OF assms(1)]
  have len: "length dir + length (name c) + 2 \<le> FILENAME_MAX" if "c \<in> set (all_cmds (registered order))" for c
    using command_names_plain [of c] that assms(4) by (simp add: set)
  have d: "distinct (map name (all_cmds (registered order)))"
    using command_names_distinct all_cmds_mset [of "registered order" all_groups] assms(1)
    by (metis mset_eq_imp_distinct_iff mset_map mset_rev registered_rev)
  have absent: "L (kstate w) (dir @ ''/'' @ name c) = None" if "c \<in> set (all_cmds (registered order))" for c
    using assms(5) that by (simp add: set)
  obtain w1 where w1: "make_command_links E (registered order) w = Some (0, w1)" "stderr w1 = stderr w"
    "L (kstate w1) = (\<lambda>p. if p \<in> (\<lambda>c. dir @ ''/'' @ name c) ` set (all_cmds all_groups) then Some bin else L (kstate w) p)"
    using make_command_links_fs [OF assms(2,3) d len absent] unfolding set by blast
  obtain w2 where w2: "clean_command_links E (registered order) w1 = Some (0, w2)" "stderr w2 = stderr w1"
    "L (kstate w2) = (\<lambda>p. if p \<in> (\<lambda>c. dir @ ''/'' @ name c) ` set (all_cmds all_groups) then None else L (kstate w1) p)"
    using clean_command_links_fs [of E L dir bin "registered order" w1, OF assms(2,3) len] unfolding set by blast
  have "L (kstate w2) = L (kstate w)"
    using assms(5) by (auto simp: w1(3) w2(3) fun_eq_iff)
  moreover have "\<forall>info \<in> set (all_cmds all_groups). L (kstate w1) (dir @ ''/'' @ name info) = Some bin"
    by (simp add: w1(3))
  moreover have "\<forall>p. p \<notin> (\<lambda>info. dir @ ''/'' @ name info) ` set (all_cmds all_groups) \<longrightarrow> L (kstate w1) p = L (kstate w) p"
    by (simp add: w1(3))
  ultimately show ?thesis using w1(1,2) w2(1,2) by metis
qed

theorem links_round_trip_witness:
  "\<exists>w1 w2. make_command_links (dir_env ''/usr/bin'' ''iotools'') (registered all_groups)
       (init_world [''/usr/bin/iotools'' \<mapsto> ''ELF'']) = Some (0, w1) \<and>
     clean_command_links (dir_env ''/usr/bin'' ''iotools'') (registered all_groups) w1 = Some (0, w2) \<and>
     kstate w2 = [''/usr/bin/iotools'' \<mapsto> ''ELF'']"
proof -
  have "list_all (\<lambda>n. [''/usr/bin/iotools'' \<mapsto> ''ELF''] (''/usr/bin'' @ ''/'' @ n) = None)
      (map name (all_cmds all_groups))"
    unfolding command_names by simp
  then have "\<forall>info \<in> set (all_cmds all_groups).
      id (kstate (init_world [''/usr/bin/iotools'' \<mapsto> ''ELF''])) (''/usr/bin'' @ ''/'' @ name info) = None"
    by (simp add: list_all_iff)
  moreover have "exe_at (dir_env ''/usr/bin'' ''iotools'') ''/usr/bin'' ''iotools''"
    by (rule dir_env_exe_at) (simp_all add: FILENAME_MAX_def)
  ultimately show ?thesis
    using links_round_trip [OF refl dir_env_link_fs, of "''/usr/bin''" "''iotools''" "''/usr/bin''" "''iotools''"
        "init_world [''/usr/bin/iotools'' \<mapsto> ''ELF'']"]
    by (auto simp: FILENAME_MAX_def)
qed

text \<open>
  C12: every port access of the port commands follows an \<open>iopl(3)\<close> that the kernel granted: a
  refused request ends the command before it touches a port.
\<close>
theorem port_access_granted:
  assumes "info \<in> set io_cmds" and "run_cmd_info (call_entry fuel junk) E argv info w = Some (rc, w')"
    and "trace w = []"
  shows "ports_granted (trace w')"
  using io_table [OF assms(1)] assms(2,3)
  by (auto simp: run_cmd_info_def check_prereqs_def io_params_defs FIXED_ARGS_def call_entry_def io_read_x_def
      io_write_x_def io_DO_READ_def io_DO_WRITE_def Let_def rv_def
      split: bind_splits if_splits option.splits IO_SIZE.splits)

theorem port_access_granted_witness:
  "\<exists>w'. run_cmd_info (call_entry 0 zero_params) port_env [''io_read8'', ''0x80''] (io_read_info SIZE8)
       (init_world (\<lambda>_. [])) = Some (0, w') \<and> length (trace w') = 2 \<and> ports_granted (trace w')"
proof -
  have i: "io_read_info SIZE8 \<in> set io_cmds"
    by (simp add: io_cmds_def io_read_info_def MAKE_IO_RW_CMD_PAIR_def)
  obtain w' where w': "run_cmd_info (call_entry 0 zero_params) port_env [''io_read8'', ''0x80''] (io_read_info SIZE8)
      (init_world (\<lambda>_. [])) = Some (0, w')" "length (trace w') = 2"
    by (auto simp: run_cmd_info_def check_prereqs_def io_read_info_def MAKE_IO_RW_CMD_PAIR_def make_cmd_defs
        io_params_defs call_entry_def io_read_x_def get_command_size_def io_DO_READ_def Let_def rv_sys port_env_def argp_def)
  with port_access_granted [OF i w'(1)] show ?thesis by simp
qed

text \<open>
  C8: whatever the kernel answers, a run of the program that starts without open descriptors ends
  without open descriptors and has used only descriptors that were open, whichever command line it
  was given, error paths and the link commands included; excepted are only the four entry points of
  the PCI commands and of \<open>smbus_writeread\<close>, which have leaking paths.
\<close>
theorem program_descriptors:
  assumes "main_exit (call_entry fuel junk) E groups argv w = Some (status, w')" and "argv \<noteq> []"
    and "\<forall>info args. selected groups argv = Some (info, args) \<longrightarrow> \<not> may_leak info"
    and "trace w = []"
  shows "open_fds (trace w') = [] \<and> disciplined (trace w')"
proof -
  have "fds_kept w w'"
    using assms(3) by (intro program_fds.main_exit_fds [OF assms(2) _ assms(1)]) blast
  with assms(4) show ?thesis by (simp add: fds_kept_def)
qed

theorem program_descriptors_witness:
  "\<exists>w'. main_exit (call_entry 0 zero_params) one_file_env all_groups [''iotools'', ''cmos_read'', ''0x10'']
       (init_world (\<lambda>_. 7, 0)) = Some (0, w') \<and> trace w' \<noteq> [] \<and> open_fds (trace w') = [] \<and> disciplined (trace w')"
proof -
  let ?info = "MAKE_CMD_WITH_PARAMS ''cmos_read'' E_cmos_rd NULL cmos_rd_params"
  let ?argv = "[''iotools'', ''cmos_read'', ''0x10'']"
  have i: "?info \<in> set (all_cmds all_groups)" "name ?info = ''cmos_read''"
    by (simp_all add: all_cmds_table cmos_cmds_def MAKE_CMD_WITH_PARAMS_def)
  then have sel: "selected all_groups ?argv = Some (?info, [''cmos_read'', ''0x10''])"
    using selected_command [of ?info "''iotools''" "[''0x10'']"] by simp
  have "unat (strtoul ''0x10'' 0) = 16" by (simp add: strto_eval)
  then obtain w1 where w1: "cmos_rd one_file_env [''cmos_read'', ''0x10''] (init_world (\<lambda>_. 7, 0)) = Some (0, w1)"
    "stdout w1 \<noteq> ''''"
    using cmos_rd_run [OF one_file_register_file, of "''0x10''" "''cmos_read''" "init_world (\<lambda>_. 7, 0)"] by fastforce
  then have run: "main_exit (call_entry 0 zero_params) one_file_env all_groups ?argv (init_world (\<lambda>_. 7, 0)) = Some (0, w1)"
    by (simp add: main_exit_def run_command_selected sel run_cmd_info_def check_prereqs_def call_entry_def
        MAKE_CMD_WITH_PARAMS_def cmos_rd_params_def FIXED_ARGS_def)
  moreover have "trace w1 \<noteq> []"
    using w1(1) \<open>unat (strtoul ''0x10'' 0) = 16\<close>
    by (auto simp: cmos_rd_def Let_def split: if_splits bind_splits)
  ultimately show ?thesis
    using program_descriptors [OF run] by (simp add: sel may_leak_def MAKE_CMD_WITH_PARAMS_def)
qed

end
